(* ===== verification/Prelude.thy ===== *)
theory Prelude
  imports Main "HOL-Library.AList" "HOL-Library.Char_ord" "HOL-Library.List_Lexorder"
begin

text \<open>
  What every component shares: Go errors and panics as values, computations that thread a
  state and may fail (with a small Hoare calculus for them), the few functions of Go's
  package \<open>strings\<close> that the operator calls, and association lists for Go maps.

  A Go function that returns \<open>(T, error)\<close> is modelled by a value of type \<open>failure + 'a\<close>:
  \<open>Inr x\<close> is \<open>(x, nil)\<close>, \<open>Inl (Fail e)\<close> is a non-nil error and \<open>Inl (Panic m)\<close> is a run-time
  panic (failed type assertion, nil dereference), which no function of the repository recovers.
\<close>

named_theorems valid_intros "introduction rules of the Hoare calculus for computations"
named_theorems str_simps "facts on the string functions"

section \<open>Errors\<close>

datatype num_err = ErrSyntax | ErrRange

datatype gerror =
    Error string                     \<comment> \<open>errors.New, errors.Errorf, or an error of an external call\<close>
  | NumError string string num_err   \<comment> \<open>the strconv.NumError of function, input and kind\<close>
  | Wrap string gerror               \<comment> \<open>errors.Wrap and errors.Wrapf of a non-nil error\<close>

datatype failure = Fail gerror | Panic string

text \<open>The text \<open>err.Error()\<close>; \<open>errors.Wrap\<close> puts its message in front.\<close>

fun err_text :: "gerror \<Rightarrow> string" where
  "err_text (Error m) = m"
| "err_text (NumError f s k) = ''strconv.'' @ f @ '': parsing '' @ [CHR 0x22] @ s @ [CHR 0x22] @ '': '' @
     (case k of ErrSyntax \<Rightarrow> ''invalid syntax'' | ErrRange \<Rightarrow> ''value out of range'')"
| "err_text (Wrap m e) = m @ '': '' @ err_text e"

text \<open>
  \<open>errors.Wrap(err, m)\<close> of github.com/pkg/errors as the code relies on it: it annotates a
  non-nil error and returns nil for a nil one.
\<close>

fun wrap_error :: "string \<Rightarrow> gerror option \<Rightarrow> gerror option" where
  "wrap_error m None = None"
| "wrap_error m (Some e) = Some (Wrap m e)"

fun wrap_failure :: "string \<Rightarrow> failure \<Rightarrow> failure" where
  "wrap_failure m (Fail e) = Fail (Wrap m e)"
| "wrap_failure m (Panic p) = Panic p"

section \<open>Results\<close>

type_synonym 'a result = "failure + 'a"

definition bindR :: "'a result \<Rightarrow> ('a \<Rightarrow> 'b result) \<Rightarrow> 'b result" where
  "bindR r f = (case r of Inl e \<Rightarrow> Inl e | Inr x \<Rightarrow> f x)"

definition wrapR :: "string \<Rightarrow> 'a result \<Rightarrow> 'a result" where
  "wrapR m r = (case r of Inl e \<Rightarrow> Inl (wrap_failure m e) | Inr x \<Rightarrow> Inr x)"

definition of_error :: "gerror + 'a \<Rightarrow> 'a result" where
  "of_error r = (case r of Inl e \<Rightarrow> Inl (Fail e) | Inr x \<Rightarrow> Inr x)"

lemma bindR_simps [simp]: "bindR (Inl e) f = Inl e" "bindR (Inr x) f = f x"
  by (simp_all add: bindR_def)

lemma wrapR_simps [simp]: "wrapR m (Inl e) = Inl (wrap_failure m e)" "wrapR m (Inr x) = Inr x"
  by (simp_all add: wrapR_def)

lemma of_error_simps [simp]: "of_error (Inl e) = Inl (Fail e)" "of_error (Inr x) = Inr x"
  by (simp_all add: of_error_def)

lemma bindR_eq_Inr: "bindR r f = Inr y \<longleftrightarrow> (\<exists>x. r = Inr x \<and> f x = Inr y)"
  by (cases r) auto

lemma wrapR_eq_Inr [simp]: "wrapR m r = Inr x \<longleftrightarrow> r = Inr x"
  by (cases r) auto

lemma of_error_eq_Inr [simp]: "of_error r = Inr x \<longleftrightarrow> r = Inr x"
  by (cases r) auto

section \<open>Computations with a state\<close>

text \<open>
  A computation takes the state and returns its result and the next state; the state changes
  made before a failure stay, as the effects of a Go function that returns an error do.
\<close>

type_synonym ('s, 'a) act = "'s \<Rightarrow> 'a result \<times> 's"

definition ret :: "'a \<Rightarrow> ('s, 'a) act" where
  "ret x = (\<lambda>s. (Inr x, s))"

definition liftR :: "'a result \<Rightarrow> ('s, 'a) act" where
  "liftR r = (\<lambda>s. (r, s))"

definition raise :: "gerror \<Rightarrow> ('s, 'a) act" where
  "raise e = (\<lambda>s. (Inl (Fail e), s))"

definition bindA :: "('s, 'a) act \<Rightarrow> ('a \<Rightarrow> ('s, 'b) act) \<Rightarrow> ('s, 'b) act" where
  "bindA m f = (\<lambda>s. case m s of (r, s') \<Rightarrow> (case r of Inl e \<Rightarrow> (Inl e, s') | Inr x \<Rightarrow> f x s'))"

definition wrapA :: "string \<Rightarrow> ('s, 'a) act \<Rightarrow> ('s, 'a) act" where
  "wrapA m a = (\<lambda>s. case a s of (r, s') \<Rightarrow> (wrapR m r, s'))"

text \<open>\<open>if err := f(); err != nil\<close>: the error becomes a value; a panic is not caught.\<close>

definition attempt :: "('s, 'a) act \<Rightarrow> ('s, gerror + 'a) act" where
  "attempt m = (\<lambda>s. case m s of (r, s') \<Rightarrow>
     (case r of Inl (Fail e) \<Rightarrow> (Inr (Inl e), s')
              | Inl (Panic p) \<Rightarrow> (Inl (Panic p), s')
              | Inr x \<Rightarrow> (Inr (Inr x), s')))"

text \<open>A \<open>for ... range\<close> loop over a list whose body returns on an error.\<close>

fun foldA :: "('a \<Rightarrow> 'b \<Rightarrow> ('s, 'b) act) \<Rightarrow> 'a list \<Rightarrow> 'b \<Rightarrow> ('s, 'b) act" where
  "foldA f [] b = ret b"
| "foldA f (x # xs) b = bindA (f x b) (foldA f xs)"

lemma bindA_ret [simp]: "bindA (ret x) f = f x"
  by (simp add: bindA_def ret_def)

lemma bindA_assoc: "bindA (bindA m f) h = bindA m (\<lambda>x. bindA (f x) h)"
  by (auto simp: bindA_def fun_eq_iff split: prod.split sum.split)

lemma bindA_raise [simp]: "bindA (raise e) f = raise e"
  by (simp add: bindA_def raise_def)

lemma bindA_liftR [simp]: "bindA (liftR (Inr x)) f = f x" "bindA (liftR (Inl e)) f = liftR (Inl e)"
  by (simp_all add: bindA_def liftR_def)

lemma wrapA_ret [simp]: "wrapA msg (ret x) = ret x"
  by (simp add: wrapA_def ret_def)

lemma wrapA_liftR [simp]: "wrapA msg (liftR r) = liftR (wrapR msg r)"
  by (simp add: wrapA_def liftR_def)

lemmas act_defs = ret_def liftR_def raise_def bindA_def wrapA_def attempt_def

text \<open>
  \<open>valid P m Q E\<close>: from every state with \<open>P\<close>, the computation \<open>m\<close> ends either with a result
  and state in \<open>Q\<close> or with a failure and state in \<open>E\<close>.
\<close>

definition valid ::
  "('s \<Rightarrow> bool) \<Rightarrow> ('s, 'a) act \<Rightarrow> ('a \<Rightarrow> 's \<Rightarrow> bool) \<Rightarrow> (failure \<Rightarrow> 's \<Rightarrow> bool) \<Rightarrow> bool" where
  "valid P m Q E \<longleftrightarrow> (\<forall>s. P s \<longrightarrow> (case m s of (r, s') \<Rightarrow>
     (case r of Inl e \<Rightarrow> E e s' | Inr x \<Rightarrow> Q x s')))"

lemma valid_ret [valid_intros]: "(\<And>s. P s \<Longrightarrow> Q x s) \<Longrightarrow> valid P (ret x) Q E"
  by (simp add: valid_def ret_def)

lemma valid_raise [valid_intros]: "(\<And>s. P s \<Longrightarrow> E (Fail e) s) \<Longrightarrow> valid P (raise e) Q E"
  by (simp add: valid_def raise_def)

lemma valid_liftR [valid_intros]:
  "(\<And>s x. r = Inr x \<Longrightarrow> P s \<Longrightarrow> Q x s) \<Longrightarrow> (\<And>s e. r = Inl e \<Longrightarrow> P s \<Longrightarrow> E e s)
    \<Longrightarrow> valid P (liftR r) Q E"
  by (cases r) (simp_all add: valid_def liftR_def)

lemma valid_bindA:
  "valid P m R E \<Longrightarrow> (\<And>x. valid (R x) (f x) Q E) \<Longrightarrow> valid P (bindA m f) Q E"
  by (fastforce simp: valid_def bindA_def split: prod.splits sum.splits)

lemma valid_wrapA:
  "valid P m Q (\<lambda>e. E (wrap_failure msg e)) \<Longrightarrow> valid P (wrapA msg m) Q E"
  by (auto simp: valid_def wrapA_def wrapR_def split: prod.splits sum.splits)

lemma valid_attempt:
  "valid P m (\<lambda>x. Q (Inr x)) (\<lambda>f s. (\<forall>e. f = Fail e \<longrightarrow> Q (Inl e) s) \<and> (\<forall>p. f = Panic p \<longrightarrow> E f s))
    \<Longrightarrow> valid P (attempt m) Q E"
  by (fastforce simp: valid_def attempt_def split: prod.splits sum.splits failure.splits)

lemma valid_foldA:
  assumes "\<And>x b. x \<in> set xs \<Longrightarrow> valid (I b) (f x b) I E"
  shows "valid (I b) (foldA f xs b) I E"
  using assms
proof (induction xs arbitrary: b)
  case Nil
  show ?case by (simp add: valid_def ret_def)
next
  case (Cons x xs)
  have "valid (I b) (f x b) I E" and "\<And>b'. valid (I b') (foldA f xs b') I E"
    using Cons by auto
  then show ?case by (auto intro: valid_bindA)
qed

lemma valid_consequence:
  "valid P' m Q' E' \<Longrightarrow> (\<And>s. P s \<Longrightarrow> P' s) \<Longrightarrow> (\<And>x s. Q' x s \<Longrightarrow> Q x s) \<Longrightarrow> (\<And>e s. E' e s \<Longrightarrow> E e s)
    \<Longrightarrow> valid P m Q E"
  by (fastforce simp: valid_def split: prod.splits sum.splits)

lemma validD:
  "valid P m Q E \<Longrightarrow> P s \<Longrightarrow> m s = (Inr x, s') \<Longrightarrow> Q x s'"
  by (fastforce simp: valid_def)

lemma validD_fail:
  "valid P m Q E \<Longrightarrow> P s \<Longrightarrow> m s = (Inl e, s') \<Longrightarrow> E e s'"
  by (fastforce simp: valid_def)

text \<open>\<open>keeps I m\<close>: \<open>m\<close> preserves the state predicate \<open>I\<close>, whether it succeeds or fails.\<close>

definition keeps :: "('s \<Rightarrow> bool) \<Rightarrow> ('s, 'a) act \<Rightarrow> bool" where
  "keeps I m \<longleftrightarrow> valid I m (\<lambda>_. I) (\<lambda>_. I)"

lemma keeps_iff: "keeps I m \<longleftrightarrow> (\<forall>s. I s \<longrightarrow> I (snd (m s)))"
  unfolding keeps_def valid_def by (simp add: split_beta split: sum.split)

lemma keepsD: "keeps I m \<Longrightarrow> I s \<Longrightarrow> I (snd (m s))"
  by (simp add: keeps_iff)

lemma keeps_ret [valid_intros, simp]: "keeps I (ret x)"
  and keeps_liftR [valid_intros, simp]: "keeps I (liftR r)"
  and keeps_raise [valid_intros, simp]: "keeps I (raise e)"
  by (simp_all add: keeps_iff ret_def liftR_def raise_def)

lemma keeps_bindA [valid_intros]: "keeps I m \<Longrightarrow> (\<And>x. keeps I (f x)) \<Longrightarrow> keeps I (bindA m f)"
  unfolding keeps_def by (rule valid_bindA)

text \<open>A computation that uses the result of another keeps a predicate if it does for every result there is.\<close>

lemma keeps_bindA_result:
  assumes "keeps I m" "\<And>x w w'. m w = (Inr x, w') \<Longrightarrow> keeps I (f x)"
  shows "keeps I (bindA m f)"
  unfolding keeps_iff
proof (intro allI impI)
  fix w assume "I w"
  obtain r w' where m: "m w = (r, w')" by (cases "m w")
  then have "I w'" using keepsD [OF assms(1) \<open>I w\<close>] by simp
  then show "I (snd (bindA m f w))" using m assms(2) keepsD by (cases r) (fastforce simp: bindA_def)+
qed

lemma keeps_wrapA [valid_intros]: "keeps I m \<Longrightarrow> keeps I (wrapA msg m)"
  unfolding keeps_def by (rule valid_wrapA)

lemma keeps_attempt [valid_intros]: "keeps I m \<Longrightarrow> keeps I (attempt m)"
  by (auto simp: keeps_iff attempt_def split: prod.splits sum.splits failure.splits)

lemma keeps_foldA [valid_intros]: "(\<And>x b. keeps I (f x b)) \<Longrightarrow> keeps I (foldA f xs b)"
  unfolding keeps_def by (rule valid_foldA)

lemma keeps_if [valid_intros]: "keeps I a \<Longrightarrow> keeps I b \<Longrightarrow> keeps I (if c then a else b)"
  by simp

lemma valid_keeps:
  assumes "valid P m Q E" and "keeps I m"
  shows "valid (\<lambda>s. I s \<and> P s) m (\<lambda>x s. Q x s \<and> I s) (\<lambda>e s. I s \<and> E e s)"
  unfolding valid_def
proof (intro allI impI)
  fix s
  assume "I s \<and> P s"
  moreover obtain r s' where "m s = (r, s')" by (cases "m s")
  ultimately show "case m s of (r, s') \<Rightarrow> (case r of Inl e \<Rightarrow> I s' \<and> E e s' | Inr x \<Rightarrow> Q x s' \<and> I s')"
    using assms by (cases r) (auto simp: valid_def keeps_iff dest!: spec [of _ s])
qed

lemma bindA_eq_Inr: "bindA m f w = (Inr y, w') \<longleftrightarrow> (\<exists>x w1. m w = (Inr x, w1) \<and> f x w1 = (Inr y, w'))"
  by (auto simp: bindA_def split: prod.splits sum.splits)

lemma wrapA_eq_Inr: "wrapA msg m w = (Inr x, w') \<longleftrightarrow> m w = (Inr x, w')"
  by (cases "m w") (simp add: wrapA_def)

lemma liftR_eq_Inr: "liftR r w = (Inr x, w') \<longleftrightarrow> r = Inr x \<and> w' = w"
  by (auto simp: liftR_def)

lemma ret_eq_Inr: "ret x w = (Inr y, w') \<longleftrightarrow> y = x \<and> w' = w"
  by (auto simp: ret_def)

lemma raise_eq_Inr: "\<not> raise e w = (Inr y, w')"
  by (simp add: raise_def)

lemmas act_eq_Inr = bindA_eq_Inr wrapA_eq_Inr liftR_eq_Inr ret_eq_Inr raise_eq_Inr of_error_eq_Inr

section \<open>Package strings\<close>

definition has_prefix :: "string \<Rightarrow> string \<Rightarrow> bool" where
  "has_prefix s p \<longleftrightarrow> take (length p) s = p"

definition trim_prefix :: "string \<Rightarrow> string \<Rightarrow> string" where
  "trim_prefix s p = (if has_prefix s p then drop (length p) s else s)"

definition trim_suffix :: "string \<Rightarrow> string \<Rightarrow> string" where
  "trim_suffix s p = rev (trim_prefix (rev s) (rev p))"

fun str_contains :: "string \<Rightarrow> string \<Rightarrow> bool" where
  "str_contains [] p \<longleftrightarrow> p = []"
| "str_contains (c # cs) p \<longleftrightarrow> has_prefix (c # cs) p \<or> str_contains cs p"

text \<open>\<open>strings.SplitN(s, sep, 2)\<close> for a one-byte separator: the part before the first separator,
  and the rest if there is one.\<close>

fun split2 :: "char \<Rightarrow> string \<Rightarrow> string \<times> string option" where
  "split2 d [] = ([], None)"
| "split2 d (c # cs) =
     (if c = d then ([], Some cs) else (case split2 d cs of (h, t) \<Rightarrow> (c # h, t)))"

text \<open>\<open>strings.Split(s, sep)\<close> for a one-byte separator.\<close>

fun split_all :: "char \<Rightarrow> string \<Rightarrow> string list" where
  "split_all d [] = [[]]"
| "split_all d (c # cs) =
     (if c = d then [] # split_all d cs
      else (case split_all d cs of [] \<Rightarrow> [[c]] | h # t \<Rightarrow> (c # h) # t))"

definition replace_char :: "char \<Rightarrow> char \<Rightarrow> string \<Rightarrow> string" where
  "replace_char a b s = map (\<lambda>c. if c = a then b else c) s"

fun str_join :: "string \<Rightarrow> string list \<Rightarrow> string" where
  "str_join d [] = []"
| "str_join d [s] = s"
| "str_join d (s # t # ts) = s @ d @ str_join d (t # ts)"

lemma str_contains_iff: "str_contains s p \<longleftrightarrow> (\<exists>a b. s = a @ p @ b)"
proof (induction s)
  case Nil
  then show ?case by auto
next
  case (Cons c cs)
  have "has_prefix (c # cs) p \<longleftrightarrow> (\<exists>b. c # cs = p @ b)"
    by (auto simp: has_prefix_def) (metis append_take_drop_id)
  moreover have "(\<exists>a b. c # cs = a @ p @ b) \<longleftrightarrow> (\<exists>b. c # cs = p @ b) \<or> (\<exists>a b. cs = a @ p @ b)"
    by (metis append_Cons append_Nil list.inject neq_Nil_conv)
  ultimately show ?case using Cons.IH by simp
qed

lemma split2_length: "split2 d s = (h, Some t) \<Longrightarrow> length t < length s"
  by (induction s arbitrary: h) (auto split: if_splits prod.splits)

lemma split2_None: "d \<notin> set s \<Longrightarrow> split2 d s = (s, None)"
  by (induction s) auto

lemma split2_Some: "d \<notin> set s \<Longrightarrow> split2 d (s @ d # t) = (s, Some t)"
  by (induction s) auto

lemma split2_concat: "split2 d s = (h, t) \<Longrightarrow> s = h @ (case t of None \<Rightarrow> [] | Some u \<Rightarrow> d # u)"
  by (induction s arbitrary: h) (auto split: if_splits prod.splits)

lemma split2_head: "split2 d s = (h, t) \<Longrightarrow> d \<notin> set h"
  by (induction s arbitrary: h) (auto split: if_splits prod.splits)

lemma split_all_not_Nil [simp]: "split_all d s \<noteq> []"
  by (induction s) (auto split: list.splits)

lemma split_all_no_sep: "d \<notin> set s \<Longrightarrow> split_all d s = [s]"
  by (induction s) auto

lemma split_all_append: "d \<notin> set s \<Longrightarrow> split_all d (s @ d # t) = s # split_all d t"
  by (induction s) auto

lemma replace_char_notin: "a \<noteq> b \<Longrightarrow> a \<notin> set (replace_char a b s)"
  by (auto simp: replace_char_def)

lemma replace_char_id: "a \<notin> set s \<Longrightarrow> replace_char a b s = s"
  unfolding replace_char_def by (rule map_idI) auto

section \<open>Go maps as association lists\<close>

text \<open>
  A Go map is an association list with distinct keys; the order of the list stands for the
  iteration order of \<open>range\<close>, which Go leaves open. Writing a key uses \<open>AList.update\<close>,
  \<open>delete(m, k)\<close> is \<open>AList.delete\<close>, reading is \<open>map_of\<close>.
\<close>

type_synonym 'v gmap = "(string \<times> 'v) list"

definition map_wf :: "'v gmap \<Rightarrow> bool" where
  "map_wf m \<longleftrightarrow> distinct (map fst m)"

lemma map_wf_update [simp]: "map_wf m \<Longrightarrow> map_wf (AList.update k v m)"
  by (simp add: map_wf_def distinct_update)

lemma map_of_update_apply: "map_of (AList.update k v m) = (map_of m)(k \<mapsto> v)"
  by (rule update_conv')

lemma map_of_delete_apply: "map_of (AList.delete k m) = (map_of m)(k := None)"
  by (rule delete_conv')

text \<open>\<open>for k, v := range updates { m[k] = v }\<close>\<close>

fun map_put_all :: "'v gmap \<Rightarrow> 'v gmap \<Rightarrow> 'v gmap" where
  "map_put_all m [] = m"
| "map_put_all m ((k, v) # us) = map_put_all (AList.update k v m) us"

lemma map_of_put_all:
  "map_wf us \<Longrightarrow> map_of (map_put_all m us) = map_of m ++ map_of us"
proof (induction m us rule: map_put_all.induct)
  case (2 m k v us)
  then have none: "map_of us k = None" and wf: "map_wf us"
    by (auto simp: map_wf_def map_of_eq_None_iff)
  have "map_of (map_put_all m ((k, v) # us)) = (map_of m)(k \<mapsto> v) ++ map_of us"
    by (simp only: map_put_all.simps "2.IH" [OF wf] update_conv')
  also have "\<dots> = map_of m ++ map_of ((k, v) # us)"
    using none by (auto simp: fun_eq_iff map_add_def split: option.splits)
  finally show ?case .
qed simp

lemma map_wf_put_all [simp]: "map_wf m \<Longrightarrow> map_wf (map_put_all m us)"
  by (induction m us rule: map_put_all.induct) auto

text \<open>Equality of two maps as \<open>reflect.DeepEqual\<close> sees it: same keys, same values.\<close>

definition map_eq :: "'v gmap \<Rightarrow> 'v gmap \<Rightarrow> bool" where
  "map_eq a b \<longleftrightarrow> (\<forall>k \<in> set (map fst a) \<union> set (map fst b). map_of a k = map_of b k)"

lemma map_eq_iff: "map_eq a b \<longleftrightarrow> map_of a = map_of b"
proof
  assume h: "map_eq a b"
  show "map_of a = map_of b"
  proof
    fix k
    show "map_of a k = map_of b k"
    proof (cases "k \<in> set (map fst a) \<union> set (map fst b)")
      case True
      then show ?thesis using h by (simp add: map_eq_def)
    next
      case False
      then have "map_of a k = None" and "map_of b k = None"
        by (simp_all add: map_of_eq_None_iff)
      then show ?thesis by simp
    qed
  qed
qed (simp add: map_eq_def)

end
