(* ===== verification/Strconv.thy ===== *)
theory Strconv
  imports Prelude "HOL-Library.Word"
begin

text \<open>
  The part of Go's package \<open>strconv\<close> that the operator calls, on base 10: \<open>FormatInt\<close>,
  \<open>FormatUint\<close>, \<open>Itoa\<close>, \<open>ParseInt\<close>, \<open>ParseUint\<close>, \<open>Atoi\<close> and \<open>ParseBool\<close>. Values of the
  64-bit integer types are \<open>64 word\<close>, read by \<open>sint\<close> for \<open>int\<close> and \<open>int64\<close> and by \<open>unat\<close> for
  \<open>uint64\<close>. The lemmas say what a parse of a printed number gives, at every bit size, and a
  locale states the contract of a printer with its parser.
\<close>

type_synonym i64 = "64 word"

section \<open>Printing\<close>

definition digit_char :: "nat \<Rightarrow> char" where
  "digit_char d = char_of (48 + d)"

definition digit_val :: "char \<Rightarrow> nat option" where
  "digit_val c = (let k = of_char c :: nat in if 48 \<le> k \<and> k \<le> 57 then Some (k - 48) else None)"

fun fmt_nat :: "nat \<Rightarrow> string" where
  "fmt_nat n = (if n < 10 then [digit_char n] else fmt_nat (n div 10) @ [digit_char (n mod 10)])"

declare fmt_nat.simps [simp del]

definition FormatUint :: "i64 \<Rightarrow> string" where
  "FormatUint v = fmt_nat (unat v)"

definition FormatInt :: "i64 \<Rightarrow> string" where
  "FormatInt v = (if sint v < 0 then CHR ''-'' # fmt_nat (nat (- sint v)) else fmt_nat (nat (sint v)))"

definition Itoa :: "nat \<Rightarrow> string" where
  "Itoa n = fmt_nat n"

section \<open>Parsing\<close>

text \<open>
  The scanning loop of \<open>strconv.ParseUint\<close>: a byte that is no digit is a syntax error, a prefix
  whose value exceeds the maximum of the bit size is a range error at once.
\<close>

fun parse_digits :: "nat \<Rightarrow> nat \<Rightarrow> string \<Rightarrow> num_err + nat" where
  "parse_digits mx n [] = Inr n"
| "parse_digits mx n (c # cs) =
     (case digit_val c of
        None \<Rightarrow> Inl ErrSyntax
      | Some d \<Rightarrow> (let n' = 10 * n + d in if mx < n' then Inl ErrRange else parse_digits mx n' cs))"

definition parse_unsigned :: "nat \<Rightarrow> string \<Rightarrow> num_err + nat" where
  "parse_unsigned bits s = (if s = [] then Inl ErrSyntax else parse_digits (2 ^ bits - 1) 0 s)"

text \<open>
  \<open>strconv.ParseInt\<close>: an optional sign, then \<open>ParseUint\<close>, then the bounds of the signed type.
  A range error of \<open>ParseUint\<close> stays a range error.
\<close>

definition split_sign :: "string \<Rightarrow> bool \<times> string" where
  "split_sign s = (case s of
      [] \<Rightarrow> (False, [])
    | c # cs \<Rightarrow> if c = CHR ''+'' then (False, cs) else if c = CHR ''-'' then (True, cs) else (False, s))"

definition parse_signed :: "nat \<Rightarrow> string \<Rightarrow> num_err + int" where
  "parse_signed bits s =
     (if s = [] then Inl ErrSyntax
      else (case split_sign s of (neg, u) \<Rightarrow>
        (case parse_unsigned bits u of
           Inl e \<Rightarrow> Inl e
         | Inr un \<Rightarrow>
             if \<not> neg \<and> 2 ^ (bits - 1) \<le> un then Inl ErrRange
             else if neg \<and> 2 ^ (bits - 1) < un then Inl ErrRange
             else Inr (if neg then - int un else int un))))"

definition num_result :: "string \<Rightarrow> string \<Rightarrow> num_err + int \<Rightarrow> gerror + i64" where
  "num_result fn s r = (case r of Inl k \<Rightarrow> Inl (NumError fn s k) | Inr v \<Rightarrow> Inr (word_of_int v))"

definition ParseInt :: "string \<Rightarrow> nat \<Rightarrow> gerror + i64" where
  "ParseInt s bits = num_result ''ParseInt'' s (parse_signed bits s)"

definition ParseUint :: "string \<Rightarrow> nat \<Rightarrow> gerror + i64" where
  "ParseUint s bits = num_result ''ParseUint'' s (map_sum id int (parse_unsigned bits s))"

text \<open>\<open>strconv.Atoi\<close> on a platform where \<open>int\<close> has 64 bits.\<close>

definition Atoi :: "string \<Rightarrow> gerror + i64" where
  "Atoi s = num_result ''Atoi'' s (parse_signed 64 s)"

definition ParseBool :: "string \<Rightarrow> gerror + bool" where
  "ParseBool s =
     (if s \<in> set [''1'', ''t'', ''T'', ''TRUE'', ''true'', ''True''] then Inr True
      else if s \<in> set [''0'', ''f'', ''F'', ''FALSE'', ''false'', ''False''] then Inr False
      else Inl (NumError ''ParseBool'' s ErrSyntax))"

section \<open>Printed numbers parse back\<close>

lemma digit_char_simps [simp]:
  "digit_char 0 = CHR ''0''" "digit_char (Suc 0) = CHR ''1''" "digit_char 2 = CHR ''2''" "digit_char 3 = CHR ''3''"
  "digit_char 4 = CHR ''4''" "digit_char 5 = CHR ''5''" "digit_char 6 = CHR ''6''" "digit_char 7 = CHR ''7''"
  "digit_char 8 = CHR ''8''" "digit_char 9 = CHR ''9''"
  by (simp_all add: digit_char_def char_of_def bit_numeral_simps bit_iff_odd)

lemma digit_val_char [simp]: "d < 10 \<Longrightarrow> digit_val (digit_char d) = Some d"
  by (simp add: digit_val_def digit_char_def)

lemma digit_char_val: "digit_val c = Some d \<Longrightarrow> digit_char d = c \<and> d < 10"
  by (auto simp: digit_val_def digit_char_def Let_def split: if_splits)

lemma fmt_nat_not_Nil [simp]: "fmt_nat n \<noteq> []"
  by (subst fmt_nat.simps) simp

lemma fmt_nat_digits: "c \<in> set (fmt_nat n) \<Longrightarrow> digit_val c \<noteq> None"
proof (induction n rule: fmt_nat.induct)
  case (1 n)
  then show ?case
    by (cases "n < 10") (auto simp: fmt_nat.simps [of n])
qed

lemma digit_val_None: "digit_val CHR ''-'' = None" "digit_val CHR ''+'' = None"
  "digit_val CHR ''.'' = None"
  by (simp_all add: digit_val_def)

lemma fmt_nat_notin: "digit_val c = None \<Longrightarrow> c \<notin> set (fmt_nat n)"
  using fmt_nat_digits [of c n] by blast

lemma parse_digits_append:
  "parse_digits mx n (xs @ ys) =
     (case parse_digits mx n xs of Inl e \<Rightarrow> Inl e | Inr n' \<Rightarrow> parse_digits mx n' ys)"
  by (induction mx n xs rule: parse_digits.induct) (auto simp: Let_def split: option.splits)

lemma parse_digits_fmt_nat:
  "parse_digits mx 0 (fmt_nat n) = (if n \<le> mx then Inr n else Inl ErrRange)"
proof (induction n rule: fmt_nat.induct)
  case (1 n)
  show ?case
  proof (cases "n < 10")
    case True
    then show ?thesis by (simp add: fmt_nat.simps [of n])
  next
    case False
    have "10 * (n div 10) + n mod 10 = n" by simp
    moreover have "n \<le> mx \<Longrightarrow> n div 10 \<le> mx" by linarith
    ultimately show ?thesis
      using False 1 by (auto simp: fmt_nat.simps [of n] parse_digits_append Let_def)
  qed
qed

lemma parse_unsigned_fmt_nat:
  "parse_unsigned bits (fmt_nat n) = (if n < 2 ^ bits then Inr n else Inl ErrRange)"
proof -
  have "n \<le> 2 ^ bits - 1 \<longleftrightarrow> n < 2 ^ bits"
    by (metis Suc_pred' less_Suc_eq_le zero_less_numeral zero_less_power)
  then show ?thesis by (simp add: parse_unsigned_def parse_digits_fmt_nat)
qed

lemma parse_unsigned_minus: "parse_unsigned bits (CHR ''-'' # s) = Inl ErrSyntax"
  by (simp add: parse_unsigned_def digit_val_None)

lemma split_sign_fmt_nat [simp]: "split_sign (fmt_nat n) = (False, fmt_nat n)"
proof (cases "fmt_nat n")
  case (Cons c cs)
  then have "digit_val c \<noteq> None" using fmt_nat_digits [of c n] by simp
  then show ?thesis using Cons by (auto simp: split_sign_def digit_val_None)
qed simp

lemma parse_signed_fmt_nat:
  assumes "0 < bits"
  shows "parse_signed bits (fmt_nat n) = (if n < 2 ^ (bits - 1) then Inr (int n) else Inl ErrRange)"
proof -
  have le: "n < 2 ^ (bits - 1) \<Longrightarrow> n < 2 ^ bits"
    by (erule less_le_trans) (rule power_increasing, auto)
  show ?thesis
    by (cases "n < 2 ^ (bits - 1)") (use le in \<open>auto simp: parse_signed_def parse_unsigned_fmt_nat\<close>)
qed

lemma parse_signed_minus_fmt_nat:
  assumes "0 < bits"
  shows "parse_signed bits (CHR ''-'' # fmt_nat n) =
    (if n \<le> 2 ^ (bits - 1) then Inr (- int n) else Inl ErrRange)"
proof -
  have lt: "(2::nat) ^ (bits - 1) < 2 ^ bits"
    using assms by (intro power_strict_increasing) auto
  have le: "n \<le> 2 ^ (bits - 1) \<Longrightarrow> n < 2 ^ bits"
    by (erule le_less_trans) (rule lt)
  show ?thesis
    by (cases "n \<le> 2 ^ (bits - 1)")
       (use le in \<open>auto simp: parse_signed_def split_sign_def parse_unsigned_fmt_nat\<close>)
qed

definition fits_signed :: "nat \<Rightarrow> int \<Rightarrow> bool" where
  "fits_signed bits v \<longleftrightarrow> - (2 ^ (bits - 1)) \<le> v \<and> v < 2 ^ (bits - 1)"

definition fits_unsigned :: "nat \<Rightarrow> int \<Rightarrow> bool" where
  "fits_unsigned bits v \<longleftrightarrow> 0 \<le> v \<and> v < 2 ^ bits"

lemma parse_signed_FormatInt:
  assumes "0 < bits"
  shows "parse_signed bits (FormatInt v) =
    (if fits_signed bits (sint v) then Inr (sint v) else Inl ErrRange)"
proof (cases "sint v < 0")
  case True
  then have "nat (- sint v) \<le> 2 ^ (bits - 1) \<longleftrightarrow> - sint v \<le> 2 ^ (bits - 1)"
    by (simp add: nat_le_iff)
  moreover have "sint v < 2 ^ (bits - 1)" using True by (rule less_le_trans) simp
  ultimately show ?thesis
    using True assms by (auto simp: FormatInt_def parse_signed_minus_fmt_nat fits_signed_def)
next
  case False
  then have "nat (sint v) < 2 ^ (bits - 1) \<longleftrightarrow> sint v < 2 ^ (bits - 1)"
    by (simp add: nat_less_iff)
  moreover have "- (2 ^ (bits - 1)) \<le> sint v"
    using False by (meson neg_le_0_iff_le not_le order_trans zero_le_numeral zero_le_power)
  ultimately show ?thesis
    using False assms by (auto simp: FormatInt_def parse_signed_fmt_nat fits_signed_def)
qed

lemma parse_unsigned_FormatInt:
  "parse_unsigned bits (FormatInt v) =
    (if sint v < 0 then Inl ErrSyntax
     else if fits_unsigned bits (sint v) then Inr (nat (sint v)) else Inl ErrRange)"
  by (auto simp: FormatInt_def parse_unsigned_minus parse_unsigned_fmt_nat fits_unsigned_def nat_less_iff)

lemma fits_signed_64 [simp]: "fits_signed 64 (sint (v :: i64))"
  using sint_range_size [of v] by (simp add: fits_signed_def word_size)

lemma word_of_sint: "word_of_int (sint v) = (v :: i64)"
  by simp

lemma ParseInt_FormatInt:
  "0 < bits \<Longrightarrow> ParseInt (FormatInt v) bits =
    (if fits_signed bits (sint v) then Inr v else Inl (NumError ''ParseInt'' (FormatInt v) ErrRange))"
  by (simp add: ParseInt_def num_result_def parse_signed_FormatInt)

lemma Atoi_FormatInt [simp]: "Atoi (FormatInt v) = Inr v"
  by (simp add: Atoi_def num_result_def parse_signed_FormatInt)

lemma ParseUint_FormatUint:
  "ParseUint (FormatUint v) bits =
    (if unat v < 2 ^ bits then Inr v else Inl (NumError ''ParseUint'' (FormatUint v) ErrRange))"
  by (simp add: ParseUint_def FormatUint_def num_result_def parse_unsigned_fmt_nat)

lemma ParseUint_FormatInt:
  "ParseUint (FormatInt v) bits =
    (if sint v < 0 then Inl (NumError ''ParseUint'' (FormatInt v) ErrSyntax)
     else if fits_unsigned bits (sint v) then Inr v
     else Inl (NumError ''ParseUint'' (FormatInt v) ErrRange))"
  by (simp add: ParseUint_def num_result_def parse_unsigned_FormatInt)

lemma parse_signed_FormatUint:
  "0 < bits \<Longrightarrow> parse_signed bits (FormatUint v) =
    (if unat v < 2 ^ (bits - 1) then Inr (int (unat v)) else Inl ErrRange)"
  by (simp add: FormatUint_def parse_signed_fmt_nat)

lemma ParseInt_FormatUint:
  "0 < bits \<Longrightarrow> ParseInt (FormatUint v) bits =
    (if unat v < 2 ^ (bits - 1) then Inr v else Inl (NumError ''ParseInt'' (FormatUint v) ErrRange))"
  by (simp add: ParseInt_def num_result_def parse_signed_FormatUint)

lemma Atoi_FormatUint:
  "Atoi (FormatUint v) =
    (if unat v < 2 ^ 63 then Inr v else Inl (NumError ''Atoi'' (FormatUint v) ErrRange))"
  by (simp add: Atoi_def num_result_def parse_signed_FormatUint)

text \<open>Whatever a parse accepts lies in the range of the bit size.\<close>

lemma parse_digits_bound: "parse_digits mx n s = Inr m \<Longrightarrow> n \<le> mx \<Longrightarrow> m \<le> mx"
  by (induction mx n s rule: parse_digits.induct) (auto simp: Let_def split: option.splits if_splits)

lemma parse_unsigned_bound:
  assumes "parse_unsigned bits s = Inr n"
  shows "n < 2 ^ bits"
proof -
  have "n \<le> 2 ^ bits - 1"
    using assms by (auto simp: parse_unsigned_def split: if_splits dest: parse_digits_bound)
  then show ?thesis by (metis Suc_pred' less_Suc_eq_le zero_less_numeral zero_less_power)
qed

lemma parse_signed_bound:
  assumes "parse_signed bits s = Inr v"
  shows "fits_signed bits v"
proof -
  obtain neg u where u: "split_sign s = (neg, u)" by (cases "split_sign s")
  with assms obtain un where un: "parse_unsigned bits u = Inr un"
    by (auto simp: parse_signed_def split: if_splits sum.splits)
  have v: "v = (if neg then - int un else int un)"
    "\<not> neg \<Longrightarrow> un < 2 ^ (bits - 1)" "neg \<Longrightarrow> un \<le> 2 ^ (bits - 1)"
    using assms u un by (auto simp: parse_signed_def split: if_splits)
  define p :: int where "p = 2 ^ (bits - 1)"
  have "neg \<Longrightarrow> int un \<le> p" "\<not> neg \<Longrightarrow> int un < p"
    using v(2,3) unfolding p_def
    by (metis of_nat_le_iff of_nat_numeral of_nat_power,
        metis of_nat_less_iff of_nat_numeral of_nat_power)
  moreover have "0 < p" by (simp add: p_def)
  ultimately have "- p \<le> v \<and> v < p"
    unfolding v(1) by auto
  then show ?thesis by (simp add: fits_signed_def p_def)
qed

section \<open>The contract of a printer and its parser\<close>

locale decimal_codec =
  fixes fmt :: "'v \<Rightarrow> string" and parse :: "string \<Rightarrow> gerror + 'v"
  assumes parse_fmt: "parse (fmt v) = Inr v"
begin

lemma fmt_inj: "fmt v = fmt w \<Longrightarrow> v = w"
  by (metis parse_fmt sum.inject(2))

lemma parse_fmt_iff: "parse (fmt v) = Inr w \<longleftrightarrow> v = w"
  by (simp add: parse_fmt)

end

interpretation int64_codec: decimal_codec FormatInt "\<lambda>s. ParseInt s 64"
  by unfold_locales (simp add: ParseInt_FormatInt)

interpretation int_codec: decimal_codec FormatInt Atoi
  by unfold_locales simp

interpretation uint64_codec: decimal_codec FormatUint "\<lambda>s. ParseUint s 64"
proof
  fix v :: i64
  have "unat v < 2 ^ LENGTH(64)" by (rule unsigned_less)
  then show "ParseUint (FormatUint v) 64 = Inr v" by (simp add: ParseUint_FormatUint)
qed

end
