(* ===== verification/GoValue.thy ===== *)
theory GoValue
  imports Strconv Complex_Main
begin

text \<open>
  The dynamic values (\<open>interface{}\<close>) that the operator inspects with \<open>reflect\<close>, and the
  conversion of a \<open>float64\<close> to an \<open>int64\<close>.
\<close>

section \<open>Dynamic values\<close>

text \<open>
  \<open>GInt\<close> stands for every signed integer kind that \<open>duckType\<close> handles and carries \<open>v.Int()\<close>;
  \<open>GUint\<close> carries \<open>v.Uint()\<close>, \<open>GFloat\<close> the bits of \<open>v.Float()\<close>. \<open>GTypedNil\<close> is a nil pointer,
  map, channel or slice inside an interface; \<open>GForeign\<close> is any value of a type the code does not
  expect (a \<open>[]string\<close>, a struct, an \<open>int16\<close>, ...), known by its reflect kind only.
\<close>

datatype rkind = RSlice | RMap | RPtr | RChan | RArray | ROtherKind

datatype gval =
    GNil
  | GBool bool
  | GInt i64
  | GUint i64
  | GFloat i64
  | GStr string
  | GBytes "8 word list"
  | GSlice "gval list"
  | GMap "(string \<times> gval) list"
  | GTypedNil rkind
  | GForeign rkind

text \<open>The bytes of a Go string: a \<open>char\<close> of the model is a byte.\<close>

definition bytes_of_string :: "string \<Rightarrow> 8 word list" where
  "bytes_of_string s = map of_char s"

definition string_of_bytes :: "8 word list \<Rightarrow> string" where
  "string_of_bytes bs = map (\<lambda>b. char_of (unat b)) bs"

lemma string_of_bytes_of_string [simp]: "string_of_bytes (bytes_of_string s) = s"
proof -
  have "char_of (unat (of_char c :: 8 word)) = c" for c
  proof -
    have "(of_char c :: nat) < 256" by simp
    then have "unat (of_nat (of_char c) :: 8 word) = of_char c"
      by (simp add: unat_of_nat)
    then have "unat (of_char c :: 8 word) = (of_char c :: nat)"
      by (simp add: of_nat_of_char)
    then show ?thesis by simp
  qed
  then show ?thesis by (simp add: string_of_bytes_def bytes_of_string_def comp_def)
qed

section \<open>float64\<close>

text \<open>The fields of an IEEE 754 double given by its bits.\<close>

definition f64_neg :: "i64 \<Rightarrow> bool" where
  "f64_neg f \<longleftrightarrow> bit f 63"

definition f64_exp :: "i64 \<Rightarrow> nat" where
  "f64_exp f = unat (drop_bit 52 f) mod 2048"

definition f64_mant :: "i64 \<Rightarrow> nat" where
  "f64_mant f = unat (take_bit 52 f) + (if f64_exp f = 0 then 0 else 2 ^ 52)"

text \<open>\<open>f64_mag f\<close> is the integer part of the absolute value of a finite double.\<close>

definition f64_mag :: "i64 \<Rightarrow> nat" where
  "f64_mag f = (let e = max 1 (f64_exp f) in
     if 1075 \<le> e then f64_mant f * 2 ^ (e - 1075) else f64_mant f div 2 ^ (1075 - e))"

text \<open>
  \<open>int64(f)\<close> drops the fraction. Go leaves the result open when the value does not fit; the
  model gives the minimum of \<open>int64\<close> there, as amd64 does.
\<close>

definition f64_to_int64 :: "i64 \<Rightarrow> i64" where
  "f64_to_int64 f =
     (let v = (if f64_neg f then - int (f64_mag f) else int (f64_mag f)) in
      if f64_exp f = 2047 \<or> \<not> fits_signed 64 v then word_of_int (- (2 ^ 63)) else word_of_int v)"

text \<open>The real number that a finite double denotes.\<close>

definition f64_abs_real :: "i64 \<Rightarrow> real" where
  "f64_abs_real f = real (f64_mant f) * 2 powi (int (max 1 (f64_exp f)) - 1075)"

definition f64_real :: "i64 \<Rightarrow> real" where
  "f64_real f = (if f64_neg f then - f64_abs_real f else f64_abs_real f)"

lemma f64_mag_floor: "int (f64_mag f) = \<lfloor>f64_abs_real f\<rfloor>"
proof (cases "1075 \<le> max 1 (f64_exp f)")
  case True
  then have "int (max 1 (f64_exp f)) - 1075 = int (max 1 (f64_exp f) - 1075)" by simp
  then have "f64_abs_real f = real (f64_mant f * 2 ^ (max 1 (f64_exp f) - 1075))"
    unfolding f64_abs_real_def by (simp only: power_int_of_nat) simp
  then have "\<lfloor>f64_abs_real f\<rfloor> = int (f64_mant f * 2 ^ (max 1 (f64_exp f) - 1075))"
    by (simp only: floor_of_nat)
  then show ?thesis using True by (simp add: f64_mag_def Let_def)
next
  case False
  define k where "k = 1075 - max 1 (f64_exp f)"
  have k: "int (max 1 (f64_exp f)) - 1075 = - int k" using False by (simp add: k_def)
  have "f64_abs_real f = real (f64_mant f) * inverse (2 ^ k)"
    unfolding f64_abs_real_def k by (simp only: power_int_minus power_int_of_nat)
  then have "f64_abs_real f = real (f64_mant f) / real (2 ^ k)"
    by (simp add: divide_inverse)
  then have "\<lfloor>f64_abs_real f\<rfloor> = int (f64_mant f div 2 ^ k)"
    by (simp only: floor_divide_of_nat_eq)
  then show ?thesis using False by (simp add: f64_mag_def Let_def k_def)
qed

lemma sint_word_of_int_fits: "fits_signed 64 v \<Longrightarrow> sint (word_of_int v :: i64) = v"
  by (simp add: fits_signed_def signed_take_bit_int_eq_self sint_sbintrunc')

text \<open>The conversion truncates towards zero whenever the integer part fits.\<close>

lemma f64_to_int64_trunc:
  assumes "f64_exp f \<noteq> 2047" and "fits_signed 64 (if f64_neg f then - \<lfloor>f64_abs_real f\<rfloor> else \<lfloor>f64_abs_real f\<rfloor>)"
  shows "sint (f64_to_int64 f) = (if f64_neg f then \<lceil>f64_real f\<rceil> else \<lfloor>f64_real f\<rfloor>)"
proof -
  define v where "v = (if f64_neg f then - \<lfloor>f64_abs_real f\<rfloor> else \<lfloor>f64_abs_real f\<rfloor>)"
  have "f64_to_int64 f = word_of_int v"
    using assms unfolding f64_to_int64_def f64_mag_floor Let_def v_def by simp
  moreover have "fits_signed 64 v" using assms(2) by (simp only: v_def)
  ultimately have "sint (f64_to_int64 f) = v" by (simp only: sint_word_of_int_fits)
  then show ?thesis by (simp add: v_def f64_real_def ceiling_minus)
qed

lemma f64_to_int64_2_5: "f64_to_int64 0x4004000000000000 = 2"
  by (simp add: f64_to_int64_def f64_neg_def f64_exp_def f64_mant_def f64_mag_def fits_signed_def)

end
