(* ===== verification/Schema.thy ===== *)
theory Schema
  imports GoValue
begin

text \<open>
  OpenAPI schemas and the search for the type of a field: \<open>findTypeForKey\<close>,
  \<open>FindTypeForKeyFromSchema\<close>, \<open>resolvePointer\<close> and \<open>getDefinitionName\<close> of
  \<open>k8s/schema_manager.go\<close>. The search takes a dotted key (\<open>spec.ports.0.port\<close>) apart as it goes;
  \<open>walk\<close> is the same search on a list of path segments, and \<open>findTypeForKey_walk\<close> shows that the
  two agree on keys whose segments hold no dot.
\<close>

section \<open>Schemas\<close>

text \<open>
  The fields of \<open>spec.Schema\<close> that the code reads. \<open>sRef\<close> holds the decoded tokens of the
  \<open>$ref\<close> pointer, [] if there is none. \<open>sAddl\<close> is the pointer \<open>AdditionalProperties\<close> with its
  fields \<open>Allows\<close> and \<open>Schema\<close>, \<open>sItems\<close> the pointer \<open>Items\<close> with its fields \<open>Schema\<close> and
  \<open>Schemas\<close>; a nil pointer is None.
\<close>

datatype schema = Schema
  (sType: "string list")
  (sFormat: string)
  (sRef: "string list")
  (sProps: "(string \<times> schema) list")
  (sAddl: "(bool \<times> schema option) option")
  (sItems: "(schema option \<times> schema list) option")
  (sAnyOf: "schema list")

record typed_field =
  Types :: "string list"
  Format :: string

record gvk =
  Group :: string
  Version :: string
  Kind :: string

fun contains :: "string list \<Rightarrow> string \<Rightarrow> bool" where
  "contains [] v \<longleftrightarrow> False"
| "contains (k # ks) v \<longleftrightarrow> (if k = v then True else contains ks v)"

lemma contains_iff [simp]: "contains ks v \<longleftrightarrow> v \<in> set ks"
  by (induction ks) auto

definition nil_deref :: failure where
  "nil_deref = Panic ''invalid memory address or nil pointer dereference''"

section \<open>Pointers\<close>

definition resolvePointer :: "schema gmap \<Rightarrow> string list \<Rightarrow> schema result" where
  "resolvePointer defs tokens =
     (case tokens of
        [t0, t1] \<Rightarrow>
          if t0 \<noteq> ''definitions'' then Inl (Fail (Error (''resolving pointer '' @ str_join '' '' tokens @ '' not supported'')))
          else (case map_of defs t1 of
                  None \<Rightarrow> Inl (Fail (Error (''definition '' @ t1 @ '' not found'')))
                | Some d \<Rightarrow> Inr d)
      | _ \<Rightarrow> Inl (Fail (Error (''could not resolve pointer: '' @ str_join '' '' tokens))))"

text \<open>\<open>if pointer != nil && len(pointer.DecodedTokens()) > 0 { ... }\<close>: the schema itself, or the
  definition its reference names.\<close>

definition follow :: "schema gmap \<Rightarrow> schema \<Rightarrow> schema result" where
  "follow defs s =
     (if sRef s = [] then Inr s
      else wrapR (''failed to resolve pointer /'' @ str_join ''/'' (sRef s)) (resolvePointer defs (sRef s)))"

section \<open>The type of a field\<close>

text \<open>The schema of property \<open>name\<close>; \<open>Inr None\<close> is the result \<open>nil, nil\<close> for an object that
  declares nothing about its other properties.\<close>

definition property_schema :: "schema \<Rightarrow> string \<Rightarrow> schema option result" where
  "property_schema s name =
     (case map_of (sProps s) name of
        Some f \<Rightarrow> Inr (Some f)
      | None \<Rightarrow>
          (case sAddl s of
             Some (_, Some a) \<Rightarrow>
               if contains (sType s) ''object'' then Inr (Some a)
               else Inl (Fail (Error (''failed to find property '' @ name)))
           | _ \<Rightarrow>
               if contains (sType s) ''object'' then Inr None
               else Inl (Fail (Error (''failed to find property '' @ name)))))"

text \<open>
  In the array case the code reads \<open>fieldSchema.Items.Schema.Ref\<close> before it tests \<open>Items\<close> and
  \<open>Items.Schema\<close> for nil, so an array without an item schema is a nil dereference there, and the
  error about an array index as last element is never reached. An item schema that is the end of
  the key is returned as it is, its reference unresolved.
\<close>

lemma split2_length_sym: "(h, Some t) = split2 d s \<Longrightarrow> length t < length s"
  by (rule split2_length [OF sym])

function findTypeForKey :: "schema gmap \<Rightarrow> schema \<Rightarrow> string \<Rightarrow> schema option result" where
  "findTypeForKey defs s key =
     (case split2 CHR ''.'' key of (fieldName, rest) \<Rightarrow>
       (case property_schema s fieldName of
          Inl e \<Rightarrow> Inl e
        | Inr None \<Rightarrow> Inr None
        | Inr (Some fieldSchema) \<Rightarrow>
            (case rest of
               None \<Rightarrow> bindR (follow defs fieldSchema) (\<lambda>f. Inr (Some f))
             | Some nextKey \<Rightarrow>
                 if contains (sType fieldSchema) ''array'' then
                   (case sItems fieldSchema of
                      Some (Some item, _) \<Rightarrow>
                        (case split2 CHR ''.'' nextKey of
                           (_, None) \<Rightarrow> Inr (Some item)
                         | (_, Some nextKey') \<Rightarrow>
                             (case follow defs item of
                                Inl e \<Rightarrow> Inl e
                              | Inr f \<Rightarrow> findTypeForKey defs f nextKey'))
                    | _ \<Rightarrow> Inl nil_deref)
                 else
                   (case follow defs fieldSchema of
                      Inl e \<Rightarrow> Inl e
                    | Inr f \<Rightarrow> findTypeForKey defs f nextKey))))"
  by pat_completeness auto
termination
  by (relation "measure (\<lambda>(defs, s, key). length key)")
     (auto dest!: split2_length_sym intro: less_trans)

declare findTypeForKey.simps [simp del]

fun first_format :: "schema list \<Rightarrow> string" where
  "first_format [] = ''''"
| "first_format (s # ss) = (if sFormat s \<noteq> '''' then sFormat s else first_format ss)"

text \<open>The types and the format of a field: its own, or collected from \<open>anyOf\<close> if it has none.\<close>

definition typed_field_of :: "schema \<Rightarrow> typed_field" where
  "typed_field_of f =
     (if sType f = [] \<and> sFormat f = '''' then
        \<lparr>Types = concat (map sType (sAnyOf f)), Format = first_format (sAnyOf f)\<rparr>
      else \<lparr>Types = sType f, Format = sFormat f\<rparr>)"

definition FindTypeForKeyFromSchema :: "schema gmap \<Rightarrow> schema \<Rightarrow> string \<Rightarrow> typed_field option result" where
  "FindTypeForKeyFromSchema defs s key =
     bindR (wrapR (''failed to find type for key '' @ key) (findTypeForKey defs s key)) (\<lambda>fs.
       (case fs of None \<Rightarrow> Inr None | Some f \<Rightarrow> Inr (Some (typed_field_of f))))"

definition getDefinitionName :: "gvk \<Rightarrow> string" where
  "getDefinitionName g =
     (let group = (if Group g = '''' then ''core''
                   else if Group g = ''rbac.authorization.k8s.io'' then ''rbac''
                   else if Group g = ''networking.k8s.io'' then ''networking''
                   else Group g)
      in ''io.k8s.api.'' @ group @ ''.'' @ Version g @ ''.'' @ Kind g)"

section \<open>The search on path segments\<close>

fun walk :: "schema gmap \<Rightarrow> schema \<Rightarrow> string list \<Rightarrow> schema option result" where
  "walk defs s [] = Inr (Some s)"
| "walk defs s (name # path) =
     (case property_schema s name of
        Inl e \<Rightarrow> Inl e
      | Inr None \<Rightarrow> Inr None
      | Inr (Some f) \<Rightarrow>
          (case path of
             [] \<Rightarrow> bindR (follow defs f) (\<lambda>f'. Inr (Some f'))
           | index # path' \<Rightarrow>
               if contains (sType f) ''array'' then
                 (case sItems f of
                    Some (Some item, _) \<Rightarrow>
                      if path' = [] then Inr (Some item)
                      else bindR (follow defs item) (\<lambda>f'. walk defs f' path')
                  | _ \<Rightarrow> Inl nil_deref)
               else bindR (follow defs f) (\<lambda>f'. walk defs f' path)))"

declare walk.simps(2) [simp del]

definition dot_free :: "string \<Rightarrow> bool" where
  "dot_free s \<longleftrightarrow> CHR ''.'' \<notin> set s"

definition key_of :: "string list \<Rightarrow> string" where
  "key_of path = str_join ''.'' path"

lemma key_of_simps [simp]:
  "key_of [] = []" "key_of [s] = s" "key_of (s # t # ts) = s @ CHR ''.'' # key_of (t # ts)"
  by (simp_all add: key_of_def)

lemma key_of_Cons: "ts \<noteq> [] \<Longrightarrow> key_of (s # ts) = s @ CHR ''.'' # key_of ts"
  by (cases ts) simp_all

lemma key_of_snoc: "path \<noteq> [] \<Longrightarrow> key_of (path @ [s]) = key_of path @ CHR ''.'' # s"
  by (induction path rule: induct_list012) (simp_all add: key_of_Cons)

lemma split2_key_of:
  "dot_free s \<Longrightarrow> split2 CHR ''.'' (key_of (s # ts)) = (s, if ts = [] then None else Some (key_of ts))"
  by (cases ts) (simp_all add: dot_free_def split2_None split2_Some)

lemma findTypeForKey_walk:
  assumes "path \<noteq> []" and "\<forall>s \<in> set path. dot_free s"
  shows "findTypeForKey defs s (key_of path) = walk defs s path"
  using assms
proof (induction path arbitrary: s rule: length_induct)
  case (1 path)
  from "1.prems"(1) obtain name rest where path: "path = name # rest"
    by (cases path) auto
  have name: "dot_free name" and rest: "\<forall>s \<in> set rest. dot_free s"
    using "1.prems"(2) path by auto
  have IH: "findTypeForKey defs f (key_of p) = walk defs f p"
    if "p \<noteq> []" "length p < length path" "set p \<subseteq> set path" for f p
    using "1.IH" "1.prems"(2) that by blast
  show ?case
  proof (cases rest)
    case Nil
    moreover have "split2 CHR ''.'' name = (name, None)"
      using name by (simp add: dot_free_def split2_None)
    ultimately show ?thesis
      unfolding path by (subst findTypeForKey.simps) (simp add: walk.simps split: sum.split option.split)
  next
    case (Cons index path')
    then have index: "dot_free index" using rest by simp
    have a: "path' \<noteq> [] \<Longrightarrow> findTypeForKey defs f (key_of path') = walk defs f path'" for f
      by (rule IH) (use path Cons in auto)
    have b: "findTypeForKey defs f (key_of rest) = walk defs f rest" for f
      by (rule IH) (use path Cons in auto)
    have k: "split2 CHR ''.'' (key_of path) = (name, Some (key_of rest))"
      "split2 CHR ''.'' (key_of rest) = (index, if path' = [] then None else Some (key_of path'))"
      using name index path Cons split2_key_of [of name rest] split2_key_of [of index path'] by auto
    have w: "walk defs s path =
      (case property_schema s name of
          Inl e \<Rightarrow> Inl e
        | Inr None \<Rightarrow> Inr None
        | Inr (Some f) \<Rightarrow>
            if contains (sType f) ''array'' then
              (case sItems f of
                 Some (Some item, _) \<Rightarrow>
                   if path' = [] then Inr (Some item)
                   else bindR (follow defs item) (\<lambda>f'. walk defs f' path')
               | _ \<Rightarrow> Inl nil_deref)
            else bindR (follow defs f) (\<lambda>f'. walk defs f' rest))"
      unfolding path Cons by (subst walk.simps(2)) (simp split: sum.split option.split)
    show ?thesis
      unfolding w by (subst findTypeForKey.simps)
        (cases "path' = []"; simp add: k a b bindR_def split: sum.split option.split prod.split)
  qed
qed

section \<open>Properties of the search\<close>

text \<open>
  C18. The search by a dotted key is the search by path segments: for a path of dot-free segments,
  taking the joined key apart dot by dot finds exactly what following the segments one by one
  through properties, additional properties, array items and references finds, with the same
  errors.
\<close>

theorem FindTypeForKey_by_path:
  assumes "path \<noteq> []" and "\<forall>s \<in> set path. dot_free s"
  shows "FindTypeForKeyFromSchema defs s (key_of path) =
    (case walk defs s path of
       Inl e \<Rightarrow> Inl (wrap_failure (''failed to find type for key '' @ key_of path) e)
     | Inr fs \<Rightarrow> Inr (map_option typed_field_of fs))"
  using assms
  by (simp add: FindTypeForKeyFromSchema_def findTypeForKey_walk split: sum.split option.split)

theorem FindTypeForKey_by_path_witness:
  "FindTypeForKeyFromSchema [] (Schema [''object''] '''' [] [] (Some (True, Some (Schema [''string''] ''byte'' [] [] None None []))) None [])
     (key_of [''password'']) = Inr (Some \<lparr>Types = [''string''], Format = ''byte''\<rparr>)"
  by (subst FindTypeForKey_by_path)
     (simp_all add: dot_free_def walk.simps property_schema_def follow_def typed_field_of_def)

text \<open>
  An array property without an item schema makes the search crash: the code dereferences
  \<open>Items.Schema\<close> before it tests it, so every key that goes through such a property is a panic,
  and the error message written for this case never appears.
\<close>

theorem findTypeForKey_array_without_items:
  assumes "property_schema s name = Inr (Some f)" and "dot_free name"
    and "contains (sType f) ''array''"
    and "sItems f = None \<or> (\<exists>ss. sItems f = Some (None, ss))"
  shows "findTypeForKey defs s (name @ CHR ''.'' # rest) = Inl nil_deref"
  using assms
  by (subst findTypeForKey.simps) (auto simp: split2_Some dot_free_def)

theorem findTypeForKey_array_without_items_witness:
  "findTypeForKey [] (Schema [''object''] '''' [] [(''args'', Schema [''array''] '''' [] [] None None [])] None None [])
     ''args.0'' = Inl nil_deref"
  using findTypeForKey_array_without_items
    [of "Schema [''object''] '''' [] [(''args'', Schema [''array''] '''' [] [] None None [])] None None []"
        "''args''" "Schema [''array''] '''' [] [] None None []" "[]" "''0''"]
  by (simp add: property_schema_def dot_free_def)

end
