(* ===== verification/Transform.thy ===== *)
theory Transform
  imports Schema
begin

text \<open>
  The conversions of a scalar to the type that the schema asks for: \<open>transformStringToType\<close>,
  \<open>transformFloatToType\<close>, \<open>transformInt64ToType\<close>, \<open>transformUint64ToType\<close>,
  \<open>transformBytesToType\<close>, \<open>transformBoolToType\<close> and \<open>stringToIntDefault\<close> of
  \<open>k8s/schema_manager.go\<close>. \<open>fits_format\<close> and \<open>fits_types\<close> say what a value of a type is, and the
  lemmas say which results are such values and on which inputs the conversions fail.
\<close>

text \<open>
  The decoders of the Go library that the conversions call and the model takes as they are:
  \<open>strconv.ParseFloat(s, 64)\<close>, \<open>strconv.FormatFloat(f, 'f', 6, 64)\<close> and \<open>json.Unmarshal\<close> into a
  \<open>map[string]interface{}\<close>.
\<close>

record codec =
  ParseFloat :: "string \<Rightarrow> gerror + i64"
  FormatFloat :: "i64 \<Rightarrow> string"
  UnmarshalObject :: "string \<Rightarrow> gerror + gval"

definition stringToIntDefault :: "string \<Rightarrow> string" where
  "stringToIntDefault s = (if s = '''' then ''0'' else s)"

definition as_int :: "gerror + i64 \<Rightarrow> gerror + gval" where
  "as_int r = map_sum id GInt r"

definition as_uint :: "gerror + i64 \<Rightarrow> gerror + gval" where
  "as_uint r = map_sum id GUint r"

definition no_transform :: "string \<Rightarrow> typed_field \<Rightarrow> gerror + gval" where
  "no_transform what ft = Inl (Error (''could not transform '' @ what @ '' value to types ['' @
     str_join '' '' (Types ft) @ ''] format '' @ Format ft))"

definition transformStringToType :: "codec \<Rightarrow> string \<Rightarrow> typed_field option \<Rightarrow> gerror + gval" where
  "transformStringToType C value fieldType =
     (case fieldType of
        None \<Rightarrow> Inr (GStr value)
      | Some ft \<Rightarrow>
          if value = ''<no value>'' then Inr GNil
          else if Format ft = ''int8'' then as_int (ParseInt (stringToIntDefault value) 8)
          else if Format ft = ''int32'' then as_int (Atoi (stringToIntDefault value))
          else if Format ft = ''int64'' then as_int (ParseInt (stringToIntDefault value) 64)
          else if Format ft = ''uint8'' then as_uint (ParseUint (stringToIntDefault value) 8)
          else if Format ft = ''uint32'' then as_uint (ParseUint (stringToIntDefault value) 32)
          else if Format ft = ''uint64'' then as_uint (ParseUint (stringToIntDefault value) 64)
          else if Format ft = ''double'' then map_sum id GFloat (ParseFloat C (stringToIntDefault value))
          else if Format ft = ''byte'' then Inr (GBytes (bytes_of_string value))
          else if contains (Types ft) ''string'' then Inr (GStr value)
          else if contains (Types ft) ''integer'' then as_int (Atoi (stringToIntDefault value))
          else if contains (Types ft) ''boolean'' then map_sum id GBool (ParseBool value)
          else if contains (Types ft) ''object'' then
            (case UnmarshalObject C value of
               Inl e \<Rightarrow> Inl (Wrap (''failed to transform string value to object: '' @ err_text e) e)
             | Inr obj \<Rightarrow> Inr obj)
          else no_transform ''string'' ft)"

text \<open>\<open>transformFloatToType\<close> has no caller in the repository.\<close>

definition transformFloatToType :: "codec \<Rightarrow> i64 \<Rightarrow> typed_field option \<Rightarrow> gerror + gval" where
  "transformFloatToType C value fieldType =
     (case fieldType of
        None \<Rightarrow> Inr (GFloat value)
      | Some ft \<Rightarrow>
          let s = FormatInt (f64_to_int64 value) in
          if Format ft = ''int8'' then as_int (ParseInt s 8)
          else if Format ft = ''int32'' then as_int (ParseInt s 32)
          else if Format ft = ''int64'' then Inr (GFloat value)
          else if Format ft = ''uint8'' then as_uint (ParseUint s 8)
          else if Format ft = ''uint32'' then as_uint (ParseUint s 32)
          else if Format ft = ''uint64'' then as_uint (ParseUint s 64)
          else if contains (Types ft) ''integer'' then as_int (Atoi s)
          else if contains (Types ft) ''string'' then Inr (GStr (FormatFloat C value))
          else if contains (Types ft) ''boolean'' then Inr (GBool (take_bit 63 value \<noteq> 0))
          else no_transform ''float64'' ft)"

definition transformInt64ToType :: "i64 \<Rightarrow> typed_field option \<Rightarrow> gerror + gval" where
  "transformInt64ToType value fieldType =
     (case fieldType of
        None \<Rightarrow> Inr (GInt value)
      | Some ft \<Rightarrow>
          if Format ft = ''int8'' then as_int (ParseInt (FormatInt value) 8)
          else if Format ft = ''int32'' then as_int (ParseInt (FormatInt value) 32)
          else if Format ft = ''int64'' then Inr (GInt value)
          else if Format ft = ''uint8'' then as_uint (ParseUint (FormatInt value) 8)
          else if Format ft = ''uint32'' then as_uint (ParseUint (FormatInt value) 32)
          else if Format ft = ''uint64'' then as_uint (ParseUint (FormatInt value) 64)
          else if Format ft = ''int-or-string'' then Inr (GInt value)
          else if contains (Types ft) ''integer'' then as_int (Atoi (FormatInt value))
          else if contains (Types ft) ''string'' then Inr (GStr (FormatInt value))
          else if contains (Types ft) ''boolean'' then Inr (GBool (value \<noteq> 0))
          else no_transform ''int64'' ft)"

definition transformUint64ToType :: "i64 \<Rightarrow> typed_field option \<Rightarrow> gerror + gval" where
  "transformUint64ToType value fieldType =
     (case fieldType of
        None \<Rightarrow> Inr (GUint value)
      | Some ft \<Rightarrow>
          if Format ft = ''int8'' then as_int (ParseInt (FormatUint value) 8)
          else if Format ft = ''int32'' then as_int (ParseInt (FormatUint value) 32)
          else if Format ft = ''int64'' then as_uint (ParseUint (FormatUint value) 64)
          else if Format ft = ''uint8'' then as_uint (ParseUint (FormatUint value) 8)
          else if Format ft = ''uint32'' then as_uint (ParseUint (FormatUint value) 32)
          else if Format ft = ''uint64'' then Inr (GUint value)
          else if Format ft = ''int-or-string'' then Inr (GUint value)
          else if contains (Types ft) ''integer'' then as_int (Atoi (FormatUint value))
          else if contains (Types ft) ''string'' then Inr (GStr (FormatUint value))
          else if contains (Types ft) ''boolean'' then Inr (GBool (value \<noteq> 0))
          else no_transform ''uint64'' ft)"

definition transformBytesToType :: "8 word list \<Rightarrow> typed_field option \<Rightarrow> gerror + gval" where
  "transformBytesToType value fieldType =
     (case fieldType of
        None \<Rightarrow> Inr (GBytes value)
      | Some ft \<Rightarrow>
          if Format ft = ''byte'' then Inr (GBytes value)
          else if contains (Types ft) ''string'' then Inr (GStr (string_of_bytes value))
          else no_transform ''[]byte'' ft)"

definition transformBoolToType :: "bool \<Rightarrow> typed_field option \<Rightarrow> gerror + gval" where
  "transformBoolToType value fieldType =
     (case fieldType of
        None \<Rightarrow> Inr (GBool value)
      | Some ft \<Rightarrow>
          if contains (Types ft) ''boolean'' then Inr (GBool value)
          else if contains (Types ft) ''string'' then Inr (GStr (if value then ''true'' else ''false''))
          else no_transform ''bool'' ft)"

section \<open>What a value of a type is\<close>

text \<open>The integer formats: signedness and width.\<close>

definition int_format :: "string \<Rightarrow> (bool \<times> nat) option" where
  "int_format f =
     (if f = ''int8'' then Some (True, 8) else if f = ''int32'' then Some (True, 32)
      else if f = ''int64'' then Some (True, 64) else if f = ''uint8'' then Some (False, 8)
      else if f = ''uint32'' then Some (False, 32) else if f = ''uint64'' then Some (False, 64)
      else None)"

definition int_of_val :: "gval \<Rightarrow> int option" where
  "int_of_val r = (case r of GInt v \<Rightarrow> Some (sint v) | GUint v \<Rightarrow> Some (int (unat v)) | _ \<Rightarrow> None)"

definition fits_format :: "string \<Rightarrow> gval \<Rightarrow> bool" where
  "fits_format fmt r \<longleftrightarrow>
     (case int_format fmt of
        Some (sg, n) \<Rightarrow>
          (case int_of_val r of
             None \<Rightarrow> False
           | Some v \<Rightarrow> if sg then fits_signed n v else fits_unsigned n v)
      | None \<Rightarrow>
          if fmt = ''double'' then (case r of GFloat _ \<Rightarrow> True | _ \<Rightarrow> False)
          else if fmt = ''byte'' then (case r of GBytes _ \<Rightarrow> True | _ \<Rightarrow> False)
          else if fmt = ''int-or-string'' then int_of_val r \<noteq> None
          else False)"

definition fits_types :: "string list \<Rightarrow> gval \<Rightarrow> bool" where
  "fits_types ts r \<longleftrightarrow>
     (case r of
        GInt _ \<Rightarrow> ''integer'' \<in> set ts
      | GUint _ \<Rightarrow> ''integer'' \<in> set ts
      | GStr _ \<Rightarrow> ''string'' \<in> set ts
      | GBool _ \<Rightarrow> ''boolean'' \<in> set ts
      | GMap _ \<Rightarrow> ''object'' \<in> set ts
      | GTypedNil RMap \<Rightarrow> ''object'' \<in> set ts
      | _ \<Rightarrow> False)"

text \<open>An integer format binds whatever the declared types are; the other formats add to them.\<close>

definition conforms :: "typed_field \<Rightarrow> gval \<Rightarrow> bool" where
  "conforms ft r \<longleftrightarrow> fits_format (Format ft) r \<or>
     (int_format (Format ft) = None \<and> fits_types (Types ft) r)"

lemma as_int_simps [simp]:
  "as_int (Inl e) = Inl e" "as_int (Inr v) = Inr (GInt v)" "as_int x = Inr r \<longleftrightarrow> (\<exists>v. x = Inr v \<and> r = GInt v)"
  by (cases x; auto simp: as_int_def)+

lemma as_uint_simps [simp]:
  "as_uint (Inl e) = Inl e" "as_uint (Inr v) = Inr (GUint v)" "as_uint x = Inr r \<longleftrightarrow> (\<exists>v. x = Inr v \<and> r = GUint v)"
  by (cases x; auto simp: as_uint_def)+

lemma no_transform_not_Inr [simp]: "no_transform w ft \<noteq> Inr r"
  by (simp add: no_transform_def)

lemma map_sum_eq_Inr [simp]: "map_sum id f x = Inr r \<longleftrightarrow> (\<exists>v. x = Inr v \<and> r = f v)"
  by (cases x) auto

lemma int_of_val_simps [simp]:
  "int_of_val (GInt v) = Some (sint v)" "int_of_val (GUint v) = Some (int (unat v))"
  by (simp_all add: int_of_val_def)

lemma ParseInt_range:
  assumes "ParseInt s bits = Inr v" and "0 < bits" and "bits \<le> 64"
  shows "fits_signed bits (sint v)"
proof -
  obtain i where i: "parse_signed bits s = Inr i" and v: "v = word_of_int i"
    using assms(1) by (auto simp: ParseInt_def num_result_def split: sum.splits)
  have fits: "fits_signed bits i" using i by (rule parse_signed_bound)
  moreover have "fits_signed 64 i"
  proof -
    have "(2::int) ^ (bits - 1) \<le> 2 ^ 63" using assms(3) by (intro power_increasing) auto
    then show ?thesis using fits by (auto simp: fits_signed_def)
  qed
  ultimately show ?thesis by (simp add: v sint_word_of_int_fits)
qed

lemma ParseUint_range:
  assumes "ParseUint s bits = Inr v" and "bits \<le> 64"
  shows "fits_unsigned bits (int (unat v))"
proof -
  obtain n where n: "parse_unsigned bits s = Inr n" and v: "v = word_of_int (int n)"
    using assms(1) by (auto simp: ParseUint_def num_result_def split: sum.splits)
  have lt: "n < 2 ^ bits" using n by (rule parse_unsigned_bound)
  also have "(2::nat) ^ bits \<le> 2 ^ 64" using assms(2) by (intro power_increasing) auto
  finally have "unat v = n" by (simp add: v unat_of_nat)
  then show ?thesis using lt by (simp add: fits_unsigned_def)
qed

lemma fits_unsigned_64: "fits_unsigned 64 (int (unat (v :: i64)))"
proof -
  have "unat v < 2 ^ 64" using unsigned_less [of v, where ?'a = nat] by simp
  then have "int (unat v) < int (2 ^ 64)" by (simp only: of_nat_less_iff)
  then show ?thesis by (simp only: fits_unsigned_def of_nat_power of_nat_numeral) simp
qed

lemma int_format_simps [simp]:
  "int_format ''int8'' = Some (True, 8)" "int_format ''int32'' = Some (True, 32)"
  "int_format ''int64'' = Some (True, 64)" "int_format ''uint8'' = Some (False, 8)"
  "int_format ''uint32'' = Some (False, 32)" "int_format ''uint64'' = Some (False, 64)"
  "int_format ''double'' = None" "int_format ''byte'' = None"
  "int_format ''int-or-string'' = None"
  by (simp_all add: int_format_def)

lemma int_format_None:
  "int_format f = None \<longleftrightarrow>
     f \<noteq> ''int8'' \<and> f \<noteq> ''int32'' \<and> f \<noteq> ''int64'' \<and> f \<noteq> ''uint8'' \<and> f \<noteq> ''uint32'' \<and> f \<noteq> ''uint64''"
  by (auto simp: int_format_def)

lemma int_format_cases [consumes 1]:
  assumes "int_format f = Some (sg, n)"
  obtains "f = ''int8''" "sg" "n = 8" | "f = ''int32''" "sg" "n = 32" | "f = ''int64''" "sg" "n = 64"
    | "f = ''uint8''" "\<not> sg" "n = 8" | "f = ''uint32''" "\<not> sg" "n = 32" | "f = ''uint64''" "\<not> sg" "n = 64"
  using assms that unfolding int_format_def by (simp split: if_splits)

section \<open>Conversions of an int64\<close>

text \<open>
  C14. Converting an \<open>int64\<close> for a field with an integer format is exact range checking: the
  result is the same number, as an unsigned value for the unsigned formats, when it lies in the
  range of the format, and an error otherwise. This covers all six formats of the switch of
  \<open>transformInt64ToType\<close>, whose code prints the number and parses it back.
\<close>

theorem transformInt64ToType_range:
  assumes "int_format (Format ft) = Some (sg, n)"
  shows "transformInt64ToType v (Some ft) =
    (if sg then (if fits_signed n (sint v) then Inr (GInt v)
                 else Inl (NumError ''ParseInt'' (FormatInt v) ErrRange))
     else (if sint v < 0 then Inl (NumError ''ParseUint'' (FormatInt v) ErrSyntax)
           else if fits_unsigned n (sint v) then Inr (GUint v)
           else Inl (NumError ''ParseUint'' (FormatInt v) ErrRange)))"
  using assms
proof (cases rule: int_format_cases)
  case 3
  then show ?thesis by (simp add: transformInt64ToType_def)
next
  case 6
  then show ?thesis
    by (simp add: transformInt64ToType_def ParseUint_FormatInt)
qed (simp_all add: transformInt64ToType_def ParseInt_FormatInt ParseUint_FormatInt)

theorem transformInt64ToType_range_witness:
  "transformInt64ToType 200 (Some \<lparr>Types = [''integer''], Format = ''uint8''\<rparr>) = Inr (GUint 200)
   \<and> transformInt64ToType 200 (Some \<lparr>Types = [''integer''], Format = ''int8''\<rparr>) =
       Inl (NumError ''ParseInt'' (FormatInt 200) ErrRange)"
  using transformInt64ToType_range [of "\<lparr>Types = [''integer''], Format = ''uint8''\<rparr>" False 8 200]
    transformInt64ToType_range [of "\<lparr>Types = [''integer''], Format = ''int8''\<rparr>" True 8 200]
  by (simp add: fits_signed_def fits_unsigned_def)

lemma transformInt64_value:
  "transformInt64ToType v (Some ft) = Inr r \<Longrightarrow> conforms ft r"
  by (auto simp: transformInt64ToType_def conforms_def fits_format_def fits_types_def int_format_None
        dest: ParseInt_range ParseUint_range split: if_splits)

text \<open>
  Whatever \<open>transformInt64ToType\<close> returns for a typed field is a value of that field's type:
  within the width of an integer format, and otherwise of one of the declared types.
\<close>

theorem transformInt64ToType_conforms:
  assumes "transformInt64ToType v (Some ft) = Inr r"
  shows "conforms ft r"
  using assms by (rule transformInt64_value)

theorem transformInt64ToType_conforms_witness:
  "conforms \<lparr>Types = [''string''], Format = ''''\<rparr> (GStr ''8080'')"
  by (rule transformInt64ToType_conforms [where v = 8080])
     (simp add: transformInt64ToType_def FormatInt_def fmt_nat.simps)

lemma transformString_value:
  assumes "transformStringToType C s (Some ft) = Inr r"
    and "s \<noteq> ''<no value>''" and "Format ft \<noteq> ''int32''"
    and json: "\<And>t x. UnmarshalObject C t = Inr x \<Longrightarrow> (\<exists>m. x = GMap m) \<or> x = GTypedNil RMap"
  shows "conforms ft r"
proof -
  have j: "UnmarshalObject C s = Inr r \<Longrightarrow> ''object'' \<in> set (Types ft) \<Longrightarrow> fits_types (Types ft) r"
    using json [of s r] by (auto simp: fits_types_def)
  show ?thesis
    using assms(1-3)
    by (auto simp: transformStringToType_def conforms_def fits_format_def int_format_None
          dest: ParseInt_range ParseUint_range j split: if_splits sum.splits)
       (auto simp: fits_types_def)
qed

text \<open>
  C40. A string is converted to a value of the field's type or refused, with two exceptions that
  the statement names: the text \<open><no value>\<close> (what a template prints for a missing key) becomes
  nil for every typed field, and the format \<open>int32\<close> is not range checked. The decoder of JSON
  objects is assumed to return maps.
\<close>

theorem transformStringToType_conforms:
  assumes "transformStringToType C s (Some ft) = Inr r"
    and "s \<noteq> ''<no value>''" and "Format ft \<noteq> ''int32''"
    and json: "\<And>t x. UnmarshalObject C t = Inr x \<Longrightarrow> (\<exists>m. x = GMap m) \<or> x = GTypedNil RMap"
  shows "conforms ft r"
  using assms by (rule transformString_value)

text \<open>A codec for the examples: it refuses floats and objects.\<close>

definition null_codec :: codec where
  "null_codec = \<lparr>ParseFloat = (\<lambda>s. Inl (Error ''float'')), FormatFloat = (\<lambda>_. ''''),
     UnmarshalObject = (\<lambda>s. Inl (Error ''object''))\<rparr>"

theorem transformStringToType_conforms_witness:
  "conforms \<lparr>Types = [''boolean''], Format = ''''\<rparr> (GBool True)"
  by (rule transformStringToType_conforms [where C = null_codec and s = "''true''"])
     (simp_all add: transformStringToType_def null_codec_def ParseBool_def)

lemma printed_number:
  "FormatInt v \<noteq> ''<no value>''" "stringToIntDefault (FormatInt v) = FormatInt v"
  using int_codec.parse_fmt [of v]
  by (auto simp: Atoi_def num_result_def parse_signed_def split_sign_def parse_unsigned_def digit_val_def
      stringToIntDefault_def FormatInt_def)

text \<open>
  C39. For every integer format but \<open>int32\<close> a decimal string is converted exactly as the number that
  it prints: the same value, and the same error outside the range. For \<open>int32\<close> every number of 64
  bits passes as a string, while the number itself is refused outside 32 bits.
\<close>

theorem transformString_agrees_with_Int64:
  assumes "int_format (Format ft) = Some (sg, n)"
  shows "transformStringToType C (FormatInt v) (Some ft) =
      (if Format ft = ''int32'' then Inr (GInt v) else transformInt64ToType v (Some ft)) \<and>
    (Format ft = ''int32'' \<and> \<not> fits_signed 32 (sint v) \<longrightarrow>
      transformInt64ToType v (Some ft) = Inl (NumError ''ParseInt'' (FormatInt v) ErrRange))"
  using assms
proof (cases rule: int_format_cases)
  case 3
  then show ?thesis
    using printed_number [of v] int64_codec.parse_fmt [of v]
    by (simp add: transformStringToType_def transformInt64ToType_def)
qed (use printed_number [of v] in \<open>simp_all add: transformStringToType_def transformInt64ToType_def ParseInt_FormatInt\<close>)

theorem transformString_agrees_with_Int64_witness:
  "transformStringToType null_codec (FormatInt 70000) (Some \<lparr>Types = [''integer''], Format = ''uint32''\<rparr>) =
     transformInt64ToType 70000 (Some \<lparr>Types = [''integer''], Format = ''uint32''\<rparr>)"
  using transformString_agrees_with_Int64 [of "\<lparr>Types = [''integer''], Format = ''uint32''\<rparr>" False 32 null_codec 70000] by simp

text \<open>
  The exception: for format \<open>int32\<close> the string path accepts the text of every \<open>int64\<close>
  unchanged, although the integer path refuses every number outside 32 bits.
\<close>

theorem transformString_int32_unchecked:
  assumes "Format ft = ''int32''"
  shows "transformStringToType C (FormatInt v) (Some ft) = Inr (GInt v)
    \<and> (\<not> fits_signed 32 (sint v) \<longrightarrow>
      transformInt64ToType v (Some ft) = Inl (NumError ''ParseInt'' (FormatInt v) ErrRange))"
  using assms printed_number [of v]
  by (simp add: transformStringToType_def transformInt64ToType_def ParseInt_FormatInt)

theorem transformString_int32_unchecked_witness:
  "transformStringToType null_codec (FormatInt 3000000000) (Some \<lparr>Types = [''integer''], Format = ''int32''\<rparr>)
     = Inr (GInt 3000000000)
   \<and> transformInt64ToType 3000000000 (Some \<lparr>Types = [''integer''], Format = ''int32''\<rparr>)
     = Inl (NumError ''ParseInt'' (FormatInt 3000000000) ErrRange)"
  using transformString_int32_unchecked [of "\<lparr>Types = [''integer''], Format = ''int32''\<rparr>" null_codec 3000000000]
  by (simp add: fits_signed_def)

text \<open>
  An unsigned number is range checked as well, except that the format \<open>int64\<close> lets every
  \<open>uint64\<close> through: its result is not always a value of the format.
\<close>

theorem transformUint64ToType_range:
  assumes "int_format (Format ft) = Some (sg, n)"
  shows "transformUint64ToType v (Some ft) =
    (if sg \<and> n < 64 then (if fits_signed n (int (unat v)) then Inr (GInt v)
                 else Inl (NumError ''ParseInt'' (FormatUint v) ErrRange))
     else if fits_unsigned n (int (unat v)) then Inr (GUint v)
     else Inl (NumError ''ParseUint'' (FormatUint v) ErrRange))"
proof -
  have s: "fits_signed m (int (unat v)) \<longleftrightarrow> unat v < 2 ^ (m - 1)" for m
  proof -
    have "- (2 ^ (m - 1)) \<le> int (unat v)" by (rule order_trans [of _ 0]) simp_all
    moreover have "int (unat v) < 2 ^ (m - 1) \<longleftrightarrow> unat v < 2 ^ (m - 1)"
      by (metis of_nat_less_iff of_nat_numeral of_nat_power)
    ultimately show ?thesis by (simp add: fits_signed_def)
  qed
  have u: "fits_unsigned m (int (unat v)) \<longleftrightarrow> unat v < 2 ^ m" for m
    by (metis fits_unsigned_def of_nat_0_le_iff of_nat_less_iff of_nat_numeral of_nat_power)
  have v64: "unat v < 2 ^ 64" using fits_unsigned_64 [of v] by (simp only: u)
  have u64: "fits_unsigned 64 (uint v)" using fits_unsigned_64 [of v] by simp
  from assms show ?thesis
  proof (cases rule: int_format_cases)
    case 3
    then show ?thesis
      using v64 u64 by (simp add: transformUint64ToType_def ParseUint_FormatUint del: power_numeral)
  next
    case 6
    then show ?thesis
      using u64 by (simp add: transformUint64ToType_def)
  qed (simp_all only: transformUint64ToType_def option.case s u ParseInt_FormatUint ParseUint_FormatUint,
       simp_all)
qed

theorem transformUint64ToType_range_witness:
  "transformUint64ToType (2 ^ 63) (Some \<lparr>Types = [''integer''], Format = ''int64''\<rparr>) = Inr (GUint (2 ^ 63))
   \<and> \<not> conforms \<lparr>Types = [''integer''], Format = ''int64''\<rparr> (GUint (2 ^ 63))"
  using transformUint64ToType_range [of "\<lparr>Types = [''integer''], Format = ''int64''\<rparr>" True 64 "2 ^ 63"]
  by (simp add: fits_unsigned_def fits_signed_def conforms_def fits_format_def)

text \<open>
  What a bool or a byte string becomes for a string field is read back for a boolean or byte
  field: the conversions to strings lose nothing.
\<close>

theorem transform_string_roundtrip:
  assumes "Format st = ''''" and "contains (Types st) ''string''"
    and "Format bt = ''''" and "Types bt = [''boolean'']" and "Format dt = ''byte''"
    and "\<not> contains (Types st) ''boolean''" and "s \<noteq> ''<no value>''"
  shows "(\<exists>t. transformBoolToType b (Some st) = Inr (GStr t)
           \<and> transformStringToType C t (Some bt) = Inr (GBool b))
    \<and> (\<exists>d. transformStringToType C s (Some dt) = Inr (GBytes d)
           \<and> transformBytesToType d (Some st) = Inr (GStr s))"
  using assms
  by (simp_all add: transformBoolToType_def transformStringToType_def transformBytesToType_def ParseBool_def)

theorem transform_string_roundtrip_witness:
  "\<exists>d. transformStringToType null_codec ''s3cr3t'' (Some \<lparr>Types = [''string''], Format = ''byte''\<rparr>) = Inr (GBytes d)
     \<and> transformBytesToType d (Some \<lparr>Types = [''string''], Format = ''''\<rparr>) = Inr (GStr ''s3cr3t'')"
  using transform_string_roundtrip [of "\<lparr>Types = [''string''], Format = ''''\<rparr>"
      "\<lparr>Types = [''boolean''], Format = ''''\<rparr>" "\<lparr>Types = [''string''], Format = ''byte''\<rparr>" "''s3cr3t''" True null_codec]
  by simp

end
