(* ===== verification/DuckType.thy ===== *)
theory DuckType
  imports Transform
begin

text \<open>
  The recursive conversion \<open>duckType\<close> of \<open>k8s/schema_manager.go\<close>, with \<open>escapeDot\<close> and \<open>isNil\<close>:
  it walks through a value, builds the dotted key of each scalar and converts the scalar to the
  type that the schema gives for the key. The lemmas describe the result by paths: the value at
  a path of the result is the conversion of the value at the same path of the input, by the type
  that \<open>walk\<close> finds there.
\<close>

definition escapeDot :: "string \<Rightarrow> string" where
  "escapeDot s = replace_char CHR ''.'' CHR ''_'' s"

text \<open>\<open>isNil\<close> calls \<open>IsNil\<close> on pointers, maps, channels, slices and (by mistake) on arrays, where
  \<open>reflect\<close> panics.\<close>

fun isNil :: "gval \<Rightarrow> bool result" where
  "isNil GNil = Inr True"
| "isNil (GTypedNil k) = Inr (k \<in> {RPtr, RMap, RChan, RSlice})"
| "isNil (GForeign RArray) = Inl (Panic ''reflect: call of reflect.Value.IsNil on array Value'')"
| "isNil _ = Inr False"

definition show_field :: "typed_field option \<Rightarrow> string" where
  "show_field ft = (case ft of
      None \<Rightarrow> ''<nil>''
    | Some f \<Rightarrow> ''&{['' @ str_join '' '' (Types f) @ ''] '' @ Format f @ ''}'')"

text \<open>
  The branch of a scalar: find the type of the key; on an error of the search keep the value, else
  convert it and annotate the error of the conversion.
\<close>

definition duckLeaf ::
  "schema gmap \<Rightarrow> schema \<Rightarrow> string \<Rightarrow> string \<Rightarrow> gval \<Rightarrow> (typed_field option \<Rightarrow> gerror + gval) \<Rightarrow> gval result" where
  "duckLeaf defs sch what prefix keep conv =
     (case FindTypeForKeyFromSchema defs sch prefix of
        Inl (Panic p) \<Rightarrow> Inl (Panic p)
      | Inl (Fail e) \<Rightarrow> Inr keep
      | Inr fieldType \<Rightarrow>
          wrapR (''field: '' @ prefix @ '' failed to transform '' @ what @ '' to type '' @ show_field fieldType)
            (of_error (conv fieldType)))"

definition duckBytes :: "schema gmap \<Rightarrow> schema \<Rightarrow> string \<Rightarrow> 8 word list \<Rightarrow> gval result" where
  "duckBytes defs sch prefix bytes =
     (case FindTypeForKeyFromSchema defs sch prefix of
        Inl (Panic p) \<Rightarrow> Inl (Panic p)
      | Inl (Fail e) \<Rightarrow> Inr (GBytes bytes)
      | Inr fieldType \<Rightarrow> of_error (transformBytesToType bytes fieldType))"

fun duckType :: "codec \<Rightarrow> schema gmap \<Rightarrow> schema \<Rightarrow> gval \<Rightarrow> string \<Rightarrow> gval result"
  and duckSlice :: "codec \<Rightarrow> schema gmap \<Rightarrow> schema \<Rightarrow> nat \<Rightarrow> gval list \<Rightarrow> string \<Rightarrow> gval list result"
  and duckMap :: "codec \<Rightarrow> schema gmap \<Rightarrow> schema \<Rightarrow> gval gmap \<Rightarrow> string \<Rightarrow> gval gmap result"
where
  "duckType C defs sch GNil prefix = Inr GNil"
| "duckType C defs sch (GTypedNil k) prefix =
     (if isNil (GTypedNil k) = Inr True then Inr GNil
      else Inl (Fail (Error (''Value for field '' @ prefix @ '' could not be transformed''))))"
| "duckType C defs sch (GBytes bytes) prefix = duckBytes defs sch prefix bytes"
| "duckType C defs sch (GSlice array) prefix =
     (case duckSlice C defs sch 0 array prefix of Inl e \<Rightarrow> Inl e | Inr vs \<Rightarrow> Inr (GSlice vs))"
| "duckType C defs sch (GMap oldMap) prefix =
     (case duckMap C defs sch oldMap prefix of Inl e \<Rightarrow> Inl e | Inr m \<Rightarrow> Inr (GMap m))"
| "duckType C defs sch (GStr value) prefix =
     duckLeaf defs sch ''string'' prefix (GStr value) (transformStringToType C value)"
| "duckType C defs sch (GInt value) prefix =
     duckLeaf defs sch ''int'' prefix (GInt value) (transformInt64ToType value)"
| "duckType C defs sch (GUint value) prefix =
     duckLeaf defs sch ''uint'' prefix (GUint value) (transformUint64ToType value)"
| "duckType C defs sch (GFloat f) prefix =
     duckLeaf defs sch ''float'' prefix (GInt (f64_to_int64 f)) (transformInt64ToType (f64_to_int64 f))"
| "duckType C defs sch (GBool value) prefix =
     duckLeaf defs sch ''bool'' prefix (GBool value) (transformBoolToType value)"
| "duckType C defs sch (GForeign k) prefix =
     (if k = RArray then Inl (Panic ''reflect: call of reflect.Value.IsNil on array Value'')
      else if k \<in> {RSlice, RMap} then Inl (Panic ''interface conversion: wrong dynamic type'')
      else Inl (Fail (Error (''Value for field '' @ prefix @ '' could not be transformed''))))"
| "duckSlice C defs sch i [] prefix = Inr []"
| "duckSlice C defs sch i (e # es) prefix =
     (case duckType C defs sch e (prefix @ ''.'' @ Itoa i) of
        Inl err \<Rightarrow> Inl err
      | Inr res \<Rightarrow>
          (case duckSlice C defs sch (Suc i) es prefix of
             Inl err \<Rightarrow> Inl err
           | Inr rest \<Rightarrow> Inr (res # rest)))"
| "duckMap C defs sch [] prefix = Inr []"
| "duckMap C defs sch ((k, v) # kvs) prefix =
     (case duckType C defs sch v (if prefix = '''' then escapeDot k else prefix @ ''.'' @ escapeDot k) of
        Inl err \<Rightarrow> Inl err
      | Inr res \<Rightarrow>
          (case duckMap C defs sch kvs prefix of
             Inl err \<Rightarrow> Inl err
           | Inr rest \<Rightarrow> Inr ((k, res) # rest)))"

section \<open>Paths\<close>

datatype seg = Key string | Idx nat

fun gval_at :: "gval \<Rightarrow> seg list \<Rightarrow> gval option" where
  "gval_at v [] = Some v"
| "gval_at (GMap m) (Key k # p) = (case map_of m k of None \<Rightarrow> None | Some v \<Rightarrow> gval_at v p)"
| "gval_at (GSlice xs) (Idx i # p) = (if i < length xs then gval_at (xs ! i) p else None)"
| "gval_at _ _ = None"

fun seg_key :: "seg \<Rightarrow> string" where
  "seg_key (Key k) = escapeDot k"
| "seg_key (Idx i) = Itoa i"

text \<open>The key that \<open>duckType\<close> has built when it arrives at the end of a path.\<close>

fun extend :: "string \<Rightarrow> seg list \<Rightarrow> string" where
  "extend prefix [] = prefix"
| "extend prefix (Key k # p) = extend (if prefix = '''' then escapeDot k else prefix @ ''.'' @ escapeDot k) p"
| "extend prefix (Idx i # p) = extend (prefix @ ''.'' @ Itoa i) p"

lemma dot_free_seg_key [simp]: "dot_free (seg_key s)"
  by (cases s) (auto simp: dot_free_def escapeDot_def replace_char_notin Itoa_def fmt_nat_notin digit_val_None)

lemma Itoa_not_Nil [simp]: "Itoa i \<noteq> []"
  by (simp add: Itoa_def)

lemma extend_key_of:
  "path \<noteq> [] \<Longrightarrow> key_of path \<noteq> '''' \<Longrightarrow> extend (key_of path) p = key_of (path @ map seg_key p)"
proof (induction p arbitrary: path)
  case (Cons s p)
  have "extend (key_of path) (s # p) = extend (key_of (path @ [seg_key s])) p"
    using Cons.prems by (cases s) (simp_all add: key_of_snoc)
  also have "\<dots> = key_of ((path @ [seg_key s]) @ map seg_key p)"
    using Cons.prems by (intro Cons.IH) (simp_all add: key_of_snoc)
  finally show ?case by simp
qed simp

lemma extend_root: "k \<noteq> '''' \<Longrightarrow> extend '''' (Key k # p) = key_of (map seg_key (Key k # p))"
  using extend_key_of [of "[escapeDot k]" p] by (simp add: escapeDot_def replace_char_def)

lemma duckMap_keys:
  "duckMap C defs sch m prefix = Inr m' \<Longrightarrow> map fst m' = map fst m"
  by (induction m arbitrary: m') (auto split: sum.splits)

lemma duckMap_lookup:
  assumes "duckMap C defs sch m prefix = Inr m'" and "map_of m k = Some v"
  shows "\<exists>r. map_of m' k = Some r
    \<and> duckType C defs sch v (if prefix = '''' then escapeDot k else prefix @ ''.'' @ escapeDot k) = Inr r"
  using assms by (induction m arbitrary: m') (auto split: sum.splits if_splits)

lemma duckSlice_nth:
  assumes "duckSlice C defs sch j xs prefix = Inr ys" and "i < length xs"
  shows "duckType C defs sch (xs ! i) (prefix @ ''.'' @ Itoa (j + i)) = Inr (ys ! i)"
  using assms
proof (induction xs arbitrary: j i ys)
  case (Cons x xs)
  then obtain y ys' where ys: "ys = y # ys'"
    "duckType C defs sch x (prefix @ ''.'' @ Itoa j) = Inr y" "duckSlice C defs sch (Suc j) xs prefix = Inr ys'"
    by (auto split: sum.splits)
  show ?case
    using Cons.IH [OF ys(3)] Cons.prems(2) ys(1,2) by (cases i) auto
qed simp

lemma duckSlice_length: "duckSlice C defs sch j xs prefix = Inr ys \<Longrightarrow> length ys = length xs"
  by (induction xs arbitrary: j ys) (auto split: sum.splits)

text \<open>What \<open>duckType\<close> does at the end of a path is what it does to the value there.\<close>

lemma duckType_at:
  assumes "duckType C defs sch v prefix = Inr r" and "gval_at v p = Some x"
  shows "\<exists>y. duckType C defs sch x (extend prefix p) = Inr y \<and> gval_at r p = Some y"
  using assms
proof (induction v p arbitrary: prefix r rule: gval_at.induct)
  case (2 m k p)
  then obtain v where v: "map_of m k = Some v" "gval_at v p = Some x"
    by (auto split: option.splits)
  from "2.prems"(1) obtain m' where m': "duckMap C defs sch m prefix = Inr m'" "r = GMap m'"
    by (auto split: sum.splits)
  show ?case
    using duckMap_lookup [OF m'(1) v(1)] "2.IH" [OF v(1) _ v(2)] m'(2) by auto
next
  case (3 xs i p)
  then have i: "i < length xs" "gval_at (xs ! i) p = Some x" by (auto split: if_splits)
  from "3.prems"(1) obtain ys where ys: "duckSlice C defs sch 0 xs prefix = Inr ys" "r = GSlice ys"
    by (auto split: sum.splits)
  show ?case
    using duckSlice_nth [OF ys(1) i(1)] "3.IH" [OF i(1) _ i(2)] duckSlice_length [OF ys(1)] i(1) ys(2) by auto
qed simp_all

section \<open>The conversion of a scalar\<close>

fun is_scalar :: "gval \<Rightarrow> bool" where
  "is_scalar (GStr _) = True" | "is_scalar (GInt _) = True" | "is_scalar (GUint _) = True"
| "is_scalar (GFloat _) = True" | "is_scalar (GBool _) = True" | "is_scalar (GBytes _) = True"
| "is_scalar _ = False"

fun convertScalar :: "codec \<Rightarrow> gval \<Rightarrow> typed_field option \<Rightarrow> gerror + gval" where
  "convertScalar C (GStr s) ft = transformStringToType C s ft"
| "convertScalar C (GInt v) ft = transformInt64ToType v ft"
| "convertScalar C (GUint v) ft = transformUint64ToType v ft"
| "convertScalar C (GFloat f) ft = transformInt64ToType (f64_to_int64 f) ft"
| "convertScalar C (GBool b) ft = transformBoolToType b ft"
| "convertScalar C (GBytes b) ft = transformBytesToType b ft"
| "convertScalar C v ft = Inr v"

lemma duckType_scalar:
  "is_scalar x \<Longrightarrow> FindTypeForKeyFromSchema defs sch prefix = Inr ft \<Longrightarrow>
    duckType C defs sch x prefix = Inr y \<longleftrightarrow> convertScalar C x ft = Inr y"
  by (cases x) (simp_all add: duckLeaf_def duckBytes_def)

lemma duckType_scalar_unknown:
  "is_scalar x \<Longrightarrow> FindTypeForKeyFromSchema defs sch prefix = Inl (Fail e) \<Longrightarrow>
    duckType C defs sch x prefix = Inr (case x of GFloat f \<Rightarrow> GInt (f64_to_int64 f) | _ \<Rightarrow> x)"
  by (cases x) (simp_all add: duckLeaf_def duckBytes_def)

lemma FindType_walk:
  assumes "path \<noteq> []" and "walk defs sch (map seg_key path) = Inr fs"
  shows "FindTypeForKeyFromSchema defs sch (key_of (map seg_key path)) = Inr (map_option typed_field_of fs)"
  using assms by (simp add: FindTypeForKeyFromSchema_def findTypeForKey_walk split: option.split)

text \<open>A scalar in the tree of an object, at a path that starts with a non-empty key.\<close>

definition scalar_at :: "gval gmap \<Rightarrow> seg list \<Rightarrow> gval \<Rightarrow> bool" where
  "scalar_at m path x \<longleftrightarrow>
     is_scalar x \<and> gval_at (GMap m) path = Some x \<and> (\<exists>k p. path = Key k # p \<and> k \<noteq> '''')"

lemma duckType_scalar_at:
  assumes "duckType C defs sch (GMap m) '''' = Inr r" and "scalar_at m path x"
  shows "\<exists>y. duckType C defs sch x (key_of (map seg_key path)) = Inr y \<and> gval_at r path = Some y"
  using assms duckType_at extend_root unfolding scalar_at_def by metis

text \<open>
  C1. Duck typing an object converts each scalar by the type of its own path, and by nothing
  else: if \<open>duckType\<close> succeeds and the schema, followed along the path segment by segment, knows
  the field, then the result holds at the same path exactly the conversion of the scalar to the
  type of that field.
\<close>

theorem duckType_path:
  assumes "duckType C defs sch (GMap m) '''' = Inr r"
    and "scalar_at m path x"
    and "walk defs sch (map seg_key path) = Inr (Some f)"
  shows "\<exists>y. gval_at r path = Some y \<and> convertScalar C x (Some (typed_field_of f)) = Inr y"
proof -
  obtain y where y: "duckType C defs sch x (key_of (map seg_key path)) = Inr y" "gval_at r path = Some y"
    using duckType_scalar_at [OF assms(1,2)] by blast
  have "path \<noteq> []" and "is_scalar x" using assms(2) by (auto simp: scalar_at_def)
  then show ?thesis
    using y duckType_scalar FindType_walk [OF _ assms(3)] by auto
qed

text \<open>The example of the repository's test: the replicas of a Deployment given as a string.\<close>

definition leaf_schema :: "string list \<Rightarrow> string \<Rightarrow> schema" where
  "leaf_schema ts f = Schema ts f [] [] None None []"

definition object_schema :: "(string \<times> schema) list \<Rightarrow> schema" where
  "object_schema ps = Schema [''object''] '''' [] ps None None []"

definition deployment_schema :: schema where
  "deployment_schema = object_schema
     [(''kind'', leaf_schema [''string''] ''''),
      (''spec'', object_schema [(''replicas'', leaf_schema [''integer''] ''int32'')])]"

definition deployment_text :: "gval gmap" where
  "deployment_text = [(''kind'', GStr ''Deployment''), (''spec'', GMap [(''replicas'', GStr ''3'')])]"

lemmas example_defs = deployment_schema_def deployment_text_def leaf_schema_def object_schema_def

lemma deployment_duckType:
  "duckType C [] deployment_schema (GMap deployment_text) '''' =
     Inr (GMap [(''kind'', GStr ''Deployment''), (''spec'', GMap [(''replicas'', GInt 3)])])"
  by (simp add: example_defs duckLeaf_def FindTypeForKeyFromSchema_def findTypeForKey.simps escapeDot_def
      replace_char_def property_schema_def follow_def typed_field_of_def transformStringToType_def
      stringToIntDefault_def Atoi_def num_result_def parse_signed_def split_sign_def parse_unsigned_def
      digit_val_def)

lemma deployment_walk:
  "walk [] deployment_schema (map seg_key [Key ''spec'', Key ''replicas'']) =
     Inr (Some (leaf_schema [''integer''] ''int32''))"
  by (simp add: example_defs walk.simps escapeDot_def replace_char_def property_schema_def follow_def)

theorem duckType_path_witness:
  "\<exists>y. gval_at (GMap [(''kind'', GStr ''Deployment''), (''spec'', GMap [(''replicas'', GInt 3)])])
         [Key ''spec'', Key ''replicas''] = Some y
     \<and> convertScalar null_codec (GStr ''3'') (Some (typed_field_of (leaf_schema [''integer''] ''int32''))) = Inr y"
  by (rule duckType_path [OF deployment_duckType _ deployment_walk])
     (simp add: scalar_at_def deployment_text_def)

fun is_number :: "gval \<Rightarrow> bool" where
  "is_number (GInt _) = True" | "is_number (GUint _) = True" | "is_number (GFloat _) = True"
| "is_number _ = False"

text \<open>The two conversions that leave a number unchecked: text for \<open>int32\<close>, an unsigned number for \<open>int64\<close>.\<close>

definition not_checked :: "gval \<Rightarrow> typed_field \<Rightarrow> bool" where
  "not_checked x ft \<longleftrightarrow> (\<exists>s. x = GStr s) \<and> Format ft = ''int32'' \<or> (\<exists>v. x = GUint v) \<and> Format ft = ''int64''"

lemma transformUint64ToType_conforms:
  assumes "transformUint64ToType v (Some ft) = Inr r" "Format ft \<noteq> ''int64''"
  shows "conforms ft r"
  using assms fits_unsigned_64 [of v]
  by (auto simp: transformUint64ToType_def conforms_def fits_format_def fits_types_def int_format_None
        dest: ParseInt_range ParseUint_range split: if_splits)

lemma convertScalar_number:
  assumes "convertScalar C x (Some ft) = Inr y" "is_scalar x" "is_number y" "\<not> not_checked x ft"
    and json: "\<And>t z. UnmarshalObject C t = Inr z \<Longrightarrow> (\<exists>m. z = GMap m) \<or> z = GTypedNil RMap"
  shows "conforms ft y"
proof (cases x)
  case (GStr s)
  then have run: "transformStringToType C s (Some ft) = Inr y" and "Format ft \<noteq> ''int32''"
    using assms(1,4) by (auto simp: not_checked_def)
  moreover from run have "s \<noteq> ''<no value>''" using assms(3) by (auto simp: transformStringToType_def)
  ultimately show ?thesis by (rule_tac transformString_value [OF _ _ _ json])
qed (use assms in \<open>auto simp: not_checked_def transformBoolToType_def transformBytesToType_def
    dest: transformInt64_value transformUint64ToType_conforms split: if_splits\<close>)

text \<open>
  C8. Type soundness of duck typing for numbers: every number that \<open>duckType\<close> leaves at a path where
  the object held a scalar and that the schema knows conforms to the type of the field (within its
  width for an integer format), with two exceptions: text is not range checked for \<open>int32\<close>, an
  unsigned number not for \<open>int64\<close>. Where the object held an integer or a float, any result conforms.
  The decoder of JSON objects is assumed to return maps.
\<close>

theorem duckType_numbers_conform:
  assumes "duckType C defs sch (GMap m) '''' = Inr r"
    and "scalar_at m path x" and "walk defs sch (map seg_key path) = Inr (Some f)"
    and json: "\<And>t z. UnmarshalObject C t = Inr z \<Longrightarrow> (\<exists>m. z = GMap m) \<or> z = GTypedNil RMap"
  shows "\<exists>y. gval_at r path = Some y \<and>
    (is_number y \<longrightarrow> conforms (typed_field_of f) y \<or>
       (\<exists>s. x = GStr s) \<and> Format (typed_field_of f) = ''int32'' \<or>
       (\<exists>v. x = GUint v) \<and> Format (typed_field_of f) = ''int64'') \<and>
    ((\<exists>v. x = GInt v) \<or> (\<exists>w. x = GFloat w) \<longrightarrow> conforms (typed_field_of f) y)"
proof -
  obtain y where y: "duckType C defs sch x (key_of (map seg_key path)) = Inr y" "gval_at r path = Some y"
    using duckType_scalar_at [OF assms(1,2)] by blast
  have "path \<noteq> []" and x: "is_scalar x" using assms(2) by (auto simp: scalar_at_def)
  then have conv: "convertScalar C x (Some (typed_field_of f)) = Inr y"
    using y duckType_scalar FindType_walk [OF _ assms(3)] by auto
  have "is_number y \<longrightarrow> conforms (typed_field_of f) y \<or> not_checked x (typed_field_of f)"
    by (intro impI disjCI) (rule convertScalar_number [OF conv x _ _ json])
  moreover have "(\<exists>v. x = GInt v) \<or> (\<exists>w. x = GFloat w) \<longrightarrow> conforms (typed_field_of f) y"
    using conv transformInt64_value by auto
  ultimately show ?thesis using y(2) unfolding not_checked_def by blast
qed

lemma deployment_duckType_number:
  "duckType C [] deployment_schema (GMap [(''spec'', GMap [(''replicas'', GFloat 0x4008000000000000)])]) '''' =
     Inr (GMap [(''spec'', GMap [(''replicas'', GInt 3)])])"
proof -
  have "f64_to_int64 0x4008000000000000 = 3"
    by (simp add: f64_to_int64_def f64_neg_def f64_exp_def f64_mant_def f64_mag_def fits_signed_def)
  moreover have "ParseInt (FormatInt 3) 32 = Inr 3"
    by (simp add: ParseInt_FormatInt fits_signed_def)
  ultimately show ?thesis
    by (simp add: example_defs duckLeaf_def FindTypeForKeyFromSchema_def findTypeForKey.simps escapeDot_def
      replace_char_def property_schema_def follow_def typed_field_of_def transformInt64ToType_def)
qed

theorem duckType_numbers_conform_witness:
  "\<exists>y. gval_at (GMap [(''spec'', GMap [(''replicas'', GInt 3)])]) [Key ''spec'', Key ''replicas''] = Some y
     \<and> conforms (typed_field_of (leaf_schema [''integer''] ''int32'')) y"
proof -
  have "scalar_at [(''spec'', GMap [(''replicas'', GFloat 0x4008000000000000)])] [Key ''spec'', Key ''replicas''] (GFloat 0x4008000000000000)"
    by (simp add: scalar_at_def)
  from duckType_numbers_conform [OF deployment_duckType_number [of null_codec] this deployment_walk]
  show ?thesis by (auto simp: null_codec_def)
qed

text \<open>
  C30. Duck typing keeps the structure of an object: at every path where the input holds a map,
  the result holds a map with the same keys in the same order, and where it holds a slice, a
  slice of the same length.
\<close>

theorem duckType_structure:
  assumes "duckType C defs sch v prefix = Inr r"
  shows "(\<forall>p m. gval_at v p = Some (GMap m) \<longrightarrow>
            (\<exists>m'. gval_at r p = Some (GMap m') \<and> map fst m' = map fst m))
       \<and> (\<forall>p xs. gval_at v p = Some (GSlice xs) \<longrightarrow>
            (\<exists>ys. gval_at r p = Some (GSlice ys) \<and> length ys = length xs))"
proof (intro conjI allI impI)
  fix p m assume "gval_at v p = Some (GMap m)"
  then show "\<exists>m'. gval_at r p = Some (GMap m') \<and> map fst m' = map fst m"
    using duckType_at [OF assms] by (fastforce split: sum.splits dest: duckMap_keys)
next
  fix p xs assume "gval_at v p = Some (GSlice xs)"
  then show "\<exists>ys. gval_at r p = Some (GSlice ys) \<and> length ys = length xs"
    using duckType_at [OF assms] by (fastforce split: sum.splits dest: duckSlice_length)
qed

theorem duckType_structure_witness:
  "\<exists>m'. gval_at (GMap [(''kind'', GStr ''Deployment''), (''spec'', GMap [(''replicas'', GInt 3)])])
          [Key ''spec''] = Some (GMap m') \<and> map fst m' = [''replicas'']"
  using duckType_structure [OF deployment_duckType [of null_codec], THEN conjunct1, rule_format,
      of "[Key ''spec'']" "[(''replicas'', GStr ''3'')]"]
  by (simp add: deployment_text_def)

text \<open>
  A float is duck typed as the integer it truncates to: whatever \<open>duckType\<close> returns for a
  float it also returns for the truncated integer, and when the field is unknown to the schema or
  untyped the fraction is lost silently.
\<close>

theorem duckType_float_truncates:
  "(duckType C defs sch (GFloat f) prefix = Inr y \<longleftrightarrow>
      duckType C defs sch (GInt (f64_to_int64 f)) prefix = Inr y)
   \<and> ((\<exists>e. FindTypeForKeyFromSchema defs sch prefix = Inl (Fail e)) \<or> FindTypeForKeyFromSchema defs sch prefix = Inr None
      \<longrightarrow> duckType C defs sch (GFloat f) prefix = Inr (GInt (f64_to_int64 f)))"
  by (auto simp: duckLeaf_def transformInt64ToType_def split: sum.splits failure.splits option.splits)

theorem duckType_float_truncates_witness:
  "duckType null_codec [] (leaf_schema [''object''] '''') (GFloat 0x4004000000000000) ''ratio'' = Inr (GInt 2)"
  using duckType_float_truncates [of null_codec "[]" "leaf_schema [''object''] ''''" "0x4004000000000000" "''ratio''"]
  by (simp add: FindTypeForKeyFromSchema_def findTypeForKey.simps leaf_schema_def property_schema_def
      f64_to_int64_2_5)

text \<open>
  A field of type \<open>number\<close> refuses every number: for a field whose format is none of the
  integer formats and whose types name neither integer, string nor boolean, \<open>duckType\<close> fails on
  each integer and float, and with it the whole object.
\<close>

theorem duckType_number_field_fails:
  assumes "FindTypeForKeyFromSchema defs sch prefix = Inr (Some ft)"
    and "Types ft = [''number'']" and "Format ft \<in> {'''', ''double'', ''float''}"
    and "(\<exists>v. x = GInt v) \<or> (\<exists>w. x = GFloat w)"
  shows "\<exists>e. duckType C defs sch x prefix = Inl (Fail e)"
  using assms
  by (auto simp: duckLeaf_def transformInt64ToType_def no_transform_def)

theorem duckType_number_field_fails_witness:
  "\<exists>e. duckType null_codec [] (object_schema [(''ratio'', leaf_schema [''number''] ''double'')])
     (GFloat 0x4004000000000000) ''ratio'' = Inl (Fail e)"
  by (rule duckType_number_field_fails [where ft = "\<lparr>Types = [''number''], Format = ''double''\<rparr>"])
     (simp_all add: FindTypeForKeyFromSchema_def findTypeForKey.simps leaf_schema_def object_schema_def
        property_schema_def follow_def typed_field_of_def)

end
