(* ===== verification/Types.thy ===== *)
theory Types
  imports GoValue
begin

text \<open>
  The API types of \<open>api/v1/template_types.go\<close> and \<open>api/v1/rest_types.go\<close> as records, field by
  field, and \<open>unstructured.Unstructured\<close> with the accessors that the operator calls on it.
  The accessors belong to k8s.io/apimachinery: a record \<open>meta_ops\<close> holds them, the locale
  \<open>object_meta\<close> states what the operator relies on, and \<open>json_meta\<close> instantiates them by the
  documented field paths (\<open>metadata.annotations\<close> and so on) of the JSON tree.
\<close>

section \<open>Template\<close>

record requirement =
  req_Key :: string
  req_Operator :: string
  req_Values :: "string list"

record label_selector =
  MatchLabels :: "string gmap"
  MatchExpressions :: "requirement list"

record git_repository =
  git_Name :: string
  git_Namespace :: string
  git_Glob :: string

record resource_selector =
  GitRepository :: "git_repository option"
  LabelSelector :: label_selector
  NamespaceSelector :: label_selector
  AnnotationSelector :: "string gmap"
  FieldSelector :: string
  sel_APIVersion :: string
  sel_Kind :: string

record json_patch =
  patch_Object :: "string \<times> string"
  Patch :: string

record copy_to_namespaces =
  Namespaces :: "string list"
  CopyNamespaceSelector :: "label_selector option"

record template_spec =
  Source :: resource_selector
  PatchTarget :: resource_selector
  Resources :: "string list"
  ResourcesTemplate :: string
  Patches :: "string list"
  JsonPatches :: "json_patch list"
  CopyToNamespaces :: "copy_to_namespaces option"
  Onceoff :: bool

record template =
  tpl_Name :: string
  tpl_Namespace :: string
  Spec :: template_spec

section \<open>REST\<close>

text \<open>\<open>kommons.EnvVarSource\<close> is passed on to kommons unread; a string names it here.\<close>

type_synonym env_var_source = string

record rest_auth =
  Username :: env_var_source
  Password :: env_var_source
  auth_Namespace :: string

record rest_action =
  Method :: string
  act_URL :: string
  Body :: string
  act_Status :: "string gmap"

record rest_spec =
  rest_URL :: string
  Auth :: "rest_auth option"
  Headers :: "string gmap"
  UpdateAction :: rest_action
  RemoveAction :: rest_action

text \<open>\<open>rest_Status\<close> is the map \<open>Status\<close>, None when it is nil.\<close>

record rest =
  rest_Name :: string
  Generation :: i64
  Finalizers :: "string list"
  DeletionTimestamp :: "nat option"
  rest_Spec :: rest_spec
  rest_Status :: "string gmap option"

section \<open>Unstructured objects\<close>

text \<open>\<open>Object map[string]interface{}\<close>, None for a nil map.\<close>

record unstructured =
  Object :: "gval gmap option"

definition entries :: "unstructured \<Rightarrow> gval gmap" where
  "entries u = (case Object u of None \<Rightarrow> [] | Some m \<Rightarrow> m)"

text \<open>\<open>u.Object[k]\<close>: nil for an absent key.\<close>

definition obj_get :: "string \<Rightarrow> unstructured \<Rightarrow> gval" where
  "obj_get k u = (case map_of (entries u) k of None \<Rightarrow> GNil | Some v \<Rightarrow> v)"

definition obj_put :: "string \<Rightarrow> gval \<Rightarrow> unstructured \<Rightarrow> unstructured" where
  "obj_put k v u = u\<lparr>Object := Some (AList.update k v (entries u))\<rparr>"

definition gval_of_object :: "unstructured \<Rightarrow> gval" where
  "gval_of_object u = (case Object u of None \<Rightarrow> GTypedNil RMap | Some m \<Rightarrow> GMap m)"

record owner_ref =
  own_APIVersion :: string
  own_Kind :: string
  own_Name :: string
  own_UID :: string

record meta_ops =
  GetAPIVersion :: "unstructured \<Rightarrow> string"
  GetKind :: "unstructured \<Rightarrow> string"
  ObjectKind :: "unstructured \<Rightarrow> string" \<comment> \<open>\<open>GetObjectKind().GroupVersionKind().Kind\<close>\<close>
  GetName :: "unstructured \<Rightarrow> string"
  GetNamespace :: "unstructured \<Rightarrow> string"
  GetUID :: "unstructured \<Rightarrow> string"
  SetName :: "string \<Rightarrow> unstructured \<Rightarrow> unstructured"
  SetNamespace :: "string \<Rightarrow> unstructured \<Rightarrow> unstructured"
  GetAnnotations :: "unstructured \<Rightarrow> string gmap option"
  SetAnnotations :: "string gmap option \<Rightarrow> unstructured \<Rightarrow> unstructured"
  GetOwnerReferences :: "unstructured \<Rightarrow> owner_ref list"
  SetOwnerReferences :: "owner_ref list \<Rightarrow> unstructured \<Rightarrow> unstructured"

text \<open>A nil map reads as the empty map.\<close>

definition the_map :: "string gmap option \<Rightarrow> string gmap" where
  "the_map m = (case m of None \<Rightarrow> [] | Some x \<Rightarrow> x)"

definition annotation :: "('a) meta_ops_scheme \<Rightarrow> unstructured \<Rightarrow> string \<Rightarrow> string option" where
  "annotation M u k = map_of (the_map (GetAnnotations M u)) k"

text \<open>
  The laws of the accessors on objects whose metadata is well formed: what is set is read back,
  and setting one part leaves the name, the namespace, the kind and the other part alone.
\<close>

locale object_meta =
  fixes M :: "'a meta_ops_scheme" and well_formed :: "unstructured \<Rightarrow> bool"
  assumes annotation_set: "well_formed u \<Longrightarrow> annotation M (SetAnnotations M a u) k = map_of (the_map a) k"
    and owners_set: "well_formed u \<Longrightarrow> GetOwnerReferences M (SetOwnerReferences M os u) = os"
    and owners_set_annotations: "well_formed u \<Longrightarrow> GetOwnerReferences M (SetAnnotations M a u) = GetOwnerReferences M u"
    and annotation_set_owners: "well_formed u \<Longrightarrow> annotation M (SetOwnerReferences M os u) k = annotation M u k"
    and annotation_set_namespace: "well_formed u \<Longrightarrow> annotation M (SetNamespace M ns u) k = annotation M u k"
    and well_formed_set_annotations: "well_formed u \<Longrightarrow> well_formed (SetAnnotations M a u)"
    and well_formed_set_owners: "well_formed u \<Longrightarrow> well_formed (SetOwnerReferences M os u)"
    and well_formed_set_namespace: "well_formed u \<Longrightarrow> well_formed (SetNamespace M ns u)"
    and namespace_set: "well_formed u \<Longrightarrow> GetNamespace M (SetNamespace M ns u) = ns"
    and namespace_set_annotations: "well_formed u \<Longrightarrow> GetNamespace M (SetAnnotations M a u) = GetNamespace M u"
    and namespace_set_owners: "well_formed u \<Longrightarrow> GetNamespace M (SetOwnerReferences M os u) = GetNamespace M u"
    and name_set_annotations: "well_formed u \<Longrightarrow> GetName M (SetAnnotations M a u) = GetName M u"
    and name_set_namespace: "well_formed u \<Longrightarrow> GetName M (SetNamespace M ns u) = GetName M u"
begin

lemmas meta_simps = annotation_set owners_set owners_set_annotations annotation_set_owners
  annotation_set_namespace well_formed_set_annotations well_formed_set_owners
  well_formed_set_namespace namespace_set namespace_set_annotations namespace_set_owners
  name_set_annotations name_set_namespace

end

section \<open>Accessors by field path\<close>

text \<open>
  The accessors as apimachinery documents them: \<open>metadata\<close> is a map inside the object, a string
  accessor gives the empty string for a missing or non-string field, and a setter creates the
  metadata map if it is missing. Setting nil annotations, an empty namespace, or no owner
  references removes the field.
\<close>

definition metadata :: "unstructured \<Rightarrow> gval gmap" where
  "metadata u = (case obj_get ''metadata'' u of GMap m \<Rightarrow> m | _ \<Rightarrow> [])"

definition with_metadata :: "(gval gmap \<Rightarrow> gval gmap) \<Rightarrow> unstructured \<Rightarrow> unstructured" where
  "with_metadata f u =
     (case obj_get ''metadata'' u of
        GMap m \<Rightarrow> obj_put ''metadata'' (GMap (f m)) u
      | GNil \<Rightarrow> obj_put ''metadata'' (GMap (f [])) u
      | _ \<Rightarrow> u)"

definition string_field :: "gval gmap \<Rightarrow> string \<Rightarrow> string" where
  "string_field m k = (case map_of m k of Some (GStr s) \<Rightarrow> s | _ \<Rightarrow> [])"

fun string_entries :: "gval gmap \<Rightarrow> string gmap option" where
  "string_entries [] = Some []"
| "string_entries ((k, GStr s) # m) = map_option (Cons (k, s)) (string_entries m)"
| "string_entries (_ # m) = None"

definition owner_of_gval :: "gval \<Rightarrow> owner_ref" where
  "owner_of_gval v = (let m = (case v of GMap m \<Rightarrow> m | _ \<Rightarrow> []) in
     \<lparr>own_APIVersion = string_field m ''apiVersion'', own_Kind = string_field m ''kind'',
      own_Name = string_field m ''name'', own_UID = string_field m ''uid''\<rparr>)"

definition gval_of_owner :: "owner_ref \<Rightarrow> gval" where
  "gval_of_owner r = GMap [(''apiVersion'', GStr (own_APIVersion r)), (''kind'', GStr (own_Kind r)),
     (''name'', GStr (own_Name r)), (''uid'', GStr (own_UID r))]"

definition json_meta :: meta_ops where
  "json_meta = \<lparr>
     GetAPIVersion = (\<lambda>u. string_field (entries u) ''apiVersion''),
     GetKind = (\<lambda>u. string_field (entries u) ''kind''),
     ObjectKind = (\<lambda>u. if length (split_all CHR ''/'' (string_field (entries u) ''apiVersion'')) \<le> 2
                        then string_field (entries u) ''kind'' else ''''),
     GetName = (\<lambda>u. string_field (metadata u) ''name''),
     GetNamespace = (\<lambda>u. string_field (metadata u) ''namespace''),
     GetUID = (\<lambda>u. string_field (metadata u) ''uid''),
     SetName = (\<lambda>n. with_metadata (\<lambda>m. if n = [] then AList.delete ''name'' m else AList.update ''name'' (GStr n) m)),
     SetNamespace = (\<lambda>n. with_metadata (\<lambda>m. if n = [] then AList.delete ''namespace'' m
                                            else AList.update ''namespace'' (GStr n) m)),
     GetAnnotations = (\<lambda>u. case map_of (metadata u) ''annotations'' of
                            Some (GMap a) \<Rightarrow> string_entries a | _ \<Rightarrow> None),
     SetAnnotations = (\<lambda>a. with_metadata (\<lambda>m. case a of
                            None \<Rightarrow> AList.delete ''annotations'' m
                          | Some kvs \<Rightarrow> AList.update ''annotations'' (GMap (map (\<lambda>(k, s). (k, GStr s)) kvs)) m)),
     GetOwnerReferences = (\<lambda>u. case map_of (metadata u) ''ownerReferences'' of
                            Some (GSlice vs) \<Rightarrow> map owner_of_gval vs | _ \<Rightarrow> []),
     SetOwnerReferences = (\<lambda>rs. with_metadata (\<lambda>m. if rs = [] then AList.delete ''ownerReferences'' m
                            else AList.update ''ownerReferences'' (GSlice (map gval_of_owner rs)) m))\<rparr>"

definition json_well_formed :: "unstructured \<Rightarrow> bool" where
  "json_well_formed u \<longleftrightarrow> (case obj_get ''metadata'' u of GMap _ \<Rightarrow> True | GNil \<Rightarrow> True | _ \<Rightarrow> False)"

lemma obj_get_put [simp]: "obj_get k (obj_put k' v u) = (if k = k' then v else obj_get k u)"
  by (simp add: obj_get_def obj_put_def entries_def update_conv')

lemma metadata_with: "json_well_formed u \<Longrightarrow> metadata (with_metadata f u) = f (metadata u)"
  by (auto simp: metadata_def with_metadata_def json_well_formed_def split: gval.splits)

lemma well_formed_with: "json_well_formed u \<Longrightarrow> json_well_formed (with_metadata f u)"
  by (auto simp: with_metadata_def json_well_formed_def split: gval.splits)

lemma string_entries_map [simp]: "string_entries (map (\<lambda>(k, s). (k, GStr s)) kvs) = Some kvs"
  by (induction kvs) auto

lemma owner_roundtrip [simp]: "owner_of_gval (gval_of_owner r) = r"
  by (simp add: owner_of_gval_def gval_of_owner_def string_field_def)

lemma string_field_update [simp]:
  "string_field (AList.update k v m) k' = (if k' = k then (case v of GStr s \<Rightarrow> s | _ \<Rightarrow> []) else string_field m k')"
  by (simp add: string_field_def update_conv')

lemma string_field_delete [simp]:
  "string_field (AList.delete k m) k' = (if k' = k then [] else string_field m k')"
  by (simp add: string_field_def delete_conv')

interpretation json: object_meta json_meta json_well_formed
  by unfold_locales
     (auto simp: json_meta_def annotation_def metadata_with well_formed_with the_map_def update_conv' delete_conv'
        comp_def split: option.split)

end
