(* ===== verification/World.thy ===== *)
theory World
  imports Types Schema
begin

text \<open>
  The state that the operator's components share and the calls that leave the process. The
  cluster and everything else outside is an abstract state \<open>'c\<close>; every external operation is a
  parameter of type \<open>('c, 'a) ext\<close>. The world also holds the operator's own state: the schema
  cache, the watcher's map, the CRD version last seen. \<open>calls\<close> records the calls made, in order, so
  that properties can speak of them.
\<close>

section \<open>CRDs and the schema cache\<close>

text \<open>
  \<open>ver_Schema\<close> is the pointer \<open>Schema\<close> with its field \<open>OpenAPIV3Schema\<close>, itself a pointer; the
  properties behind it are named by a string, as only the encoder of encoding/json reads them.
\<close>

type_synonym json_schema_props = string
type_synonym swagger = "schema gmap option" \<comment> \<open>\<open>SwaggerProps.Definitions\<close>, None for a nil map\<close>
type_synonym api_resource_list = string \<comment> \<open>an APIResourceList is stored and never read\<close>

record crd_version =
  ver_Name :: string
  ver_Schema :: "json_schema_props option option"

record crd =
  crd_Group :: string
  crd_Kind :: string
  crd_Versions :: "crd_version list"

text \<open>
  \<open>SchemaCache\<close> of \<open>k8s/schema_cache.go\<close>: times are nanoseconds since the zero time, \<open>expire\<close> is a duration in nanoseconds, nil slices and
  pointers are None, \<open>'l\<close> is the state of the LRU cache of github.com/hashicorp/golang-lru.
\<close>

record 'l schema_cache =
  expire :: i64
  resources :: "api_resource_list list option"
  resourcesExpireTimestamp :: int
  cached_schema :: "swagger option"
  schemaExpireTimestamp :: int
  crds :: "crd list option"
  crdsExpireTimestamp :: int
  schemaUnmarshalCache :: 'l

section \<open>Calls\<close>

record http_request =
  http_Method :: string
  http_URL :: string
  http_Body :: string
  http_Header :: "string gmap"

datatype gauge = TemplateCount | TemplateSuccess | TemplateFailed | RestCount | RestSuccess | RestFailed

datatype call =
    GetOpenAPI
  | GetServerResources
  | ListCRDs
  | GetServerGroups
  | ResetRestMapper
  | ListNamespaces string
  | ListResources string string string string     \<comment> \<open>kind, namespace, field and label selector\<close>
  | StartInformer string string string            \<comment> \<open>kind, label and field selector\<close>
  | ApplyUnstructured string unstructured
  | SetCondition unstructured string string
  | RefreshObject unstructured
  | Event string string                            \<comment> \<open>type and message\<close>
  | GetGitRepository string string                \<comment> \<open>name and namespace\<close>
  | HttpGet string
  | GetTemplate string
  | GetRest string
  | GetCrd string
  | HttpDo http_request
  | UpdateObject rest
  | UpdateStatus rest
  | Sleep nat
  | IncGauge gauge string                          \<comment> \<open>\<open>WithLabelValues(name).Inc()\<close>\<close>

section \<open>The world\<close>

record ('c, 'l) world =
  cluster :: 'c
  cache :: "'l schema_cache"
  watched :: "bool gmap"
  crdResourceVersion :: i64
  calls :: "call list"

type_synonym ('c, 'a) ext = "'c \<Rightarrow> (gerror + 'a) \<times> 'c"
type_synonym ('c, 'l, 'a) wact = "(('c, 'l) world, 'a) act"

text \<open>An external operation, without and with an entry in the record of calls.\<close>

definition query :: "('c, 'a) ext \<Rightarrow> ('c, 'l, 'a) wact" where
  "query f = (\<lambda>w. case f (cluster w) of (r, c) \<Rightarrow> (of_error r, w\<lparr>cluster := c\<rparr>))"

definition external :: "call \<Rightarrow> ('c, 'a) ext \<Rightarrow> ('c, 'l, 'a) wact" where
  "external k f = (\<lambda>w. case f (cluster w) of (r, c) \<Rightarrow>
     (of_error r, w\<lparr>cluster := c, calls := calls w @ [k]\<rparr>))"

text \<open>An effect that returns nothing the operator looks at (an event, a counter, a sleep).\<close>

definition record_call :: "call \<Rightarrow> ('c, 'l, unit) wact" where
  "record_call k = (\<lambda>w. (Inr (), w\<lparr>calls := calls w @ [k]\<rparr>))"

definition reads :: "(('c, 'l) world \<Rightarrow> 'a) \<Rightarrow> ('c, 'l, 'a) wact" where
  "reads f = (\<lambda>w. (Inr (f w), w))"

definition update_cache :: "('l schema_cache \<Rightarrow> 'l schema_cache) \<Rightarrow> ('c, 'l, unit) wact" where
  "update_cache f = (\<lambda>w. (Inr (), w\<lparr>cache := f (cache w)\<rparr>))"

lemmas world_defs = query_def external_def record_call_def reads_def update_cache_def

lemma bindA_reads [simp]: "bindA (reads g) f w = f (g w) w"
  by (simp add: bindA_def reads_def)

lemma bindA_record_call [simp]: "bindA (record_call k) f w = f () (w\<lparr>calls := calls w @ [k]\<rparr>)"
  by (simp add: bindA_def record_call_def)

lemma bindA_update_cache [simp]: "bindA (update_cache g) f w = f () (w\<lparr>cache := g (cache w)\<rparr>)"
  by (simp add: bindA_def update_cache_def)

lemma keeps_reads [valid_intros, simp]: "keeps I (reads f)"
  by (simp add: keeps_iff reads_def)

lemma keeps_query [valid_intros]:
  "(\<And>w c. I w \<Longrightarrow> I (w\<lparr>cluster := c\<rparr>)) \<Longrightarrow> keeps I (query f)"
  by (simp add: keeps_iff query_def split: prod.split)

lemma keeps_external [valid_intros]:
  "(\<And>w c. I w \<Longrightarrow> I (w\<lparr>cluster := c, calls := calls w @ [k]\<rparr>)) \<Longrightarrow> keeps I (external k f)"
  by (simp add: keeps_iff external_def split: prod.split)

lemma keeps_record_call [valid_intros]:
  "(\<And>w. I w \<Longrightarrow> I (w\<lparr>calls := calls w @ [k]\<rparr>)) \<Longrightarrow> keeps I (record_call k)"
  by (simp add: keeps_iff record_call_def)

lemma keeps_update_cache [valid_intros]:
  "(\<And>w. I w \<Longrightarrow> I (w\<lparr>cache := f (cache w)\<rparr>)) \<Longrightarrow> keeps I (update_cache f)"
  by (simp add: keeps_iff update_cache_def)

text \<open>The calls made since the log was \<open>L\<close>, all of which satisfy \<open>P\<close>.\<close>

definition grows :: "call list \<Rightarrow> (call \<Rightarrow> bool) \<Rightarrow> ('c, 'l) world \<Rightarrow> bool" where
  "grows L P w \<longleftrightarrow> (\<exists>ks. calls w = L @ ks \<and> list_all P ks)"

lemma grows_refl [simp]: "grows (calls w) P w"
  by (simp add: grows_def)

lemma grows_snoc: "grows L P w \<Longrightarrow> P k \<Longrightarrow> calls w' = calls w @ [k] \<Longrightarrow> grows L P w'"
  by (auto simp: grows_def)

lemma grows_same: "grows L P w \<Longrightarrow> calls w' = calls w \<Longrightarrow> grows L P w'"
  by (simp add: grows_def)

text \<open>
  A predicate that survives changes of the cluster and calls that satisfy \<open>P\<close> survives every
  operation that makes only such calls; the log of calls is the instance that properties use most.
\<close>

locale logging =
  fixes I :: "('c, 'l) world \<Rightarrow> bool" and P :: "call \<Rightarrow> bool"
  assumes I_cluster: "I w \<Longrightarrow> I (w\<lparr>cluster := c\<rparr>)"
    and I_call: "I w \<Longrightarrow> P k \<Longrightarrow> I (w\<lparr>cluster := c, calls := calls w @ [k]\<rparr>)"
begin

lemma kept_query [valid_intros, simp]: "keeps I (query f)"
  by (rule keeps_query) (rule I_cluster)

lemma kept_external [valid_intros]: "P k \<Longrightarrow> keeps I (external k f)"
  by (rule keeps_external) (rule I_call)

lemma kept_record_call [valid_intros]: "P k \<Longrightarrow> keeps I (record_call k)"
  using I_call [where c = "cluster w" and w = w for w] by (intro keeps_record_call) simp

end

interpretation trace: logging "grows L P" P for L P
  by unfold_locales (auto intro: grows_same grows_snoc)

lemma grows_update_cache [valid_intros, simp]: "keeps (grows L P) (update_cache f)"
  by (rule keeps_update_cache) (auto intro: grows_same)

lemma keeps_case_option [valid_intros]:
  "keeps I a \<Longrightarrow> (\<And>x. r = Some x \<Longrightarrow> keeps I (b x)) \<Longrightarrow> keeps I (case r of None \<Rightarrow> a | Some x \<Rightarrow> b x)"
  by (cases r) auto

lemma keeps_case_sum [valid_intros]:
  "(\<And>e. r = Inl e \<Longrightarrow> keeps I (a e)) \<Longrightarrow> (\<And>x. r = Inr x \<Longrightarrow> keeps I (b x)) \<Longrightarrow> keeps I (case r of Inl e \<Rightarrow> a e | Inr x \<Rightarrow> b x)"
  by (cases r) auto

lemma keeps_case_prod [valid_intros]:
  "(\<And>x y. keeps I (f x y)) \<Longrightarrow> keeps I (case p of (x, y) \<Rightarrow> f x y)"
  by (cases p) auto

lemma grows_nothing:
  assumes "\<And>L P. keeps (grows L P) m" and "m w = (r, w')"
  shows "calls w' = calls w"
  using keepsD [OF assms(1), of "calls w" "\<lambda>_. False" w] assms(2) by (auto simp: grows_def list_all_iff)

lemma external_eq_Inr:
  "external k f w = (Inr x, w') \<longleftrightarrow> (\<exists>c. f (cluster w) = (Inr x, c) \<and> w' = w\<lparr>cluster := c, calls := calls w @ [k]\<rparr>)"
  by (auto simp: external_def split: prod.splits)

lemma query_eq_Inr: "query f w = (Inr x, w') \<longleftrightarrow> (\<exists>c. f (cluster w) = (Inr x, c) \<and> w' = w\<lparr>cluster := c\<rparr>)"
  by (auto simp: query_def split: prod.splits)

text \<open>All calls made so far satisfy a predicate.\<close>

definition all_calls :: "(call \<Rightarrow> bool) \<Rightarrow> ('c, 'l) world \<Rightarrow> bool" where
  "all_calls P w \<longleftrightarrow> (\<forall>k \<in> set (calls w). P k)"

lemma all_calls_simps [simp]:
  "all_calls P (w\<lparr>calls := calls w @ [k]\<rparr>) \<longleftrightarrow> all_calls P w \<and> P k"
  "all_calls P (w\<lparr>cluster := c, calls := calls w @ [k]\<rparr>) \<longleftrightarrow> all_calls P w \<and> P k"
  "all_calls P (w\<lparr>cluster := c\<rparr>) \<longleftrightarrow> all_calls P w"
  "all_calls P (w\<lparr>cache := s\<rparr>) \<longleftrightarrow> all_calls P w"
  "all_calls P (w\<lparr>watched := x\<rparr>) \<longleftrightarrow> all_calls P w"
  "all_calls P (w\<lparr>crdResourceVersion := v\<rparr>) \<longleftrightarrow> all_calls P w"
  by (auto simp: all_calls_def)

end
