(* ===== verification/SchemaCache.thy ===== *)
theory SchemaCache
  imports World
begin

text \<open>
  \<open>k8s/schema_cache.go\<close>: the cache of the API schema, the API resources, the CRDs and the CRD
  schemas already decoded. Every exported method holds the mutex of the cache while it runs
  (except the two \<open>HasExpired\<close> tests), so each method is one atomic step here.
\<close>

text \<open>
  The clock, the API server, encoding/json and the LRU cache, as the cache uses them. A nil slice,
  and the nil pointer that \<open>json.Unmarshal(bs, &s)\<close> leaves for the document \<open>null\<close>, are None.
\<close>

record ('c, 'l) cache_env =
  Now :: "'c \<Rightarrow> nat \<times> 'c"
  srv_OpenAPI :: "('c, string) ext"
  srv_Resources :: "('c, api_resource_list list option) ext"
  srv_CRDs :: "('c, crd list option) ext"
  UnmarshalSwagger :: "string \<Rightarrow> gerror + swagger option"
  MarshalProps :: "json_schema_props \<Rightarrow> gerror + string"
  UnmarshalSchema :: "string \<Rightarrow> gerror + schema"
  LruNew :: "nat \<Rightarrow> 'l"
  LruGet :: "string \<Rightarrow> 'l \<Rightarrow> schema option \<times> 'l"
  LruAdd :: "string \<Rightarrow> schema \<Rightarrow> 'l \<Rightarrow> 'l"

definition NewSchemaCache :: "('c, 'l, 'z) cache_env_scheme \<Rightarrow> i64 \<Rightarrow> 'l schema_cache" where
  "NewSchemaCache S d = \<lparr>expire = d, resources = None, resourcesExpireTimestamp = 0,
     cached_schema = None, schemaExpireTimestamp = 0, crds = None, crdsExpireTimestamp = 0,
     schemaUnmarshalCache = LruNew S 100\<rparr>"

definition now :: "('c, 'l, 'z) cache_env_scheme \<Rightarrow> ('c, 'l, int) wact" where
  "now S = query (\<lambda>c. case Now S c of (t, c') \<Rightarrow> (Inr (int t), c'))"

context logging begin

lemma kept_now [valid_intros, simp]: "keeps I (now S)"
  unfolding now_def by simp

end

definition ExpireSchema :: "('c, 'l, 'z) cache_env_scheme \<Rightarrow> ('c, 'l, unit) wact" where
  "ExpireSchema S =
     bindA (now S) (\<lambda>t1.
     bindA (reads (\<lambda>w. schemaExpireTimestamp (cache w))) (\<lambda>exp.
     bindA (if t1 < exp then bindA (now S) (\<lambda>t. update_cache (\<lambda>sc. sc\<lparr>schemaExpireTimestamp := t\<rparr>)) else ret ()) (\<lambda>_.
     bindA (now S) (\<lambda>t2.
     bindA (reads (\<lambda>w. crdsExpireTimestamp (cache w))) (\<lambda>exp'.
     if t2 < exp' then bindA (now S) (\<lambda>t. update_cache (\<lambda>sc. sc\<lparr>crdsExpireTimestamp := t\<rparr>)) else ret ())))))"

definition ExpireResources :: "('c, 'l, 'z) cache_env_scheme \<Rightarrow> ('c, 'l, unit) wact" where
  "ExpireResources S =
     bindA (now S) (\<lambda>t1.
     bindA (reads (\<lambda>w. resourcesExpireTimestamp (cache w))) (\<lambda>exp.
     if t1 < exp then bindA (now S) (\<lambda>t. update_cache (\<lambda>sc. sc\<lparr>resourcesExpireTimestamp := t\<rparr>)) else ret ()))"

definition SchemaHasExpired :: "('c, 'l, 'z) cache_env_scheme \<Rightarrow> ('c, 'l, bool) wact" where
  "SchemaHasExpired S =
     bindA (reads (\<lambda>w. schemaExpireTimestamp (cache w))) (\<lambda>exp. bindA (now S) (\<lambda>t. ret (exp < t)))"

definition ResourceHasExpired :: "('c, 'l, 'z) cache_env_scheme \<Rightarrow> ('c, 'l, bool) wact" where
  "ResourceHasExpired S =
     bindA (reads (\<lambda>w. resourcesExpireTimestamp (cache w))) (\<lambda>exp. bindA (now S) (\<lambda>t. ret (exp < t)))"

definition fetchAndSetSchema :: "('c, 'l, 'z) cache_env_scheme \<Rightarrow> ('c, 'l, unit) wact" where
  "fetchAndSetSchema S =
     bindA (wrapA ''failed to fetch schema from server'' (external GetOpenAPI (srv_OpenAPI S))) (\<lambda>bs.
     bindA (wrapA ''failed to unmarshal openapi'' (liftR (of_error (UnmarshalSwagger S bs)))) (\<lambda>s.
     bindA (update_cache (\<lambda>sc. sc\<lparr>cached_schema := s\<rparr>)) (\<lambda>_.
     bindA (now S) (\<lambda>t. update_cache (\<lambda>sc. sc\<lparr>schemaExpireTimestamp := t + sint (expire sc)\<rparr>)))))"

definition fetchAndSetResources :: "('c, 'l, 'z) cache_env_scheme \<Rightarrow> ('c, 'l, unit) wact" where
  "fetchAndSetResources S =
     bindA (wrapA ''failed to list server resources'' (external GetServerResources (srv_Resources S))) (\<lambda>rs.
     bindA (update_cache (\<lambda>sc. sc\<lparr>resources := rs\<rparr>)) (\<lambda>_.
     bindA (now S) (\<lambda>t. update_cache (\<lambda>sc. sc\<lparr>resourcesExpireTimestamp := t + sint (expire sc)\<rparr>))))"

text \<open>The test of \<open>FetchSchema\<close> looks at \<open>sc.resources\<close>, not at \<open>sc.schema\<close>, as in the source.\<close>

definition FetchSchema :: "('c, 'l, 'z) cache_env_scheme \<Rightarrow> ('c, 'l, swagger option) wact" where
  "FetchSchema S =
     bindA (reads cache) (\<lambda>sc.
     bindA (if resources sc = None then ret True
            else bindA (now S) (\<lambda>t. ret (schemaExpireTimestamp sc < t))) (\<lambda>refetch.
     bindA (if refetch then wrapA ''failed to refetch API schema'' (fetchAndSetSchema S) else ret ()) (\<lambda>_.
     reads (\<lambda>w. cached_schema (cache w)))))"

definition FetchResources :: "('c, 'l, 'z) cache_env_scheme \<Rightarrow> ('c, 'l, api_resource_list list option) wact" where
  "FetchResources S =
     bindA (reads cache) (\<lambda>sc.
     bindA (if resources sc = None then ret True
            else bindA (now S) (\<lambda>t. ret (resourcesExpireTimestamp sc < t))) (\<lambda>refetch.
     bindA (if refetch then wrapA ''failed to refetch API resources'' (fetchAndSetResources S) else ret ()) (\<lambda>_.
     reads (\<lambda>w. resources (cache w)))))"

definition FetchCRD :: "('c, 'l, 'z) cache_env_scheme \<Rightarrow> ('c, 'l, crd list) wact" where
  "FetchCRD S =
     bindA (reads cache) (\<lambda>sc.
     bindA (if crds sc = None then ret True
            else bindA (now S) (\<lambda>t. ret (crdsExpireTimestamp sc < t))) (\<lambda>refetch.
     bindA (if refetch then
              bindA (wrapA ''failed to list customresourcedefinitions'' (external ListCRDs (srv_CRDs S))) (\<lambda>items.
              bindA (update_cache (\<lambda>c. c\<lparr>crds := items\<rparr>)) (\<lambda>_.
              bindA (now S) (\<lambda>t. update_cache (\<lambda>c. c\<lparr>crdsExpireTimestamp := t + sint (expire c)\<rparr>))))
            else ret ()) (\<lambda>_.
     reads (\<lambda>w. case crds (cache w) of None \<Rightarrow> [] | Some items \<Rightarrow> items))))"

definition schema_key :: "gvk \<Rightarrow> string" where
  "schema_key g = ''group='' @ Group g @ '';version='' @ Version g @ '';kind='' @ Kind g"

text \<open>\<open>json.Marshal(crd.Schema.OpenAPIV3Schema)\<close>, and the schema decoded from its bytes.\<close>

definition marshal_schema :: "('c, 'l, 'z) cache_env_scheme \<Rightarrow> crd_version \<Rightarrow> string result" where
  "marshal_schema S v =
     (case ver_Schema v of
        None \<Rightarrow> Inl nil_deref
      | Some None \<Rightarrow> Inr ''null''
      | Some (Some p) \<Rightarrow> wrapR ''failed to encode crd schema to json'' (of_error (MarshalProps S p)))"

definition decode_props ::
  "('c, 'l, 'z) cache_env_scheme \<Rightarrow> string \<Rightarrow> crd_version \<Rightarrow> schema result" where
  "decode_props S msg v =
     bindR (marshal_schema S v) (\<lambda>bs. wrapR msg (of_error (UnmarshalSchema S bs)))"

definition CachedConvertSchema ::
  "('c, 'l, 'z) cache_env_scheme \<Rightarrow> gvk \<Rightarrow> crd_version \<Rightarrow> ('c, 'l, schema) wact" where
  "CachedConvertSchema S g v =
     bindA (reads (\<lambda>w. LruGet S (schema_key g) (schemaUnmarshalCache (cache w)))) (\<lambda>(found, l').
     bindA (update_cache (\<lambda>sc. sc\<lparr>schemaUnmarshalCache := l'\<rparr>)) (\<lambda>_.
     (case found of
        Some s \<Rightarrow> ret s
      | None \<Rightarrow>
          bindA (liftR (decode_props S ''failed to decode json into spec.Schema'' v)) (\<lambda>s.
          bindA (update_cache (\<lambda>sc. sc\<lparr>schemaUnmarshalCache := LruAdd S (schema_key g) s (schemaUnmarshalCache sc)\<rparr>)) (\<lambda>_.
          ret s)))))"

section \<open>The contract of the LRU cache\<close>

text \<open>
  What the cache of decoded schemas relies on: a lookup returns only what is stored under the
  key, and storing adds at most the new pair (it may evict others). \<open>lru_P\<close> lifts a property of
  stored pairs to the world.
\<close>

locale lru_store =
  fixes get :: "string \<Rightarrow> 'l \<Rightarrow> schema option \<times> 'l"
    and add :: "string \<Rightarrow> schema \<Rightarrow> 'l \<Rightarrow> 'l"
    and content :: "'l \<Rightarrow> (string \<times> schema) set"
  assumes get_content: "get k l = (Some s, l') \<Longrightarrow> (k, s) \<in> content l"
    and get_keeps: "get k l = (r, l') \<Longrightarrow> content l' \<subseteq> content l"
    and add_content: "content (add k s l) \<subseteq> insert (k, s) (content l)"
begin

definition all_stored :: "(string \<Rightarrow> schema \<Rightarrow> bool) \<Rightarrow> 'l \<Rightarrow> bool" where
  "all_stored P l \<longleftrightarrow> (\<forall>(k, s) \<in> content l. P k s)"

lemma all_stored_get:
  "all_stored P l \<Longrightarrow> get k l = (r, l') \<Longrightarrow> all_stored P l' \<and> (\<forall>s. r = Some s \<longrightarrow> P k s)"
  using get_keeps get_content unfolding all_stored_def by fastforce

lemma all_stored_add: "all_stored P l \<Longrightarrow> P k s \<Longrightarrow> all_stored P (add k s l)"
  using add_content unfolding all_stored_def by fastforce

text \<open>\<open>CachedConvertSchema\<close> over such a store: its results and its store satisfy whatever every
  fresh decoding satisfies.\<close>

lemma CachedConvertSchema_valid:
  assumes S: "LruGet S = get" "LruAdd S = add"
    and fresh: "\<And>s. decode_props S ''failed to decode json into spec.Schema'' v = Inr s \<Longrightarrow> P (schema_key g) s"
  shows "valid (\<lambda>w. all_stored P (schemaUnmarshalCache (cache w))) (CachedConvertSchema S g v)
     (\<lambda>s w. P (schema_key g) s \<and> all_stored P (schemaUnmarshalCache (cache w)))
     (\<lambda>_ w. all_stored P (schemaUnmarshalCache (cache w)))"
  using all_stored_get all_stored_add fresh
  by (fastforce simp: valid_def CachedConvertSchema_def bindA_def reads_def update_cache_def ret_def liftR_def S
      split: prod.splits option.splits sum.splits)

end

text \<open>
  A bounded least-recently-used store as \<open>lru.New(100)\<close> documents it: a lookup moves the entry to
  the front, adding puts it in front and drops the last entry when the store is full.
\<close>

definition lru_get :: "string \<Rightarrow> schema gmap \<Rightarrow> schema option \<times> schema gmap" where
  "lru_get k l = (case map_of l k of None \<Rightarrow> (None, l) | Some s \<Rightarrow> (Some s, (k, s) # AList.delete k l))"

definition lru_add :: "string \<Rightarrow> schema \<Rightarrow> schema gmap \<Rightarrow> schema gmap" where
  "lru_add k s l = take 100 ((k, s) # AList.delete k l)"

lemma set_delete_subset: "set (AList.delete k l) \<subseteq> set l"
  by (auto simp: AList.delete_eq)

interpretation lru: lru_store lru_get lru_add set
proof
  show "lru_get k l = (Some s, l') \<Longrightarrow> (k, s) \<in> set l" for k l s l'
    by (auto simp: lru_get_def split: option.splits dest: map_of_SomeD)
  show "set l' \<subseteq> set l" if "lru_get k l = (r, l')" for k l r l'
  proof (cases "map_of l k")
    case None
    then show ?thesis using that by (simp add: lru_get_def)
  next
    case (Some a)
    then have "(k, a) \<in> set l" by (rule map_of_SomeD)
    then show ?thesis using that Some set_delete_subset [of k l] by (auto simp: lru_get_def)
  qed
  show "set (lru_add k s l) \<subseteq> insert (k, s) (set l)" for k s l
    using set_delete_subset [of k l] by (auto simp: lru_add_def dest!: in_set_takeD)
qed

section \<open>Requests and freshness\<close>

lemma calls_now [simp]: "now S w = (r, w') \<Longrightarrow> calls w' = calls w"
  by (auto simp: now_def query_def split: prod.splits)

lemma now_eq:
  "now S w = (Inr (fst (Now S (cluster w))), w\<lparr>cluster := snd (Now S (cluster w))\<rparr>)"
  by (simp add: now_def query_def split: prod.split)

lemma fetchAndSetSchema_calls: "calls (snd (fetchAndSetSchema S w)) = calls w @ [GetOpenAPI]"
  by (simp add: fetchAndSetSchema_def bindA_def wrapA_def external_def liftR_def update_cache_def now_eq
      split: prod.split sum.split)

lemma FetchSchema_hit:
  assumes "resources (cache w) = Some rs" and "fst (Now S (cluster w)) \<le> schemaExpireTimestamp (cache w)"
  shows "FetchSchema S w = (Inr (cached_schema (cache w)), w\<lparr>cluster := snd (Now S (cluster w))\<rparr>)"
  using assms by (simp add: FetchSchema_def bindA_def reads_def ret_def now_eq)

lemma FetchSchema_miss:
  assumes "resources (cache w) = None \<or> schemaExpireTimestamp (cache w) < fst (Now S (cluster w))"
  shows "\<exists>c. FetchSchema S w =
    bindA (wrapA ''failed to refetch API schema'' (fetchAndSetSchema S)) (\<lambda>_. reads (\<lambda>w. cached_schema (cache w)))
      (w\<lparr>cluster := c\<rparr>)"
proof (cases "resources (cache w)")
  case None
  then show ?thesis
    by (intro exI [of _ "cluster w"]) (simp add: FetchSchema_def bindA_def reads_def ret_def)
next
  case (Some rs)
  then show ?thesis
    using assms by (intro exI [of _ "snd (Now S (cluster w))"])
      (simp add: FetchSchema_def bindA_def reads_def ret_def now_eq)
qed

lemma snd_bindA_reads: "snd (bindA m (\<lambda>_. reads f) w) = snd (m w)"
  by (simp add: bindA_def reads_def split: prod.split sum.split)

lemma snd_wrapA: "snd (wrapA msg m w) = snd (m w)"
  by (simp add: wrapA_def split: prod.split)

text \<open>
  C7. \<open>FetchSchema\<close> asks the server exactly when the API resources are not cached yet or the
  schema has expired, and then once; otherwise it returns the cached schema and leaves the cache
  alone.
\<close>

theorem FetchSchema_requests:
  "calls (snd (FetchSchema S w)) = calls w @
     (if resources (cache w) = None \<or> schemaExpireTimestamp (cache w) < fst (Now S (cluster w))
      then [GetOpenAPI] else [])
   \<and> (resources (cache w) \<noteq> None \<and> fst (Now S (cluster w)) \<le> schemaExpireTimestamp (cache w) \<longrightarrow>
      fst (FetchSchema S w) = Inr (cached_schema (cache w)) \<and> cache (snd (FetchSchema S w)) = cache w)"
proof (cases "resources (cache w) = None \<or> schemaExpireTimestamp (cache w) < fst (Now S (cluster w))")
  case True
  then obtain c where "snd (FetchSchema S w) = snd (fetchAndSetSchema S (w\<lparr>cluster := c\<rparr>))"
    using FetchSchema_miss [OF True] by (metis snd_bindA_reads snd_wrapA)
  then have "calls (snd (FetchSchema S w)) = calls w @ [GetOpenAPI]"
    by (simp add: fetchAndSetSchema_calls)
  moreover have "\<not> (resources (cache w) \<noteq> None \<and> fst (Now S (cluster w)) \<le> schemaExpireTimestamp (cache w))"
    using True by (metis not_le)
  ultimately show ?thesis using True by (simp only: if_True simp_thms)
next
  case False
  then obtain rs where "resources (cache w) = Some rs" by auto
  then show ?thesis using False FetchSchema_hit [of w rs S] by simp
qed

text \<open>A server for the examples: its state is the time, it has one CRD and an empty schema.\<close>

definition tick_env :: "(nat, schema gmap) cache_env" where
  "tick_env = \<lparr>Now = (\<lambda>t. (t, Suc t)), srv_OpenAPI = (\<lambda>t. (Inr ''{}'', t)),
     srv_Resources = (\<lambda>t. (Inr (Some []), t)), srv_CRDs = (\<lambda>t. (Inr (Some []), t)),
     UnmarshalSwagger = (\<lambda>_. Inr (Some None)), MarshalProps = (\<lambda>p. Inr p),
     UnmarshalSchema = (\<lambda>js. Inr (Schema [js] [] [] [] None None [])),
     LruNew = (\<lambda>n. []), LruGet = lru_get, LruAdd = lru_add\<rparr>"

definition world_at :: "nat \<Rightarrow> 'l schema_cache \<Rightarrow> (nat, 'l) world" where
  "world_at t sc = \<lparr>cluster = t, cache = sc, watched = [], crdResourceVersion = 0, calls = []\<rparr>"

theorem FetchSchema_requests_witness:
  "fst (FetchSchema tick_env (world_at 5 ((NewSchemaCache tick_env 10)\<lparr>resources := Some [],
      cached_schema := Some None, schemaExpireTimestamp := 7\<rparr>))) = Inr (Some None)"
  by (subst FetchSchema_requests [THEN conjunct2, THEN mp, THEN conjunct1])
     (simp_all add: tick_env_def world_at_def NewSchemaCache_def)

section \<open>Reachable states\<close>

text \<open>
  The methods run in any order, each atomically, with anything else that leaves the cache alone
  in between.
\<close>

inductive cache_reachable :: "('c, 'l, 'z) cache_env_scheme \<Rightarrow> i64 \<Rightarrow> ('c, 'l) world \<Rightarrow> bool"
  for S d where
  new: "cache w = NewSchemaCache S d \<Longrightarrow> cache_reachable S d w"
| elsewhere: "cache_reachable S d w \<Longrightarrow> cache w' = cache w \<Longrightarrow> cache_reachable S d w'"
| expire_schema: "cache_reachable S d w \<Longrightarrow> cache_reachable S d (snd (ExpireSchema S w))"
| expire_resources: "cache_reachable S d w \<Longrightarrow> cache_reachable S d (snd (ExpireResources S w))"
| fetch_schema: "cache_reachable S d w \<Longrightarrow> cache_reachable S d (snd (FetchSchema S w))"
| fetch_resources: "cache_reachable S d w \<Longrightarrow> cache_reachable S d (snd (FetchResources S w))"
| fetch_crd: "cache_reachable S d w \<Longrightarrow> cache_reachable S d (snd (FetchCRD S w))"
| convert: "cache_reachable S d w \<Longrightarrow> cache_reachable S d (snd (CachedConvertSchema S g v w))"

text \<open>The timestamp of the schema is set only together with the schema that it dates.\<close>

definition cache_inv :: "'l schema_cache \<Rightarrow> bool" where
  "cache_inv sc \<longleftrightarrow> (0 < schemaExpireTimestamp sc \<longrightarrow> cached_schema sc \<noteq> None)"

text \<open>The server's OpenAPI document is never the JSON value \<open>null\<close>.\<close>

definition openapi_not_null :: "('c, 'l, 'z) cache_env_scheme \<Rightarrow> bool" where
  "openapi_not_null S \<longleftrightarrow>
     (\<forall>c bs c'. srv_OpenAPI S c = (Inr bs, c') \<longrightarrow> UnmarshalSwagger S bs \<noteq> Inr None)"

lemma openapi_Some:
  assumes "openapi_not_null S" "srv_OpenAPI S c = (Inr bs, c')" "UnmarshalSwagger S bs = Inr x"
  shows "\<exists>y. x = Some y"
  using assms by (cases x) (auto simp: openapi_not_null_def)

abbreviation world_inv :: "('c, 'l) world \<Rightarrow> bool" where
  "world_inv w \<equiv> cache_inv (cache w)"

lemma keeps_now [valid_intros]: "(\<And>w c. I w \<Longrightarrow> I (w\<lparr>cluster := c\<rparr>)) \<Longrightarrow> keeps I (now S)"
  unfolding now_def by (rule keeps_query)

lemma ExpireSchema_inv: "keeps world_inv (ExpireSchema S)"
proof -
  have "world_inv w \<Longrightarrow> world_inv (snd (ExpireSchema S w))" for w
    by (auto simp: ExpireSchema_def bindA_def reads_def ret_def now_eq update_cache_def cache_inv_def)
  then show ?thesis by (simp add: keeps_iff)
qed

lemma ExpireResources_inv: "keeps world_inv (ExpireResources S)"
proof -
  have "world_inv w \<Longrightarrow> world_inv (snd (ExpireResources S w))" for w
    by (auto simp: ExpireResources_def bindA_def reads_def ret_def now_eq update_cache_def cache_inv_def)
  then show ?thesis by (simp add: keeps_iff)
qed

lemma fetchAndSetSchema_inv:
  assumes "openapi_not_null S"
  shows "keeps world_inv (fetchAndSetSchema S)"
proof -
  have "world_inv w \<Longrightarrow> world_inv (snd (fetchAndSetSchema S w))" for w
    by (auto simp: fetchAndSetSchema_def bindA_def wrapA_def external_def liftR_def now_eq update_cache_def
        cache_inv_def wrapR_def of_error_def split: prod.split sum.split dest: openapi_Some [OF assms])
  then show ?thesis by (simp add: keeps_iff)
qed

lemma fetchAndSetResources_inv: "keeps world_inv (fetchAndSetResources S)"
proof -
  have "world_inv w \<Longrightarrow> world_inv (snd (fetchAndSetResources S w))" for w
    by (auto simp: fetchAndSetResources_def bindA_def wrapA_def external_def now_eq update_cache_def
        cache_inv_def split: prod.split sum.split)
  then show ?thesis by (simp add: keeps_iff)
qed

lemma FetchSchema_inv: "openapi_not_null S \<Longrightarrow> keeps world_inv (FetchSchema S)"
  unfolding FetchSchema_def
  by (intro keeps_bindA keeps_reads keeps_if keeps_wrapA keeps_ret keeps_now fetchAndSetSchema_inv) simp_all

lemma FetchResources_inv: "keeps world_inv (FetchResources S)"
  unfolding FetchResources_def
  by (intro keeps_bindA keeps_reads keeps_if keeps_wrapA keeps_ret keeps_now fetchAndSetResources_inv) simp_all

lemma FetchCRD_refetch_inv:
  "keeps world_inv (bindA (wrapA msg (external ListCRDs (srv_CRDs S))) (\<lambda>items.
      bindA (update_cache (\<lambda>c. c\<lparr>crds := items\<rparr>)) (\<lambda>_.
      bindA (now S) (\<lambda>t. update_cache (\<lambda>c. c\<lparr>crdsExpireTimestamp := t + sint (expire c)\<rparr>)))))" (is "keeps _ ?m")
proof -
  have "world_inv w \<Longrightarrow> world_inv (snd (?m w))" for w
    by (auto simp: bindA_def wrapA_def external_def now_eq update_cache_def cache_inv_def
        split: prod.split sum.split)
  then show ?thesis by (simp add: keeps_iff)
qed

lemma FetchCRD_inv: "keeps world_inv (FetchCRD S)"
  unfolding FetchCRD_def
  by (rule keeps_bindA [OF keeps_reads], rule keeps_bindA, (intro keeps_if keeps_bindA keeps_now keeps_ret; simp),
      rule keeps_bindA, (intro keeps_if FetchCRD_refetch_inv keeps_ret), rule keeps_reads)

lemma CachedConvertSchema_inv: "keeps world_inv (CachedConvertSchema S g v)"
proof -
  have "world_inv w \<Longrightarrow> world_inv (snd (CachedConvertSchema S g v w))" for w
    by (auto simp: CachedConvertSchema_def bindA_def reads_def ret_def liftR_def update_cache_def cache_inv_def
        split: prod.split option.split sum.split)
  then show ?thesis by (simp add: keeps_iff)
qed

lemmas cache_ops_inv = ExpireSchema_inv ExpireResources_inv FetchSchema_inv FetchResources_inv FetchCRD_inv
  CachedConvertSchema_inv

lemma cache_reachable_inv:
  assumes "openapi_not_null S"
  shows "cache_reachable S d w \<Longrightarrow> world_inv w"
proof (induction rule: cache_reachable.induct)
  case (new w)
  then show ?case by (simp add: NewSchemaCache_def cache_inv_def)
qed (simp_all only: keepsD [OF ExpireSchema_inv] keepsD [OF ExpireResources_inv] keepsD [OF FetchSchema_inv [OF assms]]
      keepsD [OF FetchResources_inv] keepsD [OF FetchCRD_inv] keepsD [OF CachedConvertSchema_inv])

lemma fetchAndSetSchema_sets:
  "openapi_not_null S \<Longrightarrow> fetchAndSetSchema S w = (Inr u, w') \<Longrightarrow> cached_schema (cache w') \<noteq> None"
  by (auto simp: fetchAndSetSchema_def bindA_def wrapA_def external_def liftR_def now_eq update_cache_def
      wrapR_def of_error_def split: prod.splits sum.splits dest: openapi_Some)

lemma FetchSchema_Some:
  assumes srv: "openapi_not_null S" and inv: "world_inv w" and clock: "0 < fst (Now S (cluster w))" and "FetchSchema S w = (Inr s, w')"
  shows "s \<noteq> None"
proof (cases "resources (cache w) = None \<or> schemaExpireTimestamp (cache w) < fst (Now S (cluster w))")
  case True
  then obtain c where "bindA (wrapA ''failed to refetch API schema'' (fetchAndSetSchema S))
     (\<lambda>_. reads (\<lambda>w. cached_schema (cache w))) (w\<lparr>cluster := c\<rparr>) = (Inr s, w')"
    using FetchSchema_miss [OF True] assms(4) by metis
  then show ?thesis
    by (auto simp: bindA_def wrapA_def reads_def split: prod.splits sum.splits dest: fetchAndSetSchema_sets [OF srv])
next
  case False
  then obtain rs where "resources (cache w) = Some rs" by auto
  then have "s = cached_schema (cache w)" using False FetchSchema_hit [of w rs S] assms(4) by simp
  moreover have "0 < schemaExpireTimestamp (cache w)" using False clock by linarith
  ultimately show ?thesis using inv by (simp add: cache_inv_def)
qed

text \<open>
  The cache never hands out a missing schema: in every state that the methods of the cache
  can reach from a new cache, in any order and with anything else happening in between, a
  successful \<open>FetchSchema\<close> returns a schema, provided the clock reads a time after the zero time
  and the server never answers \<open>null\<close>.
\<close>

theorem FetchSchema_never_nil:
  assumes "openapi_not_null S" and "cache_reachable S d w" and "0 < fst (Now S (cluster w))"
    and "FetchSchema S w = (Inr s, w')"
  shows "s \<noteq> None"
  using assms(1) cache_reachable_inv [OF assms(1,2)] assms(3,4) by (rule FetchSchema_Some)

theorem FetchSchema_never_nil_witness:
  "\<exists>s w'. FetchSchema tick_env (world_at 5 (NewSchemaCache tick_env 10)) = (Inr s, w') \<and> s \<noteq> None"
proof -
  have r: "cache_reachable tick_env 10 (world_at 5 (NewSchemaCache tick_env 10))"
    by (rule cache_reachable.new) (simp add: world_at_def)
  have "\<exists>s w'. FetchSchema tick_env (world_at 5 (NewSchemaCache tick_env 10)) = (Inr s, w')"
    by (simp add: FetchSchema_def fetchAndSetSchema_def tick_env_def world_at_def NewSchemaCache_def bindA_def
        reads_def ret_def wrapA_def external_def liftR_def update_cache_def now_def query_def)
  then show ?thesis
    using FetchSchema_never_nil [OF _ r] by (auto simp: openapi_not_null_def tick_env_def world_at_def)
qed

section \<open>Expiry\<close>

text \<open>A clock that never runs backwards: \<open>time c\<close> is a bound on the readings so far.\<close>

definition monotone_clock :: "('c, 'l, 'z) cache_env_scheme \<Rightarrow> ('c \<Rightarrow> nat) \<Rightarrow> bool" where
  "monotone_clock S time \<longleftrightarrow> (\<forall>c. time c \<le> fst (Now S c) \<and> fst (Now S c) \<le> time (snd (Now S c)))"

lemma monotone_clockD:
  assumes "monotone_clock S time"
  shows "time c \<le> time (snd (Now S c))" "fst (Now S c) \<le> time (snd (Now S c))" "time c \<le> fst (Now S c)"
  using assms order_trans unfolding monotone_clock_def by blast+

lemma ExpireSchema_stamps:
  assumes "monotone_clock S time"
  shows "schemaExpireTimestamp (cache (snd (ExpireSchema S w))) \<le> time (cluster (snd (ExpireSchema S w)))
    \<and> crdsExpireTimestamp (cache (snd (ExpireSchema S w))) \<le> time (cluster (snd (ExpireSchema S w)))"
proof -
  define c1 where "c1 = snd (Now S (cluster w))"
  define c2 where "c2 = (if fst (Now S (cluster w)) < schemaExpireTimestamp (cache w) then snd (Now S c1) else c1)"
  define c3 where "c3 = snd (Now S c2)"
  define c4 where "c4 = (if fst (Now S c2) < crdsExpireTimestamp (cache w) then snd (Now S c3) else c3)"
  have w: "cluster (snd (ExpireSchema S w)) = c4"
    "schemaExpireTimestamp (cache (snd (ExpireSchema S w))) =
       (if fst (Now S (cluster w)) < schemaExpireTimestamp (cache w) then fst (Now S c1) else schemaExpireTimestamp (cache w))"
    "crdsExpireTimestamp (cache (snd (ExpireSchema S w))) =
       (if fst (Now S c2) < crdsExpireTimestamp (cache w) then fst (Now S c3) else crdsExpireTimestamp (cache w))"
    by (simp_all add: ExpireSchema_def bindA_def reads_def ret_def now_eq update_cache_def c1_def c2_def c3_def c4_def)
  note m = monotone_clockD [OF assms]
  have "time c1 \<le> time c2" "fst (Now S (cluster w)) \<le> time c1"
    "fst (Now S (cluster w)) < schemaExpireTimestamp (cache w) \<Longrightarrow> fst (Now S c1) \<le> time c2"
    using m unfolding c1_def c2_def by simp_all
  moreover have "time c2 \<le> time c3" "time c3 \<le> time c4" "fst (Now S c2) \<le> time c3"
    "fst (Now S c2) < crdsExpireTimestamp (cache w) \<Longrightarrow> fst (Now S c3) \<le> time c4"
    using m unfolding c3_def c4_def by simp_all
  ultimately show ?thesis unfolding w by (auto split: if_splits)
qed

lemma FetchCRD_refetch_calls:
  "calls (snd (bindA (wrapA msg (external ListCRDs (srv_CRDs S))) (\<lambda>items.
      bindA (update_cache (\<lambda>c. c\<lparr>crds := items\<rparr>)) (\<lambda>_.
      bindA (now S) (\<lambda>t. update_cache (\<lambda>c. c\<lparr>crdsExpireTimestamp := t + sint (expire c)\<rparr>)))) w)) = calls w @ [ListCRDs]"
  by (cases "srv_CRDs S (cluster w)"; cases "fst (srv_CRDs S (cluster w))")
     (simp_all add: bindA_def wrapA_def external_def now_eq update_cache_def)

lemma FetchCRD_miss:
  assumes "crdsExpireTimestamp (cache w) < fst (Now S (cluster w))"
  shows "calls (snd (FetchCRD S w)) = calls w @ [ListCRDs]"
proof -
  have ex: "\<exists>c. bindA (if crds (cache w) = None then ret True
            else bindA (now S) (\<lambda>t. ret (crdsExpireTimestamp (cache w) < t))) f w = f True (w\<lparr>cluster := c\<rparr>)"
    for f :: "bool \<Rightarrow> ('b, 'a, crd list) wact"
  proof (cases "crds (cache w)")
    case None
    then show ?thesis by (intro exI [of _ "cluster w"]) (simp add: bindA_def ret_def)
  next
    case (Some a)
    then show ?thesis using assms
      by (intro exI [of _ "snd (Now S (cluster w))"]) (simp add: bindA_def ret_def now_eq)
  qed
  let ?F = "\<lambda>refetch. bindA (if refetch then
              bindA (wrapA ''failed to list customresourcedefinitions'' (external ListCRDs (srv_CRDs S))) (\<lambda>items.
              bindA (update_cache (\<lambda>c. c\<lparr>crds := items\<rparr>)) (\<lambda>_.
              bindA (now S) (\<lambda>t. update_cache (\<lambda>c. c\<lparr>crdsExpireTimestamp := t + sint (expire c)\<rparr>))))
            else ret ()) (\<lambda>_.
     reads (\<lambda>w. case crds (cache w) of None \<Rightarrow> [] | Some items \<Rightarrow> items))"
  have "FetchCRD S w = bindA (if crds (cache w) = None then ret True
            else bindA (now S) (\<lambda>t. ret (crdsExpireTimestamp (cache w) < t))) ?F w"
    unfolding FetchCRD_def by (subst bindA_def) (simp only: reads_def prod.case sum.case)
  moreover obtain c where "bindA (if crds (cache w) = None then ret True
            else bindA (now S) (\<lambda>t. ret (crdsExpireTimestamp (cache w) < t))) ?F w = ?F True (w\<lparr>cluster := c\<rparr>)"
    using ex by blast
  ultimately have "FetchCRD S w = ?F True (w\<lparr>cluster := c\<rparr>)" by simp
  then show ?thesis
    by (simp add: snd_bindA_reads FetchCRD_refetch_calls)
qed

text \<open>
  C25. Expiring the cache forces fresh data: once \<open>ExpireSchema\<close> has run and the clock has moved
  on, the next \<open>FetchSchema\<close> asks the server for the schema and the next \<open>FetchCRD\<close> for the CRDs,
  whatever the cache held, as long as nothing refreshed it in between.
\<close>

theorem ExpireSchema_forces_refetch:
  assumes "monotone_clock S time" and "w1 = snd (ExpireSchema S w)"
    and "cache w2 = cache w1" and "time (cluster w1) < fst (Now S (cluster w2))"
  shows "calls (snd (FetchSchema S w2)) = calls w2 @ [GetOpenAPI]
       \<and> calls (snd (FetchCRD S w2)) = calls w2 @ [ListCRDs]"
proof
  have le: "schemaExpireTimestamp (cache w2) < fst (Now S (cluster w2))"
    "crdsExpireTimestamp (cache w2) < fst (Now S (cluster w2))"
    using ExpireSchema_stamps [OF assms(1), of w] assms(2-4) by simp_all
  obtain c where "snd (FetchSchema S w2) = snd (fetchAndSetSchema S (w2\<lparr>cluster := c\<rparr>))"
    using FetchSchema_miss [of w2 S] le(1) by (metis snd_bindA_reads snd_wrapA)
  then show "calls (snd (FetchSchema S w2)) = calls w2 @ [GetOpenAPI]"
    by (simp add: fetchAndSetSchema_calls)
  show "calls (snd (FetchCRD S w2)) = calls w2 @ [ListCRDs]"
    by (rule FetchCRD_miss [OF le(2)])
qed

definition long_lived_cache :: "(nat, schema gmap) world" where
  "long_lived_cache = world_at 5 ((NewSchemaCache tick_env 10)\<lparr>resources := Some [], cached_schema := Some None,
     schemaExpireTimestamp := 1000\<rparr>)"

theorem ExpireSchema_forces_refetch_witness:
  "calls (snd (FetchSchema tick_env ((snd (ExpireSchema tick_env long_lived_cache))\<lparr>cluster := 99\<rparr>))) = [GetOpenAPI]"
proof -
  have "cluster (snd (ExpireSchema tick_env long_lived_cache)) < 99" "calls (snd (ExpireSchema tick_env long_lived_cache)) = []"
    by (simp_all add: long_lived_cache_def tick_env_def world_at_def NewSchemaCache_def ExpireSchema_def bindA_def
        reads_def ret_def now_def query_def update_cache_def)
  then show ?thesis
    using ExpireSchema_forces_refetch [of tick_env "\<lambda>t. t" "snd (ExpireSchema tick_env long_lived_cache)" long_lived_cache
        "(snd (ExpireSchema tick_env long_lived_cache))\<lparr>cluster := 99\<rparr>"]
    by (simp add: monotone_clock_def tick_env_def)
qed

text \<open>
  Expiring the cache does not reach the decoded CRD schemas: a schema that the LRU cache holds
  for a group, version and kind is returned by \<open>CachedConvertSchema\<close> for every later version of the
  CRD as well, also right after \<open>ExpireSchema\<close>.
\<close>

theorem ExpireSchema_keeps_decoded_schemas:
  assumes "LruGet S (schema_key g) (schemaUnmarshalCache (cache w)) = (Some s, l)"
  shows "fst (CachedConvertSchema S g v (snd (ExpireSchema S w))) = Inr s"
proof -
  have "schemaUnmarshalCache (cache (snd (ExpireSchema S w))) = schemaUnmarshalCache (cache w)"
    by (simp add: ExpireSchema_def bindA_def reads_def ret_def now_eq update_cache_def)
  then show ?thesis
    using assms by (simp add: CachedConvertSchema_def bindA_def reads_def ret_def update_cache_def)
qed

theorem ExpireSchema_keeps_decoded_schemas_witness:
  "fst (CachedConvertSchema tick_env \<lparr>Group = ''g'', Version = ''v1'', Kind = ''K''\<rparr>
          \<lparr>ver_Name = ''v1'', ver_Schema = Some (Some ''new'')\<rparr>
     (snd (ExpireSchema tick_env (snd (CachedConvertSchema tick_env \<lparr>Group = ''g'', Version = ''v1'', Kind = ''K''\<rparr>
          \<lparr>ver_Name = ''v1'', ver_Schema = Some (Some ''old'')\<rparr> (world_at 5 (NewSchemaCache tick_env 10)))))))
   = Inr (Schema [''old''] [] [] [] None None [])"
  by (rule ExpireSchema_keeps_decoded_schemas)
     (simp add: CachedConvertSchema_def bindA_def reads_def ret_def update_cache_def liftR_def decode_props_def
        marshal_schema_def tick_env_def world_at_def NewSchemaCache_def lru_get_def lru_add_def)

text \<open>
  The key of the cache of decoded schemas identifies the group, version and kind, as long as
  group and version hold no semicolon (which Kubernetes names cannot).
\<close>

definition no_semicolon :: "gvk \<Rightarrow> bool" where
  "no_semicolon g \<longleftrightarrow> CHR '';'' \<notin> set (Group g) \<and> CHR '';'' \<notin> set (Version g)"

lemma schema_key_eq:
  assumes "schema_key g = schema_key h" "no_semicolon g" "no_semicolon h"
  shows "g = h"
proof -
  have split: "xs = ys \<and> us = vs" if "xs @ CHR '';'' # us = ys @ CHR '';'' # vs"
    "CHR '';'' \<notin> set xs" "CHR '';'' \<notin> set ys" for xs ys us vs :: string
    using arg_cong [OF that(1), of "split2 CHR '';''"] that(2,3) by (simp add: split2_Some)
  have eq: "Group g @ CHR '';'' # ''version='' @ Version g @ CHR '';'' # ''kind='' @ Kind g =
        Group h @ CHR '';'' # ''version='' @ Version h @ CHR '';'' # ''kind='' @ Kind h"
    using assms(1) by (simp add: schema_key_def)
  have "Group g = Group h" and rest: "''version='' @ Version g @ CHR '';'' # ''kind='' @ Kind g =
      ''version='' @ Version h @ CHR '';'' # ''kind='' @ Kind h"
    using split [OF eq] assms(2,3) by (auto simp: no_semicolon_def)
  moreover have "Version g = Version h \<and> ''kind='' @ Kind g = ''kind='' @ Kind h"
    by (rule split) (use rest assms(2,3) in \<open>auto simp: no_semicolon_def\<close>)
  ultimately show ?thesis by simp
qed

end
