(* ===== verification/SchemaManager.thy ===== *)
theory SchemaManager
  imports DuckType SchemaCache
begin

text \<open>
  The schema manager of \<open>k8s/schema_manager.go\<close>: its two constructors (over the schema cache, and
  asking the API server directly), the search for the schema of a kind among the built-in
  definitions and the CRDs, and \<open>DuckType\<close>. The two functions that a manager holds as values,
  \<open>fetchCrdFn\<close> and \<open>convertSchemaFn\<close>, are the interface to its provider; the locale
  \<open>schema_source\<close> is their contract, which both providers meet.
\<close>

text \<open>A manager; \<open>sm_swagger\<close> is the pointer \<open>swagger\<close>. The clients and the logger are not read.\<close>

record ('c, 'l) schema_manager =
  sm_swagger :: "swagger option"
  serverResources :: "api_resource_list list option"
  fetchCrdFn :: "('c, 'l, crd list) wact"
  convertSchemaFn :: "gvk \<Rightarrow> crd_version \<Rightarrow> ('c, 'l, schema) wact"

definition NewSchemaManagerWithCache ::
  "('c, 'l, 'z) cache_env_scheme \<Rightarrow> ('c, 'l, ('c, 'l) schema_manager) wact" where
  "NewSchemaManagerWithCache S =
     bindA (FetchSchema S) (\<lambda>s.
     bindA (wrapA ''failed to list server resources'' (FetchResources S)) (\<lambda>rs.
     ret \<lparr>sm_swagger = s, serverResources = rs, fetchCrdFn = FetchCRD S,
          convertSchemaFn = CachedConvertSchema S\<rparr>))"

definition convertSchema :: "('c, 'l, 'z) cache_env_scheme \<Rightarrow> gvk \<Rightarrow> crd_version \<Rightarrow> ('c, 'l, schema) wact" where
  "convertSchema S g v = liftR (decode_props S ''failed to unmarshal schema from bytes'' v)"

text \<open>The function literal of \<open>NewSchemaManager\<close> that lists the CRDs; ranging over a nil slice does nothing.\<close>

definition listCRDs :: "('c, 'l, 'z) cache_env_scheme \<Rightarrow> ('c, 'l, crd list) wact" where
  "listCRDs S = bindA (external ListCRDs (srv_CRDs S)) (\<lambda>items.
     ret (case items of None \<Rightarrow> [] | Some cs \<Rightarrow> cs))"

definition NewSchemaManager ::
  "('c, 'l, 'z) cache_env_scheme \<Rightarrow> ('c, 'l, ('c, 'l) schema_manager) wact" where
  "NewSchemaManager S =
     bindA (external GetOpenAPI (srv_OpenAPI S)) (\<lambda>bs.
     bindA (wrapA ''failed to unmarshal openapi'' (liftR (of_error (UnmarshalSwagger S bs)))) (\<lambda>s.
     bindA (wrapA ''failed to list server resources'' (external GetServerResources (srv_Resources S))) (\<lambda>rs.
     ret \<lparr>sm_swagger = s, serverResources = rs, fetchCrdFn = listCRDs S,
          convertSchemaFn = convertSchema S\<rparr>)))"

section \<open>The schema of a kind\<close>

definition parseCrdSchemaVersion ::
  "('c, 'l) schema_manager \<Rightarrow> gvk \<Rightarrow> crd_version \<Rightarrow> ('c, 'l, schema option) wact" where
  "parseCrdSchemaVersion m g v =
     (case ver_Schema v of
        Some (Some _) \<Rightarrow> bindA (convertSchemaFn m g v) (\<lambda>s. ret (Some s))
      | _ \<Rightarrow> ret None)"

text \<open>The two nested loops of \<open>findSchemaForCrd\<close>; they end at the first version with a schema.\<close>

fun versions_loop :: "('c, 'l) schema_manager \<Rightarrow> gvk \<Rightarrow> crd_version list \<Rightarrow> ('c, 'l, schema option) wact" where
  "versions_loop m g [] = ret None"
| "versions_loop m g (v # vs) =
     (if ver_Name v = Version g then
        bindA (wrapA ''failed to parse crd version schema'' (parseCrdSchemaVersion m g v)) (\<lambda>r.
        (case r of Some s \<Rightarrow> ret (Some s) | None \<Rightarrow> versions_loop m g vs))
      else versions_loop m g vs)"

fun crds_loop :: "('c, 'l) schema_manager \<Rightarrow> gvk \<Rightarrow> crd list \<Rightarrow> ('c, 'l, schema option) wact" where
  "crds_loop m g [] = ret None"
| "crds_loop m g (c # cs) =
     (if crd_Group c = Group g \<and> crd_Kind c = Kind g then
        bindA (versions_loop m g (crd_Versions c)) (\<lambda>r.
        (case r of Some s \<Rightarrow> ret (Some s) | None \<Rightarrow> crds_loop m g cs))
      else crds_loop m g cs)"

text \<open>The results \<open>(schema, found)\<close> are one option; every nil schema comes with an error.\<close>

definition findSchemaForCrd :: "('c, 'l) schema_manager \<Rightarrow> gvk \<Rightarrow> ('c, 'l, schema option) wact" where
  "findSchemaForCrd m g =
     bindA (wrapA ''failed to list customresourcedefinitions'' (fetchCrdFn m)) (\<lambda>cs.
     bindA (crds_loop m g cs) (\<lambda>r.
     (case r of
        Some s \<Rightarrow> ret (Some s)
      | None \<Rightarrow> raise (Error (''schema for group='' @ Group g @ '' version='' @ Version g @ '' kind='' @ Kind g @ '' not found'')))))"

definition FindSchemaForKind :: "('c, 'l) schema_manager \<Rightarrow> gvk \<Rightarrow> ('c, 'l, schema option) wact" where
  "FindSchemaForKind m g =
     (case sm_swagger m of
        None \<Rightarrow> liftR (Inl nil_deref)
      | Some None \<Rightarrow> raise (Error ''unexpected empty definitions'')
      | Some (Some defs) \<Rightarrow>
          (case map_of defs (getDefinitionName g) of
             None \<Rightarrow> findSchemaForCrd m g
           | Some value \<Rightarrow> if sProps value = [] then findSchemaForCrd m g else ret (Some value)))"

definition definitions :: "('c, 'l) schema_manager \<Rightarrow> schema gmap" where
  "definitions m = (case sm_swagger m of Some (Some defs) \<Rightarrow> defs | _ \<Rightarrow> [])"

definition show_gvk :: "gvk \<Rightarrow> string" where
  "show_gvk g = Group g @ ''/'' @ Version g @ '', Kind='' @ Kind g"

definition FindTypeForKey :: "('c, 'l) schema_manager \<Rightarrow> gvk \<Rightarrow> string \<Rightarrow> ('c, 'l, typed_field option) wact" where
  "FindTypeForKey m g key =
     bindA (wrapA (''error finding kind '' @ show_gvk g) (FindSchemaForKind m g)) (\<lambda>r.
     (case r of
        None \<Rightarrow> raise (Error (''kind '' @ show_gvk g @ '' does not exiting''))
      | Some s \<Rightarrow> liftR (FindTypeForKeyFromSchema (definitions m) s key)))"

text \<open>
  \<open>DuckType\<close> gives the object with its new map; on an error the caller's object stays as it is.
  The converted value of a nil map is a nil interface, on which the type assertion panics.
\<close>

definition DuckType :: "codec \<Rightarrow> ('c, 'l) schema_manager \<Rightarrow> gvk \<Rightarrow> unstructured \<Rightarrow> ('c, 'l, unstructured) wact" where
  "DuckType C m g object =
     bindA (wrapA (''error finding kind '' @ show_gvk g) (FindSchemaForKind m g)) (\<lambda>r.
     (case r of
        None \<Rightarrow> raise (Error (''kind '' @ show_gvk g @ '' does not exist''))
      | Some s \<Rightarrow>
          bindA (wrapA ''failed to duck type object''
                   (liftR (duckType C (definitions m) s (gval_of_object object) ''''))) (\<lambda>newObject.
          (case newObject of
             GMap o' \<Rightarrow> ret (object\<lparr>Object := Some o'\<rparr>)
           | _ \<Rightarrow> liftR (Inl (Panic ''interface conversion: interface {} is not map[string]interface {}''))))))"

section \<open>The contract of the provider\<close>

text \<open>The kind under which a version of a CRD serves.\<close>

definition serves :: "crd \<Rightarrow> crd_version \<Rightarrow> gvk" where
  "serves c v = \<lparr>Group = crd_Group c, Version = ver_Name v, Kind = crd_Kind c\<rparr>"

lemma serves_eq: "crd_Group c = Group g \<and> crd_Kind c = Kind g \<Longrightarrow> ver_Name v = Version g \<Longrightarrow> serves c v = g"
  by (cases g) (simp add: serves_def)

text \<open>
  What the manager relies on: \<open>I\<close> is an invariant of the provider, \<open>auth g v\<close> says that \<open>v\<close> is a
  version of kind \<open>g\<close> that the server has published, and \<open>good g s\<close> that \<open>s\<close> is a schema of \<open>g\<close>.
\<close>

locale schema_source =
  fixes fetch :: "('c, 'l, crd list) wact"
    and convert :: "gvk \<Rightarrow> crd_version \<Rightarrow> ('c, 'l, schema) wact"
    and I :: "('c, 'l) world \<Rightarrow> bool"
    and auth :: "gvk \<Rightarrow> crd_version \<Rightarrow> bool"
    and good :: "gvk \<Rightarrow> schema \<Rightarrow> bool"
  assumes fetch_auth: "valid I fetch (\<lambda>cs w. I w \<and> (\<forall>c \<in> set cs. \<forall>v \<in> set (crd_Versions c). auth (serves c v) v)) (\<lambda>_. I)"
    and convert_good: "auth g v \<Longrightarrow> valid I (convert g v) (\<lambda>s w. good g s \<and> I w) (\<lambda>_. I)"
begin

lemma versions_loop_good:
  assumes "convertSchemaFn m = convert"
    and "\<forall>v \<in> set vs. ver_Name v = Version g \<longrightarrow> auth g v"
  shows "valid I (versions_loop m g vs) (\<lambda>r w. (\<forall>s. r = Some s \<longrightarrow> good g s) \<and> I w) (\<lambda>_. I)"
  using assms(2)
proof (induction vs)
  case Nil
  show ?case by (simp add: valid_ret)
next
  case (Cons v vs)
  have IH: "valid I (versions_loop m g vs) (\<lambda>r w. (\<forall>s. r = Some s \<longrightarrow> good g s) \<and> I w) (\<lambda>_. I)"
    using Cons by simp
  have parse: "valid I (parseCrdSchemaVersion m g v) (\<lambda>r w. (\<forall>s. r = Some s \<longrightarrow> good g s) \<and> I w) (\<lambda>_. I)"
    if "auth g v"
    using convert_good [OF that]
    by (auto simp: parseCrdSchemaVersion_def assms(1) split: option.split intro!: valid_ret valid_bindA)
  show ?case
  proof (cases "ver_Name v = Version g")
    case True
    then have "auth g v" using Cons.prems by simp
    note step = parse [OF this]
    have "valid (\<lambda>w. (\<forall>s. r = Some s \<longrightarrow> good g s) \<and> I w)
       (case r of Some s \<Rightarrow> ret (Some s) | None \<Rightarrow> versions_loop m g vs)
       (\<lambda>r w. (\<forall>s. r = Some s \<longrightarrow> good g s) \<and> I w) (\<lambda>_. I)" for r
      using IH by (cases r) (auto intro: valid_ret)
    then show ?thesis using True by (auto intro!: valid_bindA valid_wrapA step)
  next
    case False
    then show ?thesis using IH by simp
  qed
qed

lemma crds_loop_good:
  assumes "convertSchemaFn m = convert"
    and "\<forall>c \<in> set cs. \<forall>v \<in> set (crd_Versions c). auth (serves c v) v"
  shows "valid I (crds_loop m g cs) (\<lambda>r w. (\<forall>s. r = Some s \<longrightarrow> good g s) \<and> I w) (\<lambda>_. I)"
  using assms(2)
proof (induction cs)
  case Nil
  show ?case by (simp add: valid_ret)
next
  case (Cons c cs)
  have IH: "valid I (crds_loop m g cs) (\<lambda>r w. (\<forall>s. r = Some s \<longrightarrow> good g s) \<and> I w) (\<lambda>_. I)"
    using Cons by simp
  show ?case
  proof (cases "crd_Group c = Group g \<and> crd_Kind c = Kind g")
    case True
    then have "\<forall>v \<in> set (crd_Versions c). ver_Name v = Version g \<longrightarrow> auth g v"
      using Cons.prems serves_eq by (metis list.set_intros(1))
    note step = versions_loop_good [OF assms(1) this]
    have "valid (\<lambda>w. (\<forall>s. r = Some s \<longrightarrow> good g s) \<and> I w)
       (case r of Some s \<Rightarrow> ret (Some s) | None \<Rightarrow> crds_loop m g cs)
       (\<lambda>r w. (\<forall>s. r = Some s \<longrightarrow> good g s) \<and> I w) (\<lambda>_. I)" for r
      using IH by (cases r) (auto intro: valid_ret)
    then show ?thesis using True by (auto intro!: valid_bindA step)
  next
    case False
    then show ?thesis using IH by auto
  qed
qed

lemma findSchemaForCrd_good:
  assumes "fetchCrdFn m = fetch" "convertSchemaFn m = convert"
  shows "valid I (findSchemaForCrd m g) (\<lambda>r w. (\<exists>s. r = Some s \<and> good g s) \<and> I w) (\<lambda>_. I)"
proof -
  have loop: "valid (\<lambda>w. I w \<and> (\<forall>c \<in> set cs. \<forall>v \<in> set (crd_Versions c). auth (serves c v) v))
     (crds_loop m g cs) (\<lambda>r w. (\<forall>s. r = Some s \<longrightarrow> good g s) \<and> I w) (\<lambda>_. I)" for cs
    using crds_loop_good [OF assms(2), of cs g] by (auto simp: valid_def)
  have last: "valid (\<lambda>w. (\<forall>s. r = Some s \<longrightarrow> good g s) \<and> I w)
     (case r of Some s \<Rightarrow> ret (Some s) | None \<Rightarrow> raise e)
     (\<lambda>r w. (\<exists>s. r = Some s \<and> good g s) \<and> I w) (\<lambda>_. I)" for r e
    by (cases r) (auto intro!: valid_ret valid_raise)
  show ?thesis
    unfolding findSchemaForCrd_def assms(1)
    by (rule valid_bindA [OF valid_wrapA [OF fetch_auth]], rule valid_bindA [OF loop last])
qed

lemma FindSchemaForKind_good:
  assumes "fetchCrdFn m = fetch" "convertSchemaFn m = convert"
  shows "valid I (FindSchemaForKind m g)
    (\<lambda>r w. (\<exists>s. r = Some s \<and>
        (map_of (definitions m) (getDefinitionName g) = Some s \<and> sProps s \<noteq> [] \<or> good g s)) \<and> I w) (\<lambda>_. I)"
proof -
  let ?Q = "\<lambda>r w. (\<exists>s. r = Some s \<and>
        (map_of (definitions m) (getDefinitionName g) = Some s \<and> sProps s \<noteq> [] \<or> good g s)) \<and> I w"
  have crd: "valid I (findSchemaForCrd m g) ?Q (\<lambda>_. I)"
    by (rule valid_consequence [OF findSchemaForCrd_good [OF assms, of g]]) blast+
  show ?thesis
  proof (cases "\<exists>defs. sm_swagger m = Some (Some defs)")
    case True
    then obtain defs where m: "sm_swagger m = Some (Some defs)" by blast
    show ?thesis
    proof (cases "map_of defs (getDefinitionName g)")
      case None
      then show ?thesis using crd m by (simp add: FindSchemaForKind_def)
    next
      case (Some s)
      then show ?thesis
        using crd m by (cases "sProps s = []") (simp_all add: FindSchemaForKind_def definitions_def valid_ret)
    qed
  next
    case False
    then show ?thesis
      by (auto simp: FindSchemaForKind_def valid_raise valid_def liftR_def raise_def split: option.split)
  qed
qed

end

section \<open>The two providers\<close>

text \<open>What the server may list, and what a version decodes to.\<close>

definition published :: "('c, 'l, 'z) cache_env_scheme \<Rightarrow> gvk \<Rightarrow> crd_version \<Rightarrow> bool" where
  "published S g v \<longleftrightarrow> (\<exists>c cs c' cr. srv_CRDs S c = (Inr (Some cs), c') \<and> cr \<in> set cs \<and>
     v \<in> set (crd_Versions cr) \<and> g = serves cr v)"

definition decodes :: "('c, 'l, 'z) cache_env_scheme \<Rightarrow> crd_version \<Rightarrow> schema \<Rightarrow> bool" where
  "decodes S v s \<longleftrightarrow> decode_props S '''' v = Inr s"

definition genuine :: "('c, 'l, 'z) cache_env_scheme \<Rightarrow> gvk \<Rightarrow> schema \<Rightarrow> bool" where
  "genuine S g s \<longleftrightarrow> (\<exists>v. published S g v \<and> decodes S v s)"

definition stored_genuine :: "('c, 'l, 'z) cache_env_scheme \<Rightarrow> string \<Rightarrow> schema \<Rightarrow> bool" where
  "stored_genuine S k s \<longleftrightarrow> (\<exists>g. schema_key g = k \<and> genuine S g s)"

definition crds_published :: "('c, 'l, 'z) cache_env_scheme \<Rightarrow> crd list option \<Rightarrow> bool" where
  "crds_published S cs \<longleftrightarrow> (\<forall>l. cs = Some l \<longrightarrow> (\<forall>c \<in> set l. \<forall>v \<in> set (crd_Versions c). published S (serves c v) v))"

lemma decodes_msg: "decode_props S msg v = Inr s \<Longrightarrow> decodes S v s"
  by (auto simp: decodes_def decode_props_def bindR_eq_Inr)

lemma crds_published_answer: "srv_CRDs S c = (Inr cs, c') \<Longrightarrow> crds_published S cs"
  unfolding crds_published_def published_def by blast

interpretation direct: schema_source "listCRDs S" "convertSchema S" "\<lambda>_. True" "published S" "genuine S" for S
proof
  show "valid (\<lambda>_. True) (listCRDs S)
     (\<lambda>cs w. True \<and> (\<forall>c \<in> set cs. \<forall>v \<in> set (crd_Versions c). published S (serves c v) v)) (\<lambda>_ _. True)"
    using crds_published_answer [of S]
    by (fastforce simp: valid_def listCRDs_def bindA_def external_def ret_def crds_published_def
        split: prod.splits sum.splits option.splits)
  show "valid (\<lambda>_. True) (convertSchema S g v) (\<lambda>s w. genuine S g s \<and> True) (\<lambda>_ _. True)"
    if "published S g v" for g v
    unfolding convertSchema_def using that by (intro valid_liftR) (auto simp: genuine_def dest: decodes_msg)
qed

text \<open>The cache over any LRU store that keeps the contract.\<close>

locale lru_cache_env = lru_store get add content
  for get :: "string \<Rightarrow> 'l \<Rightarrow> schema option \<times> 'l" and add :: "string \<Rightarrow> schema \<Rightarrow> 'l \<Rightarrow> 'l"
    and content :: "'l \<Rightarrow> (string \<times> schema) set" +
  fixes S :: "('c, 'l, 'z) cache_env_scheme"
  assumes env: "LruGet S = get" "LruAdd S = add"
begin

definition sound :: "('c, 'l) world \<Rightarrow> bool" where
  "sound w \<longleftrightarrow> crds_published S (crds (cache w)) \<and> all_stored (stored_genuine S) (schemaUnmarshalCache (cache w))"

lemma FetchCRD_sound:
  "valid sound (FetchCRD S) (\<lambda>cs w. sound w \<and> (\<forall>c \<in> set cs. \<forall>v \<in> set (crd_Versions c). published S (serves c v) v)) (\<lambda>_. sound)"
proof -
  have refetch: "keeps sound (bindA (wrapA msg (external ListCRDs (srv_CRDs S))) (\<lambda>items.
      bindA (update_cache (\<lambda>c. c\<lparr>crds := items\<rparr>)) (\<lambda>_.
      bindA (now S) (\<lambda>t. update_cache (\<lambda>c. c\<lparr>crdsExpireTimestamp := t + sint (expire c)\<rparr>)))))" (is "keeps _ ?m") for msg
  proof -
    have "sound w \<Longrightarrow> sound (snd (?m w))" for w
      using crds_published_answer [of S "cluster w"]
      by (cases "srv_CRDs S (cluster w)"; cases "fst (srv_CRDs S (cluster w))")
         (auto simp: bindA_def wrapA_def external_def now_eq update_cache_def sound_def)
    then show ?thesis by (simp add: keeps_iff)
  qed
  have last: "valid sound (reads (\<lambda>w. case crds (cache w) of None \<Rightarrow> [] | Some items \<Rightarrow> items))
     (\<lambda>cs w. sound w \<and> (\<forall>c \<in> set cs. \<forall>v \<in> set (crd_Versions c). published S (serves c v) v)) (\<lambda>_. sound)"
  proof -
    have "\<forall>c \<in> set (case cs of None \<Rightarrow> [] | Some items \<Rightarrow> items). \<forall>v \<in> set (crd_Versions c). published S (serves c v) v"
      if "crds_published S cs" for cs
      using that by (cases cs) (simp_all add: crds_published_def)
    then show ?thesis unfolding valid_def reads_def sound_def prod.case sum.case by blast
  qed
  have keep: "keeps sound (now S)" by (rule keeps_now) (simp add: sound_def)
  have v: "keeps sound m \<Longrightarrow> valid sound m (\<lambda>_. sound) (\<lambda>_. sound)" for m :: "('c, 'l, 'x) wact"
    by (simp add: keeps_def)
  show ?thesis
    unfolding FetchCRD_def
    by (rule valid_bindA [OF v [OF keeps_reads]], rule valid_bindA [OF v], intro keeps_if keeps_bindA keep keeps_ret,
        rule valid_bindA [OF v last], intro keeps_if refetch keeps_ret)
qed

lemma CachedConvertSchema_sound:
  assumes "published S g v"
  shows "valid sound (CachedConvertSchema S g v) (\<lambda>s w. stored_genuine S (schema_key g) s \<and> sound w) (\<lambda>_. sound)"
proof -
  have "stored_genuine S (schema_key g) s" if "decode_props S msg v = Inr s" for s msg
    using assms decodes_msg [OF that] by (auto simp: stored_genuine_def genuine_def)
  then have store: "valid (\<lambda>w. all_stored (stored_genuine S) (schemaUnmarshalCache (cache w))) (CachedConvertSchema S g v)
     (\<lambda>s w. stored_genuine S (schema_key g) s \<and> all_stored (stored_genuine S) (schemaUnmarshalCache (cache w)))
     (\<lambda>_ w. all_stored (stored_genuine S) (schemaUnmarshalCache (cache w)))"
    by (intro CachedConvertSchema_valid [OF env]) blast
  have crds: "crds (cache (snd (CachedConvertSchema S g v w))) = crds (cache w)" for w
    by (cases "LruGet S (schema_key g) (schemaUnmarshalCache (cache w))";
        cases "fst (LruGet S (schema_key g) (schemaUnmarshalCache (cache w)))";
        cases "decode_props S ''failed to decode json into spec.Schema'' v")
       (simp_all add: CachedConvertSchema_def bindA_def reads_def update_cache_def ret_def liftR_def)
  have "keeps (\<lambda>w. crds_published S (crds (cache w))) (CachedConvertSchema S g v)"
    by (simp add: keeps_iff crds)
  then show ?thesis
    using valid_keeps [OF store] unfolding sound_def by (blast intro: valid_consequence)
qed

end

sublocale lru_cache_env \<subseteq> schema_source "FetchCRD S" "CachedConvertSchema S" sound "published S"
  "\<lambda>g. stored_genuine S (schema_key g)"
  by unfold_locales (rule FetchCRD_sound, rule CachedConvertSchema_sound)

interpretation lru_env: lru_cache_env lru_get lru_add set "S\<lparr>LruGet := lru_get, LruAdd := lru_add\<rparr>" for S
  by unfold_locales simp_all

section \<open>Genuine schemas\<close>

text \<open>The invariant of the cache that \<open>sound\<close> states, for a store with the given content.\<close>

definition cache_sound ::
  "('c, 'l, 'z) cache_env_scheme \<Rightarrow> ('l \<Rightarrow> (string \<times> schema) set) \<Rightarrow> ('c, 'l) world \<Rightarrow> bool" where
  "cache_sound S content w \<longleftrightarrow> crds_published S (crds (cache w)) \<and>
     (\<forall>(k, s) \<in> content (schemaUnmarshalCache (cache w)). stored_genuine S k s)"

lemma cache_sound_iff:
  assumes "lru_cache_env get add content S"
  shows "cache_sound S content w \<longleftrightarrow> lru_cache_env.sound content S w"
  using lru_cache_env.axioms(1) [OF assms]
  by (simp add: cache_sound_def lru_cache_env.sound_def [OF assms] lru_store.all_stored_def)

text \<open>
  C3. Over a cache that keeps the LRU contract, the schema manager gives for a kind either its
  built-in definition, with properties, or a schema decoded from a CRD version that the API server
  published for this very group, version and kind, however often the cache was used before; and
  every call keeps the cache in this condition. Names of groups and versions hold no semicolon.
\<close>

theorem FindSchemaForKind_genuine:
  assumes "lru_store (LruGet S) (LruAdd S) content" and "cache_sound S content w"
    and "NewSchemaManagerWithCache S w0 = (Inr m, w1)"
    and "no_semicolon g" and "\<forall>h v. published S h v \<longrightarrow> no_semicolon h"
    and "FindSchemaForKind m g w = (Inr r, w')"
  shows "cache_sound S content w' \<and> (\<exists>s. r = Some s \<and>
    (map_of (definitions m) (getDefinitionName g) = Some s \<and> sProps s \<noteq> [] \<or> genuine S g s))"
proof -
  have env: "lru_cache_env (LruGet S) (LruAdd S) content S"
    using assms(1) by (simp add: lru_cache_env_def lru_cache_env_axioms_def)
  have src: "schema_source (FetchCRD S) (CachedConvertSchema S) (lru_cache_env.sound content S) (published S)
    (\<lambda>g. stored_genuine S (schema_key g))"
    by (rule lru_cache_env.FetchCRD_sound [OF env, THEN schema_source.intro])
       (rule lru_cache_env.CachedConvertSchema_sound [OF env])
  have m: "fetchCrdFn m = FetchCRD S" "convertSchemaFn m = CachedConvertSchema S"
    using assms(3) by (auto simp: NewSchemaManagerWithCache_def bindA_def wrapA_def ret_def split: prod.splits sum.splits)
  have "genuine S g s" if "stored_genuine S (schema_key g) s" for s
    using that assms(4,5) schema_key_eq [of _ g] unfolding stored_genuine_def genuine_def by metis
  then show ?thesis
    using validD [OF schema_source.FindSchemaForKind_good [OF src m] _ assms(6)] assms(2)
    unfolding cache_sound_iff [OF env] by blast
qed

text \<open>A server with one CRD, and no built-in definitions.\<close>

definition kind_K :: gvk where
  "kind_K = \<lparr>Group = ''g'', Version = ''v1'', Kind = ''K''\<rparr>"

definition version_K :: crd_version where
  "version_K = \<lparr>ver_Name = ''v1'', ver_Schema = Some (Some ''string'')\<rparr>"

definition crd_env :: "(nat, schema gmap) cache_env" where
  "crd_env = tick_env\<lparr>srv_CRDs := (\<lambda>t. (Inr (Some [\<lparr>crd_Group = ''g'', crd_Kind = ''K'', crd_Versions = [version_K]\<rparr>]), t)),
     UnmarshalSwagger := (\<lambda>_. Inr (Some (Some [])))\<rparr>"

definition crd_world :: "(nat, schema gmap) world" where
  "crd_world = world_at 5 (NewSchemaCache crd_env 10)"

lemmas crd_example = crd_world_def crd_env_def tick_env_def kind_K_def version_K_def world_at_def

lemma crd_manager:
  "NewSchemaManagerWithCache crd_env crd_world =
    (Inr \<lparr>sm_swagger = Some (Some []), serverResources = Some [], fetchCrdFn = FetchCRD crd_env,
       convertSchemaFn = CachedConvertSchema crd_env\<rparr>,
     \<lparr>cluster = 7, cache = (NewSchemaCache crd_env 10)\<lparr>resources := Some [], resourcesExpireTimestamp := 16,
        cached_schema := Some (Some []), schemaExpireTimestamp := 15\<rparr>,
      watched = [], crdResourceVersion = 0, calls = [GetOpenAPI, GetServerResources]\<rparr>)"
  by (simp add: NewSchemaManagerWithCache_def FetchSchema_def fetchAndSetSchema_def FetchResources_def
      fetchAndSetResources_def NewSchemaCache_def bindA_def reads_def ret_def wrapA_def external_def liftR_def
      update_cache_def now_def query_def crd_example)

lemma crd_find:
  assumes "m = fst (NewSchemaManagerWithCache crd_env crd_world)" and "w = snd (NewSchemaManagerWithCache crd_env crd_world)"
  shows "\<exists>w'. FindSchemaForKind (projr m) kind_K w = (Inr (Some (Schema [''string''] [] [] [] None None [])), w')"
  unfolding assms crd_manager
  by (simp add: FindSchemaForKind_def findSchemaForCrd_def FetchCRD_def CachedConvertSchema_def parseCrdSchemaVersion_def
      decode_props_def marshal_schema_def NewSchemaCache_def bindA_def reads_def ret_def wrapA_def external_def liftR_def
      update_cache_def now_def query_def crd_example lru_get_def lru_add_def)

theorem FindSchemaForKind_genuine_witness:
  "\<exists>s. fst (FindSchemaForKind (projr (fst (NewSchemaManagerWithCache crd_env crd_world))) kind_K
       (snd (NewSchemaManagerWithCache crd_env crd_world))) = Inr (Some s) \<and> genuine crd_env kind_K s"
proof -
  have sound: "cache_sound crd_env set (snd (NewSchemaManagerWithCache crd_env crd_world))"
    unfolding crd_manager by (simp add: cache_sound_def crds_published_def NewSchemaCache_def crd_example)
  have names: "\<forall>h v. published crd_env h v \<longrightarrow> no_semicolon h"
    by (auto simp: published_def crd_example serves_def no_semicolon_def)
  have lru: "lru_store (LruGet crd_env) (LruAdd crd_env) set"
    using lru.lru_store_axioms by (simp add: crd_env_def tick_env_def)
  obtain w' where find: "FindSchemaForKind (projr (fst (NewSchemaManagerWithCache crd_env crd_world))) kind_K
     (snd (NewSchemaManagerWithCache crd_env crd_world)) = (Inr (Some (Schema [''string''] [] [] [] None None [])), w')"
    using crd_find by blast
  show ?thesis
    using FindSchemaForKind_genuine [OF lru sound _ _ names find, of crd_world] find
    by (simp add: crd_manager definitions_def no_semicolon_def kind_K_def)
qed

section \<open>The first matching version\<close>

text \<open>The versions of a kind that carry a schema, in the order of the CRD list.\<close>

definition candidates :: "gvk \<Rightarrow> crd list \<Rightarrow> crd_version list" where
  "candidates g cs = filter (\<lambda>v. ver_Name v = Version g \<and> (\<exists>p. ver_Schema v = Some (Some p)))
     (concat (map crd_Versions (filter (\<lambda>c. crd_Group c = Group g \<and> crd_Kind c = Kind g) cs)))"

definition convert_first :: "('c, 'l) schema_manager \<Rightarrow> gvk \<Rightarrow> crd_version list \<Rightarrow> ('c, 'l, schema option) wact" where
  "convert_first m g vs =
     (case vs of
        [] \<Rightarrow> ret None
      | v # _ \<Rightarrow> bindA (wrapA ''failed to parse crd version schema'' (convertSchemaFn m g v)) (\<lambda>s. ret (Some s)))"

lemma wrapA_map: "wrapA msg (bindA m (\<lambda>s. ret (f s))) = bindA (wrapA msg m) (\<lambda>s. ret (f s))"
  by (auto simp: bindA_def wrapA_def ret_def fun_eq_iff split: prod.split sum.split)

lemma versions_loop_first:
  "versions_loop m g vs = convert_first m g (filter (\<lambda>v. ver_Name v = Version g \<and> (\<exists>p. ver_Schema v = Some (Some p))) vs)"
  by (induction vs) (auto simp: convert_first_def parseCrdSchemaVersion_def wrapA_map bindA_assoc split: option.split)

lemma crds_loop_first: "crds_loop m g cs = convert_first m g (candidates g cs)"
proof (induction cs)
  case Nil
  show ?case by (simp add: candidates_def convert_first_def)
next
  case (Cons c cs)
  have "bindA (convert_first m g vs) (\<lambda>r. case r of Some s \<Rightarrow> ret (Some s) | None \<Rightarrow> convert_first m g vs') =
      convert_first m g (vs @ vs')" for vs vs'
    by (cases vs) (simp_all add: convert_first_def bindA_assoc)
  then show ?case using Cons by (simp add: versions_loop_first candidates_def)
qed

text \<open>
  C31. \<open>FindSchemaForKind\<close> on a manager with definitions: a built-in definition that has properties
  is returned without any request; otherwise the CRDs are fetched and the answer is the decoded
  schema of the first version, in list order, of a CRD with the group and the kind, that has the
  version's name and a schema; without one the call fails.
\<close>

theorem FindSchemaForKind_first:
  assumes "sm_swagger m = Some (Some defs)" and "fetchCrdFn m w = (Inr cs, w1)"
  shows "FindSchemaForKind m g w =
    (if \<exists>s. map_of defs (getDefinitionName g) = Some s \<and> sProps s \<noteq> []
     then (Inr (map_of defs (getDefinitionName g)), w)
     else case candidates g cs of
            [] \<Rightarrow> (Inl (Fail (Error (''schema for group='' @ Group g @ '' version='' @ Version g @ '' kind='' @ Kind g @ '' not found''))), w1)
          | v # _ \<Rightarrow> bindA (wrapA ''failed to parse crd version schema'' (convertSchemaFn m g v)) (\<lambda>s. ret (Some s)) w1)"
proof -
  have "findSchemaForCrd m g w =
    (case candidates g cs of
       [] \<Rightarrow> (Inl (Fail (Error (''schema for group='' @ Group g @ '' version='' @ Version g @ '' kind='' @ Kind g @ '' not found''))), w1)
     | v # _ \<Rightarrow> bindA (wrapA ''failed to parse crd version schema'' (convertSchemaFn m g v)) (\<lambda>s. ret (Some s)) w1)"
  proof (cases "candidates g cs")
    case Nil
    then show ?thesis
      using assms(2) by (simp add: findSchemaForCrd_def crds_loop_first convert_first_def bindA_def wrapA_def ret_def raise_def)
  next
    case (Cons v vs)
    have "findSchemaForCrd m g w = bindA (convert_first m g (v # vs)) (\<lambda>r. case r of Some s \<Rightarrow> ret (Some s)
      | None \<Rightarrow> raise (Error (''schema for group='' @ Group g @ '' version='' @ Version g @ '' kind='' @ Kind g @ '' not found''))) w1"
      using assms(2) unfolding findSchemaForCrd_def crds_loop_first by (subst bindA_def) (simp add: wrapA_def Cons)
    then show ?thesis by (simp add: Cons convert_first_def bindA_assoc)
  qed
  then show ?thesis
    using assms(1) by (cases "map_of defs (getDefinitionName g)") (auto simp: FindSchemaForKind_def ret_def)
qed

theorem FindSchemaForKind_first_witness:
  "fst (FindSchemaForKind \<lparr>sm_swagger = Some (Some [(''io.k8s.api.core.v1.Pod'', Schema [] [] [] [] None None [])]),
        serverResources = None, fetchCrdFn = listCRDs crd_env, convertSchemaFn = convertSchema crd_env\<rparr>
      kind_K crd_world) = Inr (Some (Schema [''string''] [] [] [] None None []))"
proof -
  let ?c = "\<lparr>crd_Group = ''g'', crd_Kind = ''K'', crd_Versions = [version_K]\<rparr>"
  let ?m = "\<lparr>sm_swagger = Some (Some [(''io.k8s.api.core.v1.Pod'', Schema [] [] [] [] None None [])]),
        serverResources = None, fetchCrdFn = listCRDs crd_env, convertSchemaFn = convertSchema crd_env\<rparr>"
  obtain w1 where fetch: "fetchCrdFn ?m crd_world = (Inr [?c], w1)"
    by (simp add: listCRDs_def bindA_def ret_def external_def crd_env_def)
  have cands: "candidates kind_K [?c] = [version_K]"
    by (simp add: candidates_def kind_K_def version_K_def)
  show ?thesis
    using FindSchemaForKind_first [OF _ fetch, of "[(''io.k8s.api.core.v1.Pod'', Schema [] [] [] [] None None [])]" kind_K]
    by (simp add: cands) (simp add: getDefinitionName_def kind_K_def version_K_def convertSchema_def liftR_def
          bindA_def ret_def wrapA_def decode_props_def marshal_schema_def crd_env_def tick_env_def)
qed

section \<open>DuckType\<close>

lemma duckMap_fields:
  "duckMap C defs s o1 '''' = Inr o2 \<Longrightarrow>
    map fst o2 = map fst o1 \<and> (\<forall>k v. map_of o1 k = Some v \<longrightarrow>
      (\<exists>v'. map_of o2 k = Some v' \<and> duckType C defs s v (escapeDot k) = Inr v'))"
  by (induction o1 arbitrary: o2) (auto split: sum.splits)

text \<open>
  A successful \<open>DuckType\<close> keeps the set of fields of the object and replaces the value of each
  field by its conversion under the field's (escaped) name, by the schema that
  \<open>FindSchemaForKind\<close> gives; it makes no call beyond those of \<open>FindSchemaForKind\<close>.
\<close>

theorem DuckType_fields:
  assumes "FindSchemaForKind m g w = (Inr (Some s), w1)" and "DuckType C m g u w = (Inr u', w')"
  shows "w' = w1 \<and> map fst (entries u') = map fst (entries u) \<and>
    (\<forall>k v. map_of (entries u) k = Some v \<longrightarrow>
      (\<exists>v'. map_of (entries u') k = Some v' \<and> duckType C (definitions m) s v (escapeDot k) = Inr v'))"
proof (cases "Object u")
  case None
  then show ?thesis
    using assms by (simp add: DuckType_def bindA_def wrapA_def liftR_def gval_of_object_def)
next
  case (Some fields)
  obtain fields' where "duckMap C (definitions m) s fields '''' = Inr fields'" and "u' = u\<lparr>Object := Some fields'\<rparr>" "w' = w1"
    using assms Some
    by (cases "duckMap C (definitions m) s fields ''''")
       (auto simp: DuckType_def bindA_def wrapA_def liftR_def gval_of_object_def ret_def)
  then show ?thesis using Some duckMap_fields by (simp add: entries_def)
qed

theorem DuckType_fields_witness:
  "\<exists>u' w'. DuckType null_codec \<lparr>sm_swagger = Some (Some []), serverResources = None, fetchCrdFn = listCRDs crd_env,
        convertSchemaFn = convertSchema crd_env\<rparr> kind_K \<lparr>Object = Some [(''a'', GBool True)]\<rparr> crd_world = (Inr u', w')
     \<and> map fst (entries u') = [''a'']"
proof -
  let ?m = "\<lparr>sm_swagger = Some (Some []), serverResources = None, fetchCrdFn = listCRDs crd_env,
        convertSchemaFn = convertSchema crd_env\<rparr>"
  obtain w1 where find: "FindSchemaForKind ?m kind_K crd_world = (Inr (Some (Schema [''string''] [] [] [] None None [])), w1)"
    by (simp add: FindSchemaForKind_def findSchemaForCrd_def parseCrdSchemaVersion_def listCRDs_def convertSchema_def bindA_def
        ret_def external_def wrapA_def liftR_def decode_props_def marshal_schema_def crd_example)
  moreover have "\<exists>u' w'. DuckType null_codec ?m kind_K \<lparr>Object = Some [(''a'', GBool True)]\<rparr> crd_world = (Inr u', w')"
    using find by (simp add: DuckType_def bindA_def wrapA_def ret_def liftR_def gval_of_object_def duckLeaf_def
        FindTypeForKeyFromSchema_def findTypeForKey.simps property_schema_def escapeDot_def replace_char_def definitions_def)
  ultimately show ?thesis
    using DuckType_fields [OF find] by (fastforce simp: entries_def)
qed

end
