(* ===== verification/Environment.thy ===== *)
theory Environment
  imports SchemaManager
begin

text \<open>
  Everything outside \<open>src/\<close> that the template side calls, as one record over the record of the
  schema cache: kommons (\<open>Client\<close>), client-go, text/template with the ktemplate functions, the YAML
  and JSON libraries, gjson, glob, tar and gzip, kustomize. Operations that read or change the
  cluster are of type \<open>ext\<close>; the others are functions of their arguments. Go passes objects by
  pointer to \<open>ApplyUnstructured\<close>, so its result is the object as the call leaves it.
\<close>

type_synonym go_template = string

text \<open>The value given to \<open>yaml.Marshal\<close>: a Go map (None if nil), or a pointer to an object.\<close>

datatype yaml_value = YMap "gval gmap option" | YObject unstructured

text \<open>What \<open>gjson.Get\<close> finds, with the values it converts.\<close>

datatype gjson_value = GjAbsent | GjArray "gval list" | GjObject "gval gmap" | GjScalar

text \<open>What the successive calls of \<open>tarReader.Next\<close> give, until \<open>io.EOF\<close> at the end of the list; a
  header comes with the outcome of reading its file.\<close>

datatype typeflag = TypeDir | TypeReg | TypeOther
datatype tar_event = Header string typeflag "gerror + string" | BadHeader gerror

text \<open>The fields of \<open>types.Kustomization\<close> that \<open>Apply\<close> sets.\<close>

record json6902 =
  target_Gvk :: gvk
  target_Name :: string
  target_Namespace :: string
  target_Path :: string

record kustomization =
  kus_Resources :: "string list"
  PatchesStrategicMerge :: "string list"
  PatchesJson6902 :: "json6902 list"

text \<open>\<open>ctrl.Result\<close>; durations are nanoseconds.\<close>

record ctrl_result =
  Requeue :: bool
  RequeueAfter :: nat

definition no_result :: ctrl_result where
  "no_result = \<lparr>Requeue = False, RequeueAfter = 0\<rparr>"

definition minute :: nat where
  "minute = 60 * 10 ^ 9"

record ('c, 'l) k8s_env = "('c, 'l) cache_env" +
  Meta :: meta_ops
  Codec :: codec
  \<comment> \<open>text/template\<close>
  TplParse :: "go_template \<Rightarrow> gerror option"
  TplExecute :: "go_template \<Rightarrow> gval \<Rightarrow> ('c, string) ext"
  \<comment> \<open>encoding/json, the YAML libraries, gjson\<close>
  MarshalJSON :: "gval \<Rightarrow> gerror + string"
  UnmarshalMap :: "string \<Rightarrow> gerror + gval gmap option"
  UnmarshalWhen :: "string \<Rightarrow> gerror + string"
  UnmarshalForEach :: "string \<Rightarrow> gerror + string"
  GjsonGet :: "string \<Rightarrow> string \<Rightarrow> gjson_value"
  JSONToYAML :: "string \<Rightarrow> gerror + string"
  YamlMarshal :: "yaml_value \<Rightarrow> gerror + string"
  YamlUnmarshal :: "string \<Rightarrow> gerror + gval gmap option"
  FyamlUnmarshal :: "string \<Rightarrow> gerror + gval gmap option"
  UnmarshalResource :: "string \<Rightarrow> gerror + unstructured"
  SprintOther :: "gval \<Rightarrow> string"
  \<comment> \<open>kustomize\<close>
  MarshalKustomization :: "kustomization \<Rightarrow> gerror + string"
  RunKustomize :: "string gmap \<Rightarrow> gerror + (gerror + string) list"
  \<comment> \<open>labels\<close>
  LabelSelectorAsMap :: "label_selector \<Rightarrow> gerror + string gmap"
  SelectorString :: "string gmap \<Rightarrow> string"
  \<comment> \<open>kommons and client-go\<close>
  GetClientset :: "('c, unit) ext"
  GetRESTConfig :: "('c, unit) ext"
  NewCrdClient :: "('c, unit) ext"
  GetDynamicClient :: "('c, unit) ext"
  WaitForRestMapping :: "unstructured \<Rightarrow> ('c, bool) ext" \<comment> \<open>True for the root scope\<close>
  GetClientByKind :: "string \<Rightarrow> ('c, unit) ext"
  srv_ListNamespaces :: "string \<Rightarrow> ('c, string list) ext"
  srv_List :: "string \<Rightarrow> string \<Rightarrow> string \<Rightarrow> string \<Rightarrow> ('c, unstructured list) ext"
  srv_Apply :: "string \<Rightarrow> unstructured \<Rightarrow> ('c, unstructured) ext"
  srv_SetCondition :: "unstructured \<Rightarrow> string \<Rightarrow> string \<Rightarrow> ('c, unit) ext"
  IsTrivialType :: "unstructured \<Rightarrow> bool"
  Refresh :: "unstructured \<Rightarrow> ('c, unstructured) ext"
  IsReady :: "unstructured \<Rightarrow> bool \<times> string"
  GetUnstructuredObjects :: "string \<Rightarrow> gerror + unstructured list"
  StripIdentifiers :: "unstructured \<Rightarrow> unstructured"
  ToUnstructured :: "template \<Rightarrow> gerror + unstructured"
  \<comment> \<open>the git source\<close>
  GetRestMapper :: "('c, unit) ext"
  KindForGitRepository :: "('c, gvk) ext"
  RESTMapping :: "gvk \<Rightarrow> ('c, unit) ext"
  srv_GetGitRepository :: "string \<Rightarrow> string \<Rightarrow> ('c, unstructured) ext"
  srv_HttpGet :: "string \<Rightarrow> ('c, string) ext"
  GlobCompile :: "string \<Rightarrow> gerror + (string \<Rightarrow> bool)"
  GunzipTar :: "string \<Rightarrow> gerror + tar_event list"

text \<open>\<open>labelSelectorToString\<close> of \<open>k8s/template_manager.go\<close>.\<close>

definition labelSelectorToString :: "('c, 'l, 'z) k8s_env_scheme \<Rightarrow> label_selector \<Rightarrow> string result" where
  "labelSelectorToString E l =
     bindR (wrapR ''failed to transform LabelSelector to map'' (of_error (LabelSelectorAsMap E l)))
       (\<lambda>labelMap. Inr (SelectorString E labelMap))"

text \<open>
  The group, version and kind of an object, as \<open>Apply\<close> and \<open>duckTypeTemplateResultObject\<close> take
  them from its \<open>apiVersion\<close>: \<open>strings.Split(version, "/")\<close>, where one part alone is the version.
\<close>

definition object_gvk :: "('c, 'l, 'z) k8s_env_scheme \<Rightarrow> unstructured \<Rightarrow> gvk" where
  "object_gvk E obj =
     (case split_all CHR ''/'' (GetAPIVersion (Meta E) obj) of
        [version] \<Rightarrow> \<lparr>Group = '''', Version = version, Kind = GetKind (Meta E) obj\<rparr>
      | grp # version # _ \<Rightarrow> \<lparr>Group = grp, Version = version, Kind = GetKind (Meta E) obj\<rparr>
      | [] \<Rightarrow> \<lparr>Group = '''', Version = '''', Kind = GetKind (Meta E) obj\<rparr>)"

lemma object_gvk_core:
  "GetAPIVersion (Meta E) obj = version \<Longrightarrow> CHR ''/'' \<notin> set version \<Longrightarrow>
    object_gvk E obj = \<lparr>Group = '''', Version = version, Kind = GetKind (Meta E) obj\<rparr>"
  by (simp add: object_gvk_def split_all_no_sep)

lemma object_gvk_group:
  "GetAPIVersion (Meta E) obj = grp @ CHR ''/'' # version \<Longrightarrow> CHR ''/'' \<notin> set grp \<Longrightarrow> CHR ''/'' \<notin> set version \<Longrightarrow>
    object_gvk E obj = \<lparr>Group = grp, Version = version, Kind = GetKind (Meta E) obj\<rparr>"
  by (simp add: object_gvk_def split_all_append split_all_no_sep)

section \<open>The first line of a template, for error messages\<close>

definition first_line :: "string \<Rightarrow> string" where
  "first_line data = hd (split_all (CHR 0x0A) data)"

text \<open>\<open>template.New("").Funcs(tm.FuncMap).Parse(text)\<close>, then \<open>tpl.Execute(&buf, vars)\<close>, with the
  errors of \<open>fmt.Errorf\<close> that name the template by \<open>shown\<close>.\<close>

definition parse_template :: "('c, 'l, 'z) k8s_env_scheme \<Rightarrow> string \<Rightarrow> go_template \<Rightarrow> unit result" where
  "parse_template E shown t =
     (case TplParse E t of
        Some e \<Rightarrow> Inl (Fail (Error (''invalid template '' @ shown @ '': '' @ err_text e)))
      | None \<Rightarrow> Inr ())"

definition execute_template ::
  "('c, 'l, 'z) k8s_env_scheme \<Rightarrow> string \<Rightarrow> go_template \<Rightarrow> gval \<Rightarrow> ('c, 'l, string) wact" where
  "execute_template E shown t vars =
     bindA (attempt (query (TplExecute E t vars))) (\<lambda>r.
     (case r of
        Inl e \<Rightarrow> raise (Error (''error executing template '' @ shown @ '': '' @ err_text e))
      | Inr out \<Rightarrow> ret out))"

text \<open>A Go map with its nil value, as an interface value.\<close>

definition gval_of_map :: "gval gmap option \<Rightarrow> gval" where
  "gval_of_map m = (case m of None \<Rightarrow> GTypedNil RMap | Some kvs \<Rightarrow> GMap kvs)"

section \<open>An environment for the examples\<close>

text \<open>
  Templates render to themselves; a document is the name of the ConfigMap that it holds, with the
  namespace \<open>default\<close>; kustomize returns nothing; every call succeeds; objects named \<open>app\<close> are
  never ready, all others are of a trivial kind.
\<close>

definition config_map :: "string \<Rightarrow> string \<Rightarrow> unstructured" where
  "config_map ns name = \<lparr>Object = Some [(''apiVersion'', GStr ''v1''), (''kind'', GStr ''ConfigMap''),
     (''metadata'', GMap [(''name'', GStr name), (''namespace'', GStr ns)])]\<rparr>"

definition demo_env :: "(nat, schema gmap) k8s_env" where
  "demo_env = \<lparr>Now = (\<lambda>t. (t, Suc t)), srv_OpenAPI = (\<lambda>t. (Inr ''{}'', t)),
     srv_Resources = (\<lambda>t. (Inr (Some []), t)), srv_CRDs = (\<lambda>t. (Inr (Some []), t)),
     UnmarshalSwagger = (\<lambda>_. Inr (Some None)), MarshalProps = (\<lambda>p. Inr p),
     UnmarshalSchema = (\<lambda>js. Inr (Schema [js] [] [] [] None None [])),
     LruNew = (\<lambda>n. []), LruGet = lru_get, LruAdd = lru_add,
     Meta = json_meta, Codec = null_codec,
     TplParse = (\<lambda>_. None), TplExecute = (\<lambda>t v c. (Inr t, c)),
     MarshalJSON = (\<lambda>_. Inr ''json''), UnmarshalMap = (\<lambda>_. Inr (Some [])),
     UnmarshalWhen = (\<lambda>_. Inr ''''), UnmarshalForEach = (\<lambda>s. Inr (if s = ''each'' then ''items'' else '''')),
     GjsonGet = (\<lambda>j p. if p = '''' then GjAbsent else GjArray [GStr ''x'', GStr ''y'']),
     JSONToYAML = (\<lambda>s. Inr s), YamlMarshal = (\<lambda>_. Inr ''yaml''), YamlUnmarshal = (\<lambda>s. Inr (Some [])),
     FyamlUnmarshal = (\<lambda>s. Inr (Some [])), UnmarshalResource = (\<lambda>s. Inr (config_map ''default'' s)),
     SprintOther = (\<lambda>_. ''''),
     MarshalKustomization = (\<lambda>_. Inr ''kustomization''), RunKustomize = (\<lambda>_. Inr []),
     LabelSelectorAsMap = (\<lambda>l. Inr (MatchLabels l)), SelectorString = (\<lambda>m. str_join '','' (map fst m)),
     GetClientset = (\<lambda>c. (Inr (), c)), GetRESTConfig = (\<lambda>c. (Inr (), c)), NewCrdClient = (\<lambda>c. (Inr (), c)),
     GetDynamicClient = (\<lambda>c. (Inr (), c)), WaitForRestMapping = (\<lambda>u c. (Inr False, c)),
     GetClientByKind = (\<lambda>k c. (Inr (), c)),
     srv_ListNamespaces = (\<lambda>s c. (Inr [''blue'', ''default''], c)),
     srv_List = (\<lambda>k ns f l c. (Inr [config_map ns ''source''], c)),
     srv_Apply = (\<lambda>ns u c. (Inr u, Suc c)), srv_SetCondition = (\<lambda>u n v c. (Inr (), c)),
     IsTrivialType = (\<lambda>u. GetName json_meta u \<noteq> ''app''), Refresh = (\<lambda>u c. (Inr u, c)),
     IsReady = (\<lambda>u. (False, ''pending'')),
     GetUnstructuredObjects = (\<lambda>s. Inr (if s = '''' then [] else [config_map ''default'' s])),
     StripIdentifiers = (\<lambda>u. u), ToUnstructured = (\<lambda>t. Inr (config_map '''' (tpl_Name t))),
     GetRestMapper = (\<lambda>c. (Inr (), c)), KindForGitRepository = (\<lambda>c. (Inr \<lparr>Group = '''', Version = '''', Kind = ''''\<rparr>, c)),
     RESTMapping = (\<lambda>g c. (Inr (), c)), srv_GetGitRepository = (\<lambda>n ns c. (Inr (config_map ns n), c)),
     srv_HttpGet = (\<lambda>u c. (Inr ''archive'', c)), GlobCompile = (\<lambda>g. Inr (\<lambda>s. True)),
     GunzipTar = (\<lambda>s. Inr [])\<rparr>"

definition demo_world :: "(nat, schema gmap) world" where
  "demo_world = world_at 5 (NewSchemaCache demo_env 10)"

end
