(* ===== verification/Patches.thy ===== *)
theory Patches
  imports Environment
begin

text \<open>
  The patch applier of \<open>k8s/patches.go\<close>: \<open>Apply\<close> renders a patch with the resource as its data and
  runs kustomize on an in-memory file system; \<open>stripAnnotations\<close> removes blacklisted annotations.
  \<open>Apply\<close> unmarshals into the resource that it was given and returns the same pointer, so its
  result here is the new value of that resource.
\<close>

section \<open>Apply\<close>

text \<open>The two patch types; any other string is an invalid one.\<close>

definition PatchTypeYaml :: string where "PatchTypeYaml = ''yaml''"
definition PatchTypeJSON :: string where "PatchTypeJSON = ''json''"

text \<open>
  A patch applier; its function map belongs to text/template, its client set is only used for the
  function map.
\<close>

record ('c, 'l) patch_applier =
  Applier_SchemaManager :: "('c, 'l) schema_manager"

definition NewPatchApplier :: "('c, 'l) schema_manager \<Rightarrow> ('c, 'l, ('c, 'l) patch_applier) wact" where
  "NewPatchApplier schemaManager = ret \<lparr>Applier_SchemaManager = schemaManager\<rparr>"

lemma bindA_NewPatchApplier [simp]:
  "bindA (wrapA msg (NewPatchApplier sm)) f = f \<lparr>Applier_SchemaManager = sm\<rparr>"
  by (simp add: NewPatchApplier_def wrapA_def ret_def bindA_def fun_eq_iff)

text \<open>A patch without name or namespace takes those of the resource; then it is duck typed by the
  kind of the resource, and an error of that is only logged.\<close>

definition named_patch :: "('c, 'l, 'z) k8s_env_scheme \<Rightarrow> unstructured \<Rightarrow> unstructured \<Rightarrow> unstructured" where
  "named_patch E resource patchObject =
     (let M = Meta E;
          p1 = (if GetName M patchObject = '''' then SetName M (GetName M resource) patchObject else patchObject)
      in if GetNamespace M p1 = '''' then SetNamespace M (GetNamespace M resource) p1 else p1)"

definition duck_type_or_keep ::
  "('c, 'l, 'z) k8s_env_scheme \<Rightarrow> ('c, 'l) schema_manager \<Rightarrow> gvk \<Rightarrow> unstructured \<Rightarrow> ('c, 'l, unstructured) wact" where
  "duck_type_or_keep E m g obj =
     bindA (attempt (DuckType (Codec E) m g obj)) (\<lambda>r. ret (case r of Inl _ \<Rightarrow> obj | Inr obj' \<Rightarrow> obj'))"

text \<open>The kustomize input of a YAML patch and of a JSON patch: the patch's file, and the
  kustomization that names it.\<close>

definition yaml_patch_file ::
  "('c, 'l, 'z) k8s_env_scheme \<Rightarrow> ('c, 'l) schema_manager \<Rightarrow> unstructured \<Rightarrow> string \<Rightarrow> ('c, 'l, string gmap \<times> kustomization) wact" where
  "yaml_patch_file E m resource rendered =
     bindA (wrapA ''failed to unmarshal template yaml'' (liftR (of_error (FyamlUnmarshal E rendered)))) (\<lambda>finalPatch.
     bindA (duck_type_or_keep E m (object_gvk E resource) (named_patch E resource \<lparr>Object = finalPatch\<rparr>)) (\<lambda>patchObject.
     bindA (wrapA ''failed to marshal patch object'' (liftR (of_error (YamlMarshal E (YMap (Object patchObject)))))) (\<lambda>b.
     ret ([(''/patch-0.yaml'', b)],
          \<lparr>kus_Resources = [''resource.yaml''], PatchesStrategicMerge = [''patch-0.yaml''], PatchesJson6902 = []\<rparr>))))"

definition json_patch_file :: "('c, 'l, 'z) k8s_env_scheme \<Rightarrow> unstructured \<Rightarrow> string \<Rightarrow> string gmap \<times> kustomization" where
  "json_patch_file E resource rendered =
     ([(''/patch-0.json'', rendered)],
      \<lparr>kus_Resources = [''resource.yaml''], PatchesStrategicMerge = [],
       PatchesJson6902 = [\<lparr>target_Gvk = object_gvk E resource, target_Name = GetName (Meta E) resource,
          target_Namespace = GetNamespace (Meta E) resource, target_Path = ''patch-0.json''\<rparr>]\<rparr>)"

text \<open>The loop over kustomize's output: a resource that does not print as YAML is skipped.\<close>

fun read_resources :: "('c, 'l, 'z) k8s_env_scheme \<Rightarrow> (gerror + string) list \<Rightarrow> unstructured \<Rightarrow> unstructured result" where
  "read_resources E [] resource = Inr resource"
| "read_resources E (Inl _ # out) resource = read_resources E out resource"
| "read_resources E (Inr b # out) resource =
     bindR (wrapR (''failed to unmarshal kustomize output into resource '' @ b) (of_error (UnmarshalResource E b)))
       (read_resources E out)"

definition Apply ::
  "('c, 'l, 'z) k8s_env_scheme \<Rightarrow> ('c, 'l) patch_applier \<Rightarrow> unstructured \<Rightarrow> string \<Rightarrow> string \<Rightarrow> ('c, 'l, unstructured) wact" where
  "Apply E p resource patchStr patchType =
     bindA (case TplParse E patchStr of
              Some e \<Rightarrow> raise (Wrap ''failed to create template from patch'' e)
            | None \<Rightarrow> ret ()) (\<lambda>_.
     bindA (wrapA ''failed to execute template''
              (query (TplExecute E patchStr (GMap [(''source'', gval_of_map (Object resource))])))) (\<lambda>rendered.
     bindA (wrapA ''failed to marshal resource object'' (liftR (of_error (YamlMarshal E (YMap (Object resource)))))) (\<lambda>b.
     bindA (if patchType = PatchTypeYaml then yaml_patch_file E (Applier_SchemaManager p) resource rendered
            else if patchType = PatchTypeJSON then ret (json_patch_file E resource rendered)
            else raise (Error (''Invalid patch type '' @ patchType))) (\<lambda>(files, kustomizationFile).
     bindA (wrapA ''failed to marshal kustomization file'' (liftR (of_error (MarshalKustomization E kustomizationFile)))) (\<lambda>kbytes.
     bindA (wrapA ''failed to run kustomize build''
              (liftR (of_error (RunKustomize E ((''/resource.yaml'', b) # files @ [(''/kustomization.yaml'', kbytes)]))))) (\<lambda>out.
     liftR (read_resources E out resource)))))))"

section \<open>stripAnnotations\<close>

definition annotationsBlacklist :: "string list" where
  "annotationsBlacklist =
     [''metadata.annotations.serving.knative.dev/creator'',
      ''metadata.annotations.serving.knative.dev/lastModifier'']"

definition stripAnnotations :: "('c, 'l, 'z) k8s_env_scheme \<Rightarrow> unstructured \<Rightarrow> unstructured" where
  "stripAnnotations E obj =
     SetAnnotations (Meta E)
       (map_option (\<lambda>annotations. fold AList.delete annotationsBlacklist annotations) (GetAnnotations (Meta E) obj)) obj"

lemma map_of_fold_delete:
  "map_of (fold AList.delete ks m) k = (if k \<in> set ks then None else map_of m k)"
  by (induction ks arbitrary: m) (auto simp: delete_conv')

context object_meta
begin

lemma annotation_without:
  assumes "well_formed u"
  shows "annotation M (SetAnnotations M (map_option (fold AList.delete ks) (GetAnnotations M u)) u) k =
    (if k \<in> set ks then None else annotation M u k)"
  unfolding annotation_set [OF assms]
  by (cases "GetAnnotations M u") (simp_all add: map_of_fold_delete the_map_def annotation_def)

end

lemma annotation_strip:
  assumes "object_meta (Meta E) ok" and "ok u"
  shows "annotation (Meta E) (stripAnnotations E u) k =
    (if k \<in> set annotationsBlacklist then None else annotation (Meta E) u k)"
  unfolding stripAnnotations_def by (rule object_meta.annotation_without [OF assms])

lemma strip_keeps:
  assumes "object_meta (Meta E) ok" and "ok u"
  shows "ok (stripAnnotations E u)"
    and "GetNamespace (Meta E) (stripAnnotations E u) = GetNamespace (Meta E) u"
    and "GetName (Meta E) (stripAnnotations E u) = GetName (Meta E) u"
    and "GetOwnerReferences (Meta E) (stripAnnotations E u) = GetOwnerReferences (Meta E) u"
  using assms(2) by (simp_all add: stripAnnotations_def object_meta.meta_simps [OF assms(1)])

text \<open>
  \<open>stripAnnotations\<close> removes exactly the annotations whose key is on the blacklist and keeps
  every other one. The blacklist spells the keys with the prefix \<open>metadata.annotations.\<close>, so the
  annotations of knative that it names stay on the object.
\<close>

theorem stripAnnotations_effect:
  assumes "object_meta (Meta E) ok" and "ok u"
  shows "annotation (Meta E) (stripAnnotations E u) k =
      (if k \<in> set annotationsBlacklist then None else annotation (Meta E) u k)
    \<and> annotation (Meta E) (stripAnnotations E u) ''serving.knative.dev/creator'' =
      annotation (Meta E) u ''serving.knative.dev/creator''"
proof
  show "annotation (Meta E) (stripAnnotations E u) k =
      (if k \<in> set annotationsBlacklist then None else annotation (Meta E) u k)"
    by (rule annotation_strip [OF assms])
  have "''serving.knative.dev/creator'' \<notin> set annotationsBlacklist"
    by (simp add: annotationsBlacklist_def)
  then show "annotation (Meta E) (stripAnnotations E u) ''serving.knative.dev/creator'' =
      annotation (Meta E) u ''serving.knative.dev/creator''"
    by (simp add: annotation_strip [OF assms])
qed

section \<open>What Apply returns\<close>

text \<open>The last resource of kustomize's output that prints as YAML.\<close>

fun last_printed :: "(gerror + string) list \<Rightarrow> string option" where
  "last_printed [] = None"
| "last_printed (r # out) =
     (case last_printed out of Some b \<Rightarrow> Some b | None \<Rightarrow> (case r of Inl _ \<Rightarrow> None | Inr b \<Rightarrow> Some b))"

lemma read_resources_last:
  "read_resources E out u = Inr r \<Longrightarrow>
    (case last_printed out of None \<Rightarrow> r = u | Some b \<Rightarrow> UnmarshalResource E b = Inr r)"
  by (induction E out u arbitrary: r rule: read_resources.induct)
     (fastforce simp: bindR_eq_Inr split: option.splits)+

lemma duck_type_or_keep_result:
  "duck_type_or_keep E m g obj w = (Inr typed, w') \<Longrightarrow>
    (case fst (DuckType (Codec E) m g obj w) of Inr typed' \<Rightarrow> typed = typed' | Inl _ \<Rightarrow> typed = obj)"
  by (cases "DuckType (Codec E) m g obj w"; cases "fst (DuckType (Codec E) m g obj w)";
      cases "projl (fst (DuckType (Codec E) m g obj w))")
    (auto simp: duck_type_or_keep_def bindA_def attempt_def ret_def)

lemma Apply_run:
  assumes "Apply E p u patchStr patchType w = (Inr r, w')"
  shows "\<exists>rendered c b files kustomizationFile kbytes out.
    TplParse E patchStr = None \<and>
    TplExecute E patchStr (GMap [(''source'', gval_of_map (Object u))]) (cluster w) = (Inr rendered, c) \<and>
    (patchType = ''json'' \<and> files = [(''/patch-0.json'', rendered)] \<and>
       kustomizationFile = \<lparr>kus_Resources = [''resource.yaml''], PatchesStrategicMerge = [],
         PatchesJson6902 = [\<lparr>target_Gvk = object_gvk E u, target_Name = GetName (Meta E) u,
           target_Namespace = GetNamespace (Meta E) u, target_Path = ''patch-0.json''\<rparr>]\<rparr> \<or>
     patchType = ''yaml'' \<and> (\<exists>patch0 named v typed pb. FyamlUnmarshal E rendered = Inr patch0 \<and>
       named = named_patch E u \<lparr>Object = patch0\<rparr> \<and>
       (case fst (DuckType (Codec E) (Applier_SchemaManager p) (object_gvk E u) named v) of
          Inr typed' \<Rightarrow> typed = typed' | Inl _ \<Rightarrow> typed = named) \<and>
       YamlMarshal E (YMap (Object typed)) = Inr pb \<and> files = [(''/patch-0.yaml'', pb)] \<and>
       kustomizationFile = \<lparr>kus_Resources = [''resource.yaml''], PatchesStrategicMerge = [''patch-0.yaml''],
         PatchesJson6902 = []\<rparr>)) \<and>
    YamlMarshal E (YMap (Object u)) = Inr b \<and> MarshalKustomization E kustomizationFile = Inr kbytes \<and>
    RunKustomize E ((''/resource.yaml'', b) # files @ [(''/kustomization.yaml'', kbytes)]) = Inr out \<and>
    (case last_printed out of None \<Rightarrow> r = u | Some d \<Rightarrow> UnmarshalResource E d = Inr r)"
proof -
  obtain rendered c where parse: "TplParse E patchStr = None"
    and exec: "TplExecute E patchStr (GMap [(''source'', gval_of_map (Object u))]) (cluster w) = (Inr rendered, c)"
    using assms by (auto simp: Apply_def act_eq_Inr query_eq_Inr split: option.splits)
  obtain b files kustomizationFile kbytes out w1 w2 where marshal: "YamlMarshal E (YMap (Object u)) = Inr b"
    and input: "(if patchType = PatchTypeYaml then yaml_patch_file E (Applier_SchemaManager p) u rendered
        else if patchType = PatchTypeJSON then ret (json_patch_file E u rendered)
        else raise (Error (''Invalid patch type '' @ patchType))) w1 = (Inr (files, kustomizationFile), w2)"
    and kus: "MarshalKustomization E kustomizationFile = Inr kbytes"
    and run: "RunKustomize E ((''/resource.yaml'', b) # files @ [(''/kustomization.yaml'', kbytes)]) = Inr out"
    and read: "read_resources E out u = Inr r"
    using assms parse exec unfolding Apply_def by (auto simp: act_eq_Inr query_eq_Inr)
  have "(patchType = ''json'' \<and> files = [(''/patch-0.json'', rendered)] \<and>
       kustomizationFile = \<lparr>kus_Resources = [''resource.yaml''], PatchesStrategicMerge = [],
         PatchesJson6902 = [\<lparr>target_Gvk = object_gvk E u, target_Name = GetName (Meta E) u,
           target_Namespace = GetNamespace (Meta E) u, target_Path = ''patch-0.json''\<rparr>]\<rparr> \<or>
     patchType = ''yaml'' \<and> (\<exists>patch0 named v typed pb. FyamlUnmarshal E rendered = Inr patch0 \<and>
       named = named_patch E u \<lparr>Object = patch0\<rparr> \<and>
       (case fst (DuckType (Codec E) (Applier_SchemaManager p) (object_gvk E u) named v) of
          Inr typed' \<Rightarrow> typed = typed' | Inl _ \<Rightarrow> typed = named) \<and>
       YamlMarshal E (YMap (Object typed)) = Inr pb \<and> files = [(''/patch-0.yaml'', pb)] \<and>
       kustomizationFile = \<lparr>kus_Resources = [''resource.yaml''], PatchesStrategicMerge = [''patch-0.yaml''],
         PatchesJson6902 = []\<rparr>))"
  proof (cases "patchType = PatchTypeYaml")
    case True
    then have "yaml_patch_file E (Applier_SchemaManager p) u rendered w1 = (Inr (files, kustomizationFile), w2)" using input by simp
    then show ?thesis
      unfolding yaml_patch_file_def using True duck_type_or_keep_result
      by (auto simp: act_eq_Inr PatchTypeYaml_def) blast
  next
    case False
    then show ?thesis using input by (auto simp: act_eq_Inr PatchTypeJSON_def json_patch_file_def split: if_splits)
  qed
  then show ?thesis
    using parse exec marshal kus run read_resources_last [OF read]
    by (intro exI [of _ rendered] exI [of _ c] exI [of _ b] exI [of _ files] exI [of _ kustomizationFile] exI [of _ kbytes]
        exI [of _ out] conjI)
qed

text \<open>
  C38. When \<open>Apply\<close> succeeds, kustomize ran on exactly three files: the resource, the patch, and a
  kustomization that names both. The patch is the template executed on the resource; a JSON patch
  goes to its file as it is, aimed at the kind, name and namespace of the resource, a YAML patch is
  decoded, given the name and namespace of the resource where it has none, and duck typed, or left
  as it is when duck typing fails. The result is the last printable resource of the output, and the
  resource as it was if there is none. Any other type of patch fails.
\<close>

theorem Apply_result:
  assumes "Apply E p u patchStr patchType w = (Inr r, w')"
  shows "\<exists>rendered c b files kustomizationFile kbytes out.
    TplParse E patchStr = None \<and>
    TplExecute E patchStr (GMap [(''source'', gval_of_map (Object u))]) (cluster w) = (Inr rendered, c) \<and>
    (patchType = ''json'' \<and> files = [(''/patch-0.json'', rendered)] \<and>
       kustomizationFile = \<lparr>kus_Resources = [''resource.yaml''], PatchesStrategicMerge = [],
         PatchesJson6902 = [\<lparr>target_Gvk = object_gvk E u, target_Name = GetName (Meta E) u,
           target_Namespace = GetNamespace (Meta E) u, target_Path = ''patch-0.json''\<rparr>]\<rparr> \<or>
     patchType = ''yaml'' \<and> (\<exists>patch0 named v typed pb. FyamlUnmarshal E rendered = Inr patch0 \<and>
       named = (let M = Meta E;
          q = (if GetName M \<lparr>Object = patch0\<rparr> = '''' then SetName M (GetName M u) \<lparr>Object = patch0\<rparr> else \<lparr>Object = patch0\<rparr>)
        in if GetNamespace M q = '''' then SetNamespace M (GetNamespace M u) q else q) \<and>
       (case fst (DuckType (Codec E) (Applier_SchemaManager p) (object_gvk E u) named v) of
          Inr typed' \<Rightarrow> typed = typed' | Inl _ \<Rightarrow> typed = named) \<and>
       YamlMarshal E (YMap (Object typed)) = Inr pb \<and> files = [(''/patch-0.yaml'', pb)] \<and>
       kustomizationFile = \<lparr>kus_Resources = [''resource.yaml''], PatchesStrategicMerge = [''patch-0.yaml''],
         PatchesJson6902 = []\<rparr>)) \<and>
    YamlMarshal E (YMap (Object u)) = Inr b \<and> MarshalKustomization E kustomizationFile = Inr kbytes \<and>
    RunKustomize E ((''/resource.yaml'', b) # files @ [(''/kustomization.yaml'', kbytes)]) = Inr out \<and>
    (case last_printed out of None \<Rightarrow> r = u | Some d \<Rightarrow> UnmarshalResource E d = Inr r)"
  using Apply_run [OF assms] unfolding named_patch_def .

section \<open>Examples\<close>

definition knative_object :: unstructured where
  "knative_object = \<lparr>Object = Some [(''metadata'', GMap [(''annotations'',
     GMap [(''serving.knative.dev/creator'', GStr ''me''),
           (''metadata.annotations.serving.knative.dev/creator'', GStr ''odd'')])])]\<rparr>"

theorem stripAnnotations_effect_witness:
  "annotation json_meta (stripAnnotations demo_env knative_object) ''metadata.annotations.serving.knative.dev/creator'' = None
   \<and> annotation json_meta (stripAnnotations demo_env knative_object) ''serving.knative.dev/creator'' = Some ''me''"
proof -
  have "object_meta (Meta demo_env) json_well_formed" using json.object_meta_axioms by (simp add: demo_env_def)
  moreover have "json_well_formed knative_object"
    by (simp add: json_well_formed_def knative_object_def obj_get_def entries_def)
  ultimately show ?thesis
    using stripAnnotations_effect [of demo_env json_well_formed knative_object]
    by (simp add: demo_env_def annotationsBlacklist_def)
       (simp add: annotation_def json_meta_def knative_object_def metadata_def obj_get_def entries_def the_map_def)
qed

definition no_definitions :: "(nat, schema gmap) schema_manager" where
  "no_definitions = \<lparr>sm_swagger = Some None, serverResources = None, fetchCrdFn = ret [], convertSchemaFn = \<lambda>g v. raise (Error '''')\<rparr>"

text \<open>A kustomize that answers with the contents of the JSON patch.\<close>

definition echo_env :: "(nat, schema gmap) k8s_env" where
  "echo_env = demo_env\<lparr>RunKustomize := \<lambda>files. Inr [Inl (Error ''no yaml''), Inr (case map_of files ''/patch-0.json'' of Some d \<Rightarrow> d | None \<Rightarrow> '''')]\<rparr>"

theorem Apply_result_witness:
  "\<exists>w'. Apply echo_env \<lparr>Applier_SchemaManager = no_definitions\<rparr> (config_map ''default'' ''c'') ''[]'' ''json'' demo_world
      = (Inr (config_map ''default'' ''[]''), w')"
proof -
  obtain r w' where run: "Apply echo_env \<lparr>Applier_SchemaManager = no_definitions\<rparr> (config_map ''default'' ''c'') ''[]'' ''json'' demo_world = (Inr r, w')"
    by (simp add: Apply_def json_patch_file_def PatchTypeYaml_def PatchTypeJSON_def query_def liftR_def wrapA_def ret_def bindA_def
        echo_env_def demo_env_def)
  have "r = config_map ''default'' ''[]''"
    using Apply_result [OF run] by (auto simp: echo_env_def demo_env_def)
  then show ?thesis using run by simp
qed

end
