(* ===== verification/Watch.thy ===== *)
theory Watch
  imports Environment
begin

text \<open>
  The watchers of \<open>k8s/watcher.go\<close>: the interface, its two implementations, and the event handler.
  The map \<open>cache\<close> of a \<open>Watcher\<close> is the field \<open>watched\<close> of the world; its mutex makes every call of
  \<open>Watch\<close> one step. Starting the informer is recorded as a call; the informer's goroutine calls
  \<open>onUpdate\<close> later, as a step of its own.
\<close>

datatype watcher = NullWatcher | Watcher

definition NewWatcher :: "('c, 'l, 'z) k8s_env_scheme \<Rightarrow> ('c, 'l, watcher) wact" where
  "NewWatcher E =
     bindA (wrapA ''failed to get clientset'' (query (GetClientset E))) (\<lambda>_ w. (Inr Watcher, w\<lparr>watched := []\<rparr>))"

definition getCacheKey :: "('c, 'l, 'z) k8s_env_scheme \<Rightarrow> unstructured \<Rightarrow> template \<Rightarrow> string" where
  "getCacheKey E obj t = ''kind='' @ ObjectKind (Meta E) obj @ '';template='' @ tpl_Name t"

text \<open>The namespace of the resource interface: None for the root scope, else all namespaces.\<close>

definition getDynamicClient :: "('c, 'l, 'z) k8s_env_scheme \<Rightarrow> unstructured \<Rightarrow> ('c, 'l, string option) wact" where
  "getDynamicClient E obj =
     bindA (wrapA ''failed to get dynamic client'' (query (GetDynamicClient E))) (\<lambda>_.
     bindA (query (WaitForRestMapping E obj)) (\<lambda>root.
     ret (if root then None else Some '''')))"

definition mark_watched :: "string \<Rightarrow> ('c, 'l, unit) wact" where
  "mark_watched k = (\<lambda>w. (Inr (), w\<lparr>watched := AList.update k True (watched w)\<rparr>))"

lemma bindA_mark_watched: "bindA (mark_watched k) f w = f () (w\<lparr>watched := AList.update k True (watched w)\<rparr>)"
  by (simp add: bindA_def mark_watched_def)

fun WatchObject :: "('c, 'l, 'z) k8s_env_scheme \<Rightarrow> watcher \<Rightarrow> unstructured \<Rightarrow> template \<Rightarrow> ('c, 'l, unit) wact" where
  "WatchObject E NullWatcher exampleObject t = ret ()"
| "WatchObject E Watcher exampleObject t =
     bindA (reads watched) (\<lambda>m.
     if map_of m (getCacheKey E exampleObject t) = Some True then ret ()
     else
       bindA (mark_watched (getCacheKey E exampleObject t)) (\<lambda>_.
       bindA (wrapA ''failed to get dynamic client'' (getDynamicClient E exampleObject)) (\<lambda>di.
       bindA (wrapA ''failed to get label selector''
                (liftR (labelSelectorToString E (LabelSelector (Source (Spec t)))))) (\<lambda>labelSelector.
       record_call (StartInformer (ObjectKind (Meta E) exampleObject) labelSelector (FieldSelector (Source (Spec t))))))))"

text \<open>The handler of added and updated objects; every error is logged, none is returned.\<close>

definition onUpdate ::
  "('c, 'l, 'z) k8s_env_scheme \<Rightarrow> (unstructured \<Rightarrow> ('c, 'l, unit) wact) \<Rightarrow> gval \<Rightarrow> ('c, 'l, unit) wact" where
  "onUpdate E cb obj =
     (case MarshalJSON E obj of
        Inl _ \<Rightarrow> ret ()
      | Inr js \<Rightarrow>
          (case UnmarshalMap E js of
             Inl _ \<Rightarrow> ret ()
           | Inr m \<Rightarrow> bindA (attempt (cb \<lparr>Object = m\<rparr>)) (\<lambda>_. ret ())))"

text \<open>What the informer of a watch runs for an event; the template's callback \<open>cb\<close> is not run for deletions.\<close>

datatype informer_event = AddFunc gval | UpdateFunc gval gval | DeleteFunc gval

fun handle_event ::
  "('c, 'l, 'z) k8s_env_scheme \<Rightarrow> (unstructured \<Rightarrow> ('c, 'l, unit) wact) \<Rightarrow> informer_event \<Rightarrow> ('c, 'l, unit) wact" where
  "handle_event E cb (AddFunc obj) = onUpdate E cb obj"
| "handle_event E cb (UpdateFunc oldObj obj) = onUpdate E cb obj"
| "handle_event E cb (DeleteFunc obj) = ret ()"

lemma keeps_handle_event:
  assumes "\<And>obj. keeps I (cb obj)"
  shows "keeps I (handle_event E cb ev)"
proof -
  have "keeps I (onUpdate E cb obj)" for obj
    unfolding onUpdate_def by (intro keeps_case_sum keeps_bindA keeps_attempt keeps_ret assms)
  then show ?thesis by (cases ev) simp_all
qed

text \<open>Errors of the callback end here: the handler returns nothing, and only a panic passes it.\<close>

lemma handle_event_no_error: "fst (handle_event E cb ev w) \<noteq> Inl (Fail e)"
proof -
  have "fst (onUpdate E cb obj w) \<noteq> Inl (Fail e)" for obj
    by (auto simp: onUpdate_def bindA_def attempt_def ret_def split: sum.splits prod.splits failure.splits)
  then show ?thesis by (cases ev) (simp_all add: ret_def)
qed

section \<open>The interface\<close>

text \<open>What a caller of \<open>Watch\<close> relies on: it starts at most one informer and makes no other call,
  and leaves the schema cache alone.\<close>

fun is_informer :: "call \<Rightarrow> bool" where
  "is_informer (StartInformer _ _ _) \<longleftrightarrow> True"
| "is_informer _ \<longleftrightarrow> False"

locale watcher_interface =
  fixes watch :: "unstructured \<Rightarrow> template \<Rightarrow> ('c, 'l, unit) wact"
  assumes watch_calls: "\<exists>ks. calls (snd (watch obj t w)) = calls w @ ks \<and> length ks \<le> 1 \<and> list_all is_informer ks"
    and watch_cache: "cache (snd (watch obj t w)) = cache w"
begin

lemma keeps_calls:
  assumes "\<And>k. is_informer k \<Longrightarrow> P k"
  shows "keeps (all_calls P) (watch obj t)"
proof -
  have "all_calls P w \<Longrightarrow> all_calls P (snd (watch obj t w))" for w
    using watch_calls [of obj t w] assms by (auto simp: all_calls_def list_all_iff)
  then show ?thesis by (simp add: keeps_iff)
qed

end

interpretation null: watcher_interface "WatchObject E NullWatcher" for E
  by unfold_locales (simp_all add: ret_def)

lemma getDynamicClient_state: "\<exists>c. snd (getDynamicClient E obj w) = w\<lparr>cluster := c\<rparr>"
proof (cases "GetDynamicClient E (cluster w)")
  case (Pair r c)
  then show ?thesis
    by (cases r; cases "WaitForRestMapping E obj c"; cases "fst (WaitForRestMapping E obj c)")
       (auto simp: getDynamicClient_def bindA_def query_def wrapA_def ret_def)
qed

lemma start_informer_state:
  "\<exists>c ks. snd (bindA (wrapA m1 (getDynamicClient E obj)) (\<lambda>di.
       bindA (wrapA m2 (liftR s)) (\<lambda>l. record_call (StartInformer k l f))) w)
     = w\<lparr>cluster := c, calls := calls w @ ks\<rparr> \<and> length ks \<le> 1 \<and> list_all is_informer ks"
proof -
  obtain r w1 where g: "getDynamicClient E obj w = (r, w1)" by (cases "getDynamicClient E obj w")
  then obtain c where w1: "w1 = w\<lparr>cluster := c\<rparr>" using getDynamicClient_state [of E obj w] by auto
  let ?ks = "if isl r \<or> isl s then [] else [StartInformer k (projr s) f]"
  show ?thesis
    by (intro exI [of _ c] exI [of _ ?ks])
       (cases r; cases s; simp add: bindA_def wrapA_def liftR_def record_call_def g w1)
qed

lemma WatchObject_marked:
  "map_of (watched w) (getCacheKey E obj t) = Some True \<Longrightarrow> WatchObject E Watcher obj t w = (Inr (), w)"
  by (simp add: bindA_def reads_def ret_def)

lemma WatchObject_unmarked:
  assumes "map_of (watched w) (getCacheKey E obj t) \<noteq> Some True"
  shows "\<exists>c ks. snd (WatchObject E Watcher obj t w) =
      w\<lparr>watched := AList.update (getCacheKey E obj t) True (watched w), cluster := c, calls := calls w @ ks\<rparr>
    \<and> length ks \<le> 1 \<and> list_all is_informer ks"
proof -
  let ?w = "w\<lparr>watched := AList.update (getCacheKey E obj t) True (watched w)\<rparr>"
  have "WatchObject E Watcher obj t w =
     bindA (wrapA ''failed to get dynamic client'' (getDynamicClient E obj)) (\<lambda>di.
       bindA (wrapA ''failed to get label selector''
                (liftR (labelSelectorToString E (LabelSelector (Source (Spec t)))))) (\<lambda>labelSelector.
       record_call (StartInformer (ObjectKind (Meta E) obj) labelSelector (FieldSelector (Source (Spec t)))))) ?w"
    using assms by (simp add: bindA_mark_watched)
  moreover have "calls ?w = calls w" by simp
  ultimately show ?thesis using start_informer_state [of _ E obj _ _ _ _ ?w] by metis
qed

lemma Watch_step:
  "watched (snd (WatchObject E Watcher obj t w)) =
     (if map_of (watched w) (getCacheKey E obj t) = Some True then watched w
      else AList.update (getCacheKey E obj t) True (watched w))
   \<and> cache (snd (WatchObject E Watcher obj t w)) = cache w
   \<and> (\<exists>ks. calls (snd (WatchObject E Watcher obj t w)) = calls w @ ks \<and> list_all is_informer ks
        \<and> length ks \<le> (if map_of (watched w) (getCacheKey E obj t) = Some True then 0 else 1))"
proof (cases "map_of (watched w) (getCacheKey E obj t) = Some True")
  case True
  then show ?thesis by (simp add: WatchObject_marked del: WatchObject.simps)
next
  case False
  then obtain c ks where "snd (WatchObject E Watcher obj t w) =
      w\<lparr>watched := AList.update (getCacheKey E obj t) True (watched w), cluster := c, calls := calls w @ ks\<rparr>"
    and "length ks \<le> 1" "list_all is_informer ks"
    using WatchObject_unmarked [of w E obj t] by blast
  then show ?thesis using False by (simp del: WatchObject.simps)
qed

declare WatchObject.simps(2) [simp del]

interpretation deployed: watcher_interface "WatchObject E Watcher" for E
proof
  fix obj t and w :: "('a, 'b) world"
  obtain ks where "calls (snd (WatchObject E Watcher obj t w)) = calls w @ ks" "list_all is_informer ks"
    and le: "length ks \<le> (if map_of (watched w) (getCacheKey E obj t) = Some True then 0 else 1)"
    using Watch_step [of E obj t w] by blast
  moreover have "length ks \<le> 1" using le by (rule order_trans) simp
  ultimately show "\<exists>ks. calls (snd (WatchObject E Watcher obj t w)) = calls w @ ks \<and> length ks \<le> 1 \<and> list_all is_informer ks"
    by blast
  show "cache (snd (WatchObject E Watcher obj t w)) = cache w"
    using Watch_step [of E obj t w] by blast
qed

lemmas watcher_calls = null.keeps_calls deployed.keeps_calls

lemma WatchObject_keeps:
  "(\<And>k. is_informer k \<Longrightarrow> P k) \<Longrightarrow> keeps (all_calls P) (WatchObject E wt obj t)"
  by (cases wt) (simp_all only: watcher_calls)

section \<open>At most one watch\<close>

fun watch_all :: "('c, 'l, 'z) k8s_env_scheme \<Rightarrow> (unstructured \<times> template) list \<Rightarrow> ('c, 'l) world \<Rightarrow> ('c, 'l) world" where
  "watch_all E [] w = w"
| "watch_all E ((obj, t) # xs) w = watch_all E xs (snd (WatchObject E Watcher obj t w))"

definition marked :: "('c, 'l) world \<Rightarrow> string set" where
  "marked w = {k. map_of (watched w) k = Some True}"

lemma watch_all_bound:
  "length (calls (watch_all E xs w)) \<le> length (calls w) + card (set (map (\<lambda>(obj, t). getCacheKey E obj t) xs) - marked w)"
proof (induction E xs w rule: watch_all.induct)
  case (2 E obj t xs w)
  let ?k = "getCacheKey E obj t" and ?w1 = "snd (WatchObject E Watcher obj t w)"
  let ?K = "set (map (\<lambda>(obj, t). getCacheKey E obj t) xs)"
  have m: "marked ?w1 = insert ?k (marked w)"
    using Watch_step [of E obj t w, THEN conjunct1] by (auto simp: marked_def update_conv')
  have c: "length (calls ?w1) \<le> length (calls w) + (if ?k \<in> marked w then 0 else 1)"
  proof -
    obtain ks where "calls ?w1 = calls w @ ks"
      "length ks \<le> (if map_of (watched w) ?k = Some True then 0 else 1)"
      using Watch_step [of E obj t w] by blast
    then show ?thesis by (simp add: marked_def)
  qed
  have "card (?K - insert ?k (marked w)) + (if ?k \<in> marked w then 0 else 1) = card (insert ?k ?K - marked w)"
  proof (cases "?k \<in> marked w")
    case True
    then show ?thesis by (simp add: insert_absorb)
  next
    case False
    then have "insert ?k ?K - marked w = insert ?k (?K - insert ?k (marked w))" by blast
    then show ?thesis using False by simp
  qed
  then show ?case using "2.IH" c unfolding m by simp
qed simp

text \<open>
  However often \<open>Watch\<close> is called, with whatever objects and templates, it starts at most one
  informer for each pair of kind and template name that was not watched before.
\<close>

theorem Watch_informers_bounded:
  "length (calls (watch_all E xs w)) \<le>
     length (calls w) + card (set (map (\<lambda>(obj, t). getCacheKey E obj t) xs) - marked w)"
  by (rule watch_all_bound)

section \<open>Example\<close>

definition selector_for :: "string \<Rightarrow> string \<Rightarrow> resource_selector" where
  "selector_for apiVersion kind = \<lparr>GitRepository = None, LabelSelector = \<lparr>MatchLabels = [], MatchExpressions = []\<rparr>,
     NamespaceSelector = \<lparr>MatchLabels = [], MatchExpressions = []\<rparr>, AnnotationSelector = [], FieldSelector = '''',
     sel_APIVersion = apiVersion, sel_Kind = kind\<rparr>"

definition demo_template :: template where
  "demo_template = \<lparr>tpl_Name = ''demo'', tpl_Namespace = '''', Spec = \<lparr>Source = selector_for ''v1'' ''ConfigMap'',
     PatchTarget = selector_for '''' '''', Resources = [''app'', ''each''], ResourcesTemplate = '''', Patches = [], JsonPatches = [],
     CopyToNamespaces = Some \<lparr>Namespaces = [''red'', ''blue''], CopyNamespaceSelector = Some \<lparr>MatchLabels = [], MatchExpressions = []\<rparr>\<rparr>,
     Onceoff = True\<rparr>\<rparr>"

end
