(* ===== verification/Render.thy ===== *)
theory Render
  imports Patches Watch
begin

text \<open>
  The rendering half of \<open>k8s/template_manager.go\<close>: the resources of a template, with their \<open>when\<close>
  conditions and \<open>forEach\<close> loops, become objects; the text template \<open>resourcesTemplate\<close> likewise.
  Every rendered document is duck typed by the schema of its kind.
\<close>

record ('c, 'l) template_manager =
  SchemaMgr :: "('c, 'l) schema_manager"
  PatchApplier_of :: "('c, 'l) patch_applier"
  Watcher_of :: watcher

definition NewTemplateManager ::
  "('c, 'l, 'z) k8s_env_scheme \<Rightarrow> watcher \<Rightarrow> ('c, 'l, ('c, 'l) template_manager) wact" where
  "NewTemplateManager E wt =
     bindA (attempt (query (GetClientset E))) (\<lambda>_.
     bindA (wrapA ''failed to get rest config'' (query (GetRESTConfig E))) (\<lambda>_.
     bindA (wrapA ''failed to create crd client'' (query (NewCrdClient E))) (\<lambda>_.
     bindA (wrapA ''failed to create schema manager'' (NewSchemaManagerWithCache E)) (\<lambda>sm.
     bindA (wrapA ''faile to create patch applier'' (NewPatchApplier sm)) (\<lambda>p.
     ret \<lparr>SchemaMgr = sm, PatchApplier_of = p, Watcher_of = wt\<rparr>)))))"

section \<open>Templates\<close>

definition duckTypeTemplateResultObject ::
  "('c, 'l, 'z) k8s_env_scheme \<Rightarrow> ('c, 'l) schema_manager \<Rightarrow> unstructured \<Rightarrow> ('c, 'l, string) wact" where
  "duckTypeTemplateResultObject E sm obj =
     bindA (duck_type_or_keep E sm (object_gvk E obj) obj) (\<lambda>obj'.
     liftR (of_error (YamlMarshal E (YMap (Object obj')))))"

definition duckTypeTemplateResult ::
  "('c, 'l, 'z) k8s_env_scheme \<Rightarrow> ('c, 'l) schema_manager \<Rightarrow> string \<Rightarrow> ('c, 'l, string) wact" where
  "duckTypeTemplateResult E sm objYaml =
     (case YamlUnmarshal E objYaml of
        Inl e \<Rightarrow> raise (Error (''error parsing template result: '' @ err_text e))
      | Inr m \<Rightarrow> duckTypeTemplateResultObject E sm \<lparr>Object = m\<rparr>)"

text \<open>\<open>rawVars, _ := yaml.Marshal(vars)\<close> drops the error; then \<open>rawVars\<close> is nil, an empty document.\<close>

definition template_vars :: "('c, 'l, 'z) k8s_env_scheme \<Rightarrow> yaml_value \<Rightarrow> gerror + gval gmap option" where
  "template_vars E vars = YamlUnmarshal E (case YamlMarshal E vars of Inl _ \<Rightarrow> '''' | Inr raw \<Rightarrow> raw)"

definition Template ::
  "('c, 'l, 'z) k8s_env_scheme \<Rightarrow> ('c, 'l) schema_manager \<Rightarrow> string \<Rightarrow> gval gmap option \<Rightarrow> ('c, 'l, string) wact" where
  "Template E sm data vars =
     bindA (liftR (of_error (JSONToYAML E data))) (\<lambda>convertedYAML.
     bindA (liftR (parse_template E (first_line data) convertedYAML)) (\<lambda>_.
     bindA (liftR (of_error (template_vars E (YMap vars)))) (\<lambda>source.
     bindA (execute_template E (first_line data) convertedYAML (gval_of_map source)) (\<lambda>out.
     duckTypeTemplateResult E sm out))))"

definition document_end :: string where
  "document_end = [CHR 0x0A, CHR ''-'', CHR ''-'', CHR ''-'', CHR 0x0A]"

text \<open>The loop of \<open>processTemplate\<close>; \<open>result\<close> grows by one document for each object.\<close>

fun duck_type_all ::
  "('c, 'l, 'z) k8s_env_scheme \<Rightarrow> ('c, 'l) schema_manager \<Rightarrow> unstructured list \<Rightarrow> string \<Rightarrow> ('c, 'l, string) wact" where
  "duck_type_all E sm [] result = ret result"
| "duck_type_all E sm (o1 # os) result =
     bindA (wrapA ''failed to duck type object'' (duckTypeTemplateResultObject E sm o1)) (\<lambda>duckTyped.
     duck_type_all E sm os (result @ duckTyped @ document_end))"

definition processTemplate ::
  "('c, 'l, 'z) k8s_env_scheme \<Rightarrow> ('c, 'l) schema_manager \<Rightarrow> string \<Rightarrow> yaml_value \<Rightarrow> ('c, 'l, string) wact" where
  "processTemplate E sm data vars =
     bindA (liftR (parse_template E (first_line data) data)) (\<lambda>_.
     bindA (liftR (of_error (template_vars E vars))) (\<lambda>source.
     bindA (execute_template E (first_line data) data (gval_of_map source)) (\<lambda>out.
     bindA (wrapA ''failed to get unstructured objects'' (liftR (of_error (GetUnstructuredObjects E out)))) (\<lambda>objs.
     duck_type_all E sm objs ''''))))"

section \<open>Conditions and loops\<close>

record for_each =
  IsArray :: bool
  IsMap :: bool
  each_Array :: "gval list"
  each_Map :: "gval gmap"

definition no_each :: for_each where
  "no_each = \<lparr>IsArray = False, IsMap = False, each_Array = [], each_Map = []\<rparr>"

definition JSONPath :: "('c, 'l, 'z) k8s_env_scheme \<Rightarrow> gval \<Rightarrow> string \<Rightarrow> for_each result" where
  "JSONPath E object jsonpath =
     (let path = trim_prefix (trim_suffix (trim_prefix jsonpath ''{{'') ''}}'') ''.''
      in bindR (wrapR ''failed to marshal json'' (of_error (MarshalJSON E object))) (\<lambda>jsonObject.
         (case GjsonGet E jsonObject path of
            GjAbsent \<Rightarrow> Inr no_each
          | GjArray vs \<Rightarrow> Inr (no_each\<lparr>IsArray := True, each_Array := vs\<rparr>)
          | GjObject m \<Rightarrow> Inr (no_each\<lparr>IsMap := True, each_Map := m\<rparr>)
          | GjScalar \<Rightarrow> Inl (Fail (Error (''field '' @ path @ '' is not map or array''))))))"

definition getForEach :: "('c, 'l, 'z) k8s_env_scheme \<Rightarrow> string \<Rightarrow> gval gmap option \<Rightarrow> for_each result" where
  "getForEach E rawItem target =
     bindR (wrapR ''failed to unmarshal rawItem into ForEachResource'' (of_error (UnmarshalForEach E rawItem)))
       (\<lambda>forEach. JSONPath E (gval_of_map target) forEach)"

definition conditional :: "('c, 'l, 'z) k8s_env_scheme \<Rightarrow> string \<Rightarrow> gval gmap option \<Rightarrow> ('c, 'l, bool) wact" where
  "conditional E rawItem target =
     bindA (wrapA ''failed to unmarshal rawItem into Conditionals'' (liftR (of_error (UnmarshalWhen E rawItem)))) (\<lambda>when.
     if when = '''' then ret True
     else
       bindA (liftR (parse_template E when when)) (\<lambda>_.
       bindA (execute_template E when when (gval_of_map target)) (\<lambda>out.
       liftR (of_error (ParseBool out)))))"

definition render_objects ::
  "('c, 'l, 'z) k8s_env_scheme \<Rightarrow> ('c, 'l) schema_manager \<Rightarrow> string \<Rightarrow> gval gmap option \<Rightarrow> ('c, 'l, unstructured list) wact" where
  "render_objects E sm rawItem vars =
     bindA (wrapA ''failed to template resources'' (Template E sm rawItem vars)) (\<lambda>data.
     wrapA ''failed to get unstructured objects'' (liftR (of_error (GetUnstructuredObjects E data))))"

text \<open>\<open>targetCopy["each"] = e\<close>, and the two \<open>range\<close> loops with the value that each iteration gives \<open>each\<close>.\<close>

definition set_each :: "gval \<Rightarrow> gval gmap option \<Rightarrow> gval gmap result" where
  "set_each e targetCopy =
     (case targetCopy of
        None \<Rightarrow> Inl (Panic ''assignment to entry in nil map'')
      | Some m \<Rightarrow> Inr (AList.update ''each'' e m))"

fun each_loop ::
  "('c, 'l, 'z) k8s_env_scheme \<Rightarrow> ('c, 'l) schema_manager \<Rightarrow> string \<Rightarrow> gval gmap option \<Rightarrow> gval list \<Rightarrow> unstructured list
    \<Rightarrow> ('c, 'l, unstructured list) wact" where
  "each_loop E sm rawItem targetCopy [] objs = ret objs"
| "each_loop E sm rawItem targetCopy (e # es) objs =
     bindA (liftR (set_each e targetCopy)) (\<lambda>targetCopy'.
     bindA (render_objects E sm rawItem (Some targetCopy')) (\<lambda>o1.
     each_loop E sm rawItem (Some targetCopy') es (objs @ o1)))"

definition map_entry :: "string \<times> gval \<Rightarrow> gval" where
  "map_entry kv = GMap [(''key'', GStr (fst kv)), (''value'', snd kv)]"

definition getObjects ::
  "('c, 'l, 'z) k8s_env_scheme \<Rightarrow> ('c, 'l) schema_manager \<Rightarrow> string \<Rightarrow> gval gmap option \<Rightarrow> ('c, 'l, unstructured list) wact" where
  "getObjects E sm rawItem target =
     bindA (wrapA ''failed to marshal target'' (liftR (of_error (MarshalJSON E (gval_of_map target))))) (\<lambda>j.
     bindA (wrapA ''failed to unmarshal target copy'' (liftR (of_error (UnmarshalMap E j)))) (\<lambda>targetCopy.
     bindA (wrapA ''failed to get conditional'' (conditional E rawItem target)) (\<lambda>c.
     if \<not> c then ret []
     else
       bindA (wrapA ''failed to get forEach'' (liftR (getForEach E rawItem target))) (\<lambda>forEach.
       if \<not> IsArray forEach \<and> \<not> IsMap forEach then render_objects E sm rawItem targetCopy
       else if IsArray forEach then each_loop E sm rawItem targetCopy (each_Array forEach) []
       else each_loop E sm rawItem targetCopy (map map_entry (each_Map forEach)) []))))"

fun getObjectsFromResources ::
  "('c, 'l, 'z) k8s_env_scheme \<Rightarrow> ('c, 'l) schema_manager \<Rightarrow> string list \<Rightarrow> unstructured \<Rightarrow> ('c, 'l, unstructured list) wact" where
  "getObjectsFromResources E sm [] target = ret []"
| "getObjectsFromResources E sm (item # items) target =
     bindA (getObjects E sm item (Object target)) (\<lambda>obj.
     bindA (getObjectsFromResources E sm items target) (\<lambda>objs. ret (obj @ objs)))"

definition getObjectsFromResourcesTemplate ::
  "('c, 'l, 'z) k8s_env_scheme \<Rightarrow> ('c, 'l) schema_manager \<Rightarrow> string \<Rightarrow> unstructured \<Rightarrow> ('c, 'l, unstructured list) wact" where
  "getObjectsFromResourcesTemplate E sm template target =
     bindA (wrapA ''failed to template resources'' (processTemplate E sm template (YObject target))) (\<lambda>data.
     wrapA ''failed to get unstructured objects'' (liftR (of_error (GetUnstructuredObjects E data))))"

section \<open>Namespaces\<close>

definition listNamespaces :: "('c, 'l, 'z) k8s_env_scheme \<Rightarrow> string \<Rightarrow> ('c, 'l, string list) wact" where
  "listNamespaces E selector = external (ListNamespaces selector) (srv_ListNamespaces E selector)"

definition GetSourceNamespaces :: "('c, 'l, 'z) k8s_env_scheme \<Rightarrow> template \<Rightarrow> ('c, 'l, string list) wact" where
  "GetSourceNamespaces E t =
     (let selector = NamespaceSelector (Source (Spec t)) in
      if MatchExpressions selector = [] \<and> MatchLabels selector = [] then ret ['''']
      else
        bindA (liftR (labelSelectorToString E selector)) (\<lambda>labelSelector.
        wrapA ''failed to list namespaces'' (listNamespaces E labelSelector)))"

definition getNamespaces :: "('c, 'l, 'z) k8s_env_scheme \<Rightarrow> copy_to_namespaces \<Rightarrow> ('c, 'l, string list) wact" where
  "getNamespaces E c =
     (let namespaceMap = fold (\<lambda>ns. AList.update ns True) (Namespaces c) [] in
      bindA (case CopyNamespaceSelector c of
               None \<Rightarrow> ret namespaceMap
             | Some selector \<Rightarrow>
                 bindA (wrapA ''failed to create label selector string'' (liftR (labelSelectorToString E selector))) (\<lambda>labelSelector.
                 bindA (wrapA ''failed to list namespaces with label selector'' (listNamespaces E labelSelector)) (\<lambda>items.
                 ret (fold (\<lambda>ns. AList.update ns True) items namespaceMap)))) (\<lambda>m.
      ret (sort (map fst m))))"

section \<open>What is rendered\<close>

lemma update_twice: "AList.update k v (AList.update k v' m) = AList.update k v m"
  by (induction m) auto

lemma each_loop_outs:
  "each_loop E sm rawItem (Some m) es acc w = (Inr objs, w') \<Longrightarrow>
    \<exists>outs. objs = acc @ concat outs \<and>
      list_all2 (\<lambda>e out. \<exists>w1 w2. render_objects E sm rawItem (Some (AList.update ''each'' e m)) w1 = (Inr out, w2)) es outs"
proof (induction es arbitrary: m acc w)
  case Nil
  then show ?case by (auto simp: ret_eq_Inr)
next
  case (Cons e es)
  then obtain out w1 where head: "render_objects E sm rawItem (Some (AList.update ''each'' e m)) w = (Inr out, w1)"
    and tail: "each_loop E sm rawItem (Some (AList.update ''each'' e m)) es (acc @ out) w1 = (Inr objs, w')"
    by (auto simp: act_eq_Inr set_each_def)
  obtain outs where "objs = (acc @ out) @ concat outs"
    "list_all2 (\<lambda>e out. \<exists>w1 w2. render_objects E sm rawItem (Some (AList.update ''each'' e m)) w1 = (Inr out, w2)) es outs"
    using Cons.IH [OF tail] unfolding update_twice by blast
  then show ?case using head by (intro exI [of _ "out # outs"]) auto
qed

text \<open>The values that \<open>each\<close> takes, None for an item without a loop.\<close>

definition iterations :: "for_each \<Rightarrow> gval list option" where
  "iterations fe = (if IsArray fe then Some (each_Array fe) else if IsMap fe then Some (map map_entry (each_Map fe)) else None)"

lemma getObjects_cases:
  assumes "getObjects E sm rawItem target w = (Inr objs, w')"
  obtains (skipped) w1 where "conditional E rawItem target w = (Inr False, w1)" "objs = []"
  | (rendered) w1 fe tc where "conditional E rawItem target w = (Inr True, w1)" "getForEach E rawItem target = Inr fe"
      "case iterations fe of None \<Rightarrow> render_objects E sm rawItem tc w1 = (Inr objs, w')
        | Some es \<Rightarrow> each_loop E sm rawItem tc es [] w1 = (Inr objs, w')"
      "\<exists>j. MarshalJSON E (gval_of_map target) = Inr j \<and> UnmarshalMap E j = Inr tc"
proof -
  obtain j tc c w1 where json: "MarshalJSON E (gval_of_map target) = Inr j" "UnmarshalMap E j = Inr tc"
    and cond: "conditional E rawItem target w = (Inr c, w1)"
    and rest: "(if \<not> c then ret [] else
       bindA (wrapA ''failed to get forEach'' (liftR (getForEach E rawItem target))) (\<lambda>forEach.
       if \<not> IsArray forEach \<and> \<not> IsMap forEach then render_objects E sm rawItem tc
       else if IsArray forEach then each_loop E sm rawItem tc (each_Array forEach) []
       else each_loop E sm rawItem tc (map map_entry (each_Map forEach)) [])) w1 = (Inr objs, w')"
    using assms unfolding getObjects_def bindA_eq_Inr wrapA_eq_Inr liftR_eq_Inr of_error_eq_Inr by blast
  show thesis
  proof (cases c)
    case False
    then show ?thesis using rest cond by (intro skipped) (simp_all add: ret_eq_Inr)
  next
    case True
    then obtain fe where "getForEach E rawItem target = Inr fe"
      "(if \<not> IsArray fe \<and> \<not> IsMap fe then render_objects E sm rawItem tc
        else if IsArray fe then each_loop E sm rawItem tc (each_Array fe) []
        else each_loop E sm rawItem tc (map map_entry (each_Map fe)) []) w1 = (Inr objs, w')"
      using rest by (simp add: bindA_eq_Inr wrapA_eq_Inr liftR_eq_Inr) blast
    then show ?thesis using cond json True
      by (intro rendered [of w1 fe tc]) (simp_all add: iterations_def split: if_splits)
  qed
qed

text \<open>
  C24. A resource item whose \<open>when\<close> condition is false renders no objects. Otherwise an item with a
  \<open>forEach\<close> over an array or a map renders one batch of objects for each element, in order, from a
  copy of the target in which \<open>each\<close> is that element; an item without \<open>forEach\<close> renders one batch.
\<close>

theorem getObjects_batches:
  assumes "getObjects E sm rawItem target w = (Inr objs, w')"
    and "MarshalJSON E (gval_of_map target) = Inr j" and "UnmarshalMap E j = Inr (Some copy)"
  shows "\<exists>c w1. conditional E rawItem target w = (Inr c, w1) \<and>
    (if c then \<exists>fe outs. getForEach E rawItem target = Inr fe \<and> objs = concat outs \<and>
         list_all2 (\<lambda>vars out. \<exists>wa wb. render_objects E sm rawItem (Some vars) wa = (Inr out, wb))
           (case iterations fe of None \<Rightarrow> [copy] | Some es \<Rightarrow> map (\<lambda>e. AList.update ''each'' e copy) es) outs
     else objs = [])"
  using assms(1)
proof (cases rule: getObjects_cases)
  case (skipped w1)
  then show ?thesis by auto
next
  case (rendered w1 fe tc)
  have tc: "tc = Some copy" using rendered(4) assms(2,3) by auto
  show ?thesis
  proof (cases "iterations fe")
    case None
    then have "render_objects E sm rawItem (Some copy) w1 = (Inr objs, w')" using rendered(3) tc by simp
    then have "getForEach E rawItem target = Inr fe \<and> objs = concat [objs] \<and>
         list_all2 (\<lambda>vars out. \<exists>wa wb. render_objects E sm rawItem (Some vars) wa = (Inr out, wb))
           (case iterations fe of None \<Rightarrow> [copy] | Some es \<Rightarrow> map (\<lambda>e. AList.update ''each'' e copy) es) [objs]"
      using rendered(2) None by auto
    then show ?thesis using rendered(1) by (intro exI [of _ True] exI [of _ w1]) (simp only: if_True, blast)
  next
    case (Some es)
    then obtain outs where "objs = concat outs"
      "list_all2 (\<lambda>e out. \<exists>wa wb. render_objects E sm rawItem (Some (AList.update ''each'' e copy)) wa = (Inr out, wb)) es outs"
      using rendered(3) tc each_loop_outs [of E sm rawItem copy es "[]" w1 objs w'] by auto
    then have "getForEach E rawItem target = Inr fe \<and> objs = concat outs \<and>
         list_all2 (\<lambda>vars out. \<exists>wa wb. render_objects E sm rawItem (Some vars) wa = (Inr out, wb))
           (case iterations fe of None \<Rightarrow> [copy] | Some es \<Rightarrow> map (\<lambda>e. AList.update ''each'' e copy) es) outs"
      using rendered(2) Some by (simp add: list_all2_map1)
    then show ?thesis using rendered(1) by (intro exI [of _ True] exI [of _ w1]) (simp only: if_True, blast)
  qed
qed

lemma demo_render:
  "render_objects demo_env no_definitions item (Some vars) w = (Inr [config_map ''default'' ''yaml''], w)"
  by (simp add: render_objects_def Template_def template_vars_def execute_template_def parse_template_def
      duckTypeTemplateResult_def duckTypeTemplateResultObject_def duck_type_or_keep_def DuckType_def FindSchemaForKind_def
      no_definitions_def query_def liftR_def wrapA_def attempt_def raise_def ret_def bindA_def demo_env_def)

lemma demo_each:
  "conditional demo_env ''each'' target w = (Inr True, w)"
  "getForEach demo_env ''each'' target = Inr \<lparr>IsArray = True, IsMap = False, each_Array = [GStr ''x'', GStr ''y''], each_Map = []\<rparr>"
  by (simp_all add: conditional_def getForEach_def JSONPath_def no_each_def trim_prefix_def trim_suffix_def has_prefix_def
      ret_def demo_env_def)

theorem getObjects_batches_witness:
  "\<exists>objs w'. getObjects demo_env no_definitions ''each'' None demo_world = (Inr objs, w') \<and> length objs = 2"
proof -
  have env: "MarshalJSON demo_env v = Inr ''json''" "UnmarshalMap demo_env s = Inr (Some [])" for v s
    by (simp_all add: demo_env_def)
  obtain objs w' where run: "getObjects demo_env no_definitions ''each'' None demo_world = (Inr objs, w')"
    by (simp add: getObjects_def env bindA_def wrapA_def liftR_def demo_each set_each_def demo_render ret_def)
  have "length objs = 2"
    using getObjects_batches [OF run env] by (auto simp: demo_each iterations_def demo_render list_all2_Cons1)
  then show ?thesis using run by blast
qed

section \<open>The namespaces to copy to\<close>

lemma namespace_set: "fst ` set (fold (\<lambda>ns. AList.update ns True) xs m) = set xs \<union> fst ` set m"
  by (induction xs arbitrary: m) (auto simp: dom_update)

lemma namespace_distinct: "map_wf m \<Longrightarrow> map_wf (fold (\<lambda>ns. AList.update ns True) xs m)"
  by (induction xs arbitrary: m) simp_all

text \<open>
  The namespaces to copy to are the listed ones together with those that the selector finds in
  the cluster, each exactly once, in ascending order.
\<close>

theorem getNamespaces_sorted_union:
  assumes "getNamespaces E c w = (Inr ns, w')"
  shows "sorted ns \<and> distinct ns \<and>
    (case CopyNamespaceSelector c of
       None \<Rightarrow> set ns = set (Namespaces c)
     | Some s \<Rightarrow> \<exists>selector found c'. labelSelectorToString E s = Inr selector \<and>
          srv_ListNamespaces E selector (cluster w) = (Inr found, c') \<and> set ns = set (Namespaces c) \<union> set found)"
proof (cases "CopyNamespaceSelector c")
  case None
  then show ?thesis
    using assms namespace_distinct [of "[]" "Namespaces c"]
    by (auto simp: getNamespaces_def Let_def ret_eq_Inr namespace_set map_wf_def)
next
  case (Some s)
  then obtain selector found w1 where sel: "labelSelectorToString E s = Inr selector"
    and list: "listNamespaces E selector w = (Inr found, w1)"
    and ns: "ns = sort (map fst (fold (\<lambda>ns. AList.update ns True) found (fold (\<lambda>ns. AList.update ns True) (Namespaces c) [])))"
    using assms by (auto simp: getNamespaces_def Let_def act_eq_Inr)
  have "\<exists>c'. srv_ListNamespaces E selector (cluster w) = (Inr found, c')"
    using list by (auto simp: listNamespaces_def external_def split: prod.splits)
  moreover have "map_wf (fold (\<lambda>ns. AList.update ns True) found (fold (\<lambda>ns. AList.update ns True) (Namespaces c) []))"
    by (intro namespace_distinct) (simp add: map_wf_def)
  ultimately show ?thesis using Some sel ns by (auto simp: namespace_set map_wf_def)
qed

theorem getNamespaces_sorted_union_witness:
  "\<exists>w' ns. getNamespaces demo_env \<lparr>Namespaces = [''red'', ''blue''],
      CopyNamespaceSelector = Some \<lparr>MatchLabels = [], MatchExpressions = []\<rparr>\<rparr> demo_world = (Inr ns, w')
     \<and> sorted ns \<and> distinct ns \<and> set ns = {''red'', ''blue'', ''default''}"
proof -
  let ?c = "\<lparr>Namespaces = [''red'', ''blue''], CopyNamespaceSelector = Some \<lparr>MatchLabels = [], MatchExpressions = []\<rparr>\<rparr>"
  obtain ns w' where run: "getNamespaces demo_env ?c demo_world = (Inr ns, w')"
    by (simp add: getNamespaces_def listNamespaces_def labelSelectorToString_def demo_env_def external_def ret_def liftR_def
        wrapA_def bindA_def)
  have "sorted ns \<and> distinct ns \<and> set ns = {''red'', ''blue'', ''default''}"
    using getNamespaces_sorted_union [OF run] by (auto simp: labelSelectorToString_def demo_env_def)
  then show ?thesis using run by blast
qed

end
