(* ===== verification/TemplateManager.thy ===== *)
theory TemplateManager
  imports Render
begin

text \<open>
  The applying half of \<open>k8s/template_manager.go\<close>: selecting the source objects of a template,
  patching them, applying the rendered objects in the order of their dependencies, copying the
  source to namespaces, setting its condition, and the source from a git repository.
  In \<open>HandleSource\<close>, \<open>target\<close> is the pointer to \<open>source\<close> from beginning to end (\<open>Apply\<close> and
  \<open>markApplied\<close> return the pointer that they get), so one object stands for both.
\<close>

section \<open>Annotations and owners\<close>

definition mkAnnotation :: "template \<Rightarrow> string" where
  "mkAnnotation t = ''platform.flanksource.com/template-operator_'' @ tpl_Namespace t @ ''_'' @ tpl_Name t"

definition alreadyApplied :: "('c, 'l, 'z) k8s_env_scheme \<Rightarrow> template \<Rightarrow> unstructured \<Rightarrow> bool" where
  "alreadyApplied E t item \<longleftrightarrow> annotation (Meta E) item (mkAnnotation t) = Some ''true''"

definition markApplied :: "('c, 'l, 'z) k8s_env_scheme \<Rightarrow> template \<Rightarrow> unstructured \<Rightarrow> unstructured" where
  "markApplied E t item =
     SetAnnotations (Meta E) (Some (AList.update (mkAnnotation t) ''true'' (the_map (GetAnnotations (Meta E) item)))) item"

definition owner_annotation :: string where
  "owner_annotation = ''template-operator-owner-ref''"

definition crossNamespaceOwner :: "('c, 'l, 'z) k8s_env_scheme \<Rightarrow> unstructured \<Rightarrow> unstructured \<Rightarrow> unstructured" where
  "crossNamespaceOwner E item owner =
     SetAnnotations (Meta E)
       (Some (AList.update owner_annotation (GetNamespace (Meta E) owner @ ''/'' @ GetName (Meta E) owner)
          (the_map (GetAnnotations (Meta E) item)))) item"

definition owner_reference :: "('c, 'l, 'z) k8s_env_scheme \<Rightarrow> unstructured \<Rightarrow> owner_ref" where
  "owner_reference E source = \<lparr>own_APIVersion = GetAPIVersion (Meta E) source, own_Kind = GetKind (Meta E) source,
     own_Name = GetName (Meta E) source, own_UID = GetUID (Meta E) source\<rparr>"

definition setOwner :: "('c, 'l, 'z) k8s_env_scheme \<Rightarrow> unstructured \<Rightarrow> unstructured \<Rightarrow> unstructured" where
  "setOwner E source obj =
     (if GetNamespace (Meta E) source = GetNamespace (Meta E) obj
      then SetOwnerReferences (Meta E) [owner_reference E source] obj
      else crossNamespaceOwner E obj source)"

section \<open>Events and errors\<close>

text \<open>\<open>if err := ...; err != nil { tm.Events.Eventf(...); return ..., err }\<close>\<close>

definition on_error :: "(gerror \<Rightarrow> string) \<Rightarrow> ('c, 'l, 'a) wact \<Rightarrow> ('c, 'l, 'a) wact" where
  "on_error msg m = bindA (attempt m) (\<lambda>r.
     (case r of
        Inl e \<Rightarrow> bindA (record_call (Event ''Warning'' (msg e))) (\<lambda>_. raise e)
      | Inr x \<Rightarrow> ret x))"

definition applyUnstructured :: "('c, 'l, 'z) k8s_env_scheme \<Rightarrow> string \<Rightarrow> unstructured \<Rightarrow> ('c, 'l, unstructured) wact" where
  "applyUnstructured E ns obj = external (ApplyUnstructured ns obj) (srv_Apply E ns obj)"

section \<open>Dependencies\<close>

definition isResourceReady :: "('c, 'l, 'z) k8s_env_scheme \<Rightarrow> unstructured \<Rightarrow> ('c, 'l, bool \<times> string) wact" where
  "isResourceReady E item =
     (if IsTrivialType E item then ret (True, '''')
      else bindA (wrapA ''failed to refresh object'' (external (RefreshObject item) (Refresh E item))) (\<lambda>refreshed.
           ret (IsReady E refreshed)))"

fun getObjectFromId :: "string \<Rightarrow> unstructured list \<Rightarrow> unstructured result" where
  "getObjectFromId oid [] = Inl (Fail (Error (''No object found with id: '' @ oid)))"
| "getObjectFromId oid (obj # objs) =
     (case obj_get ''id'' obj of
        GNil \<Rightarrow> getObjectFromId oid objs
      | GStr s \<Rightarrow> if s = oid then Inr obj else getObjectFromId oid objs
      | _ \<Rightarrow> Inl (Panic ''interface conversion: interface {} is not string''))"

text \<open>\<open>fmt.Sprint\<close> of one value.\<close>

fun Sprint :: "('c, 'l, 'z) k8s_env_scheme \<Rightarrow> gval \<Rightarrow> string" where
  "Sprint E (GStr s) = s"
| "Sprint E GNil = ''<nil>''"
| "Sprint E (GBool b) = (if b then ''true'' else ''false'')"
| "Sprint E (GInt i) = FormatInt i"
| "Sprint E (GUint i) = FormatUint i"
| "Sprint E v = SprintOther E v"

definition getDependsOnIds :: "('c, 'l, 'z) k8s_env_scheme \<Rightarrow> unstructured \<Rightarrow> string list result" where
  "getDependsOnIds E obj =
     (case obj_get ''depends'' obj of
        GNil \<Rightarrow> Inr []
      | GSlice depends \<Rightarrow> Inr (map (Sprint E) depends)
      | GTypedNil RSlice \<Rightarrow> Inr []
      | _ \<Rightarrow> Inl (Panic ''interface conversion: interface {} is not []interface {}''))"

fun check_ids :: "('c, 'l, 'z) k8s_env_scheme \<Rightarrow> string list \<Rightarrow> unstructured list \<Rightarrow> ('c, 'l, bool \<times> string \<times> ctrl_result) wact" where
  "check_ids E [] objs = ret (True, ''object is ready'', no_result)"
| "check_ids E (oid # ids) objs =
     bindA (liftR (getObjectFromId oid objs)) (\<lambda>dependObj.
     bindA (isResourceReady E dependObj) (\<lambda>(ready, msg).
     if \<not> ready then ret (False, msg, \<lparr>Requeue = True, RequeueAfter = 2 * minute\<rparr>)
     else check_ids E ids objs))"

definition checkDependentObjects ::
  "('c, 'l, 'z) k8s_env_scheme \<Rightarrow> unstructured \<Rightarrow> unstructured list \<Rightarrow> ('c, 'l, bool \<times> string \<times> ctrl_result) wact" where
  "checkDependentObjects E obj objs = bindA (liftR (getDependsOnIds E obj)) (\<lambda>ids. check_ids E ids objs)"

section \<open>HandleSource\<close>

fun apply_patches ::
  "('c, 'l, 'z) k8s_env_scheme \<Rightarrow> ('c, 'l) patch_applier \<Rightarrow> string \<Rightarrow> string list \<Rightarrow> unstructured \<Rightarrow> ('c, 'l, unstructured) wact" where
  "apply_patches E ap patchType [] target = ret target"
| "apply_patches E ap patchType (p # ps) target =
     bindA (on_error (\<lambda>_. ''Failed to apply patch'') (Apply E ap target p patchType)) (apply_patches E ap patchType ps)"

definition patchSource ::
  "('c, 'l, 'z) k8s_env_scheme \<Rightarrow> ('c, 'l) patch_applier \<Rightarrow> template \<Rightarrow> unstructured \<Rightarrow> ('c, 'l, unstructured) wact" where
  "patchSource E ap t source =
     (if \<not> Onceoff (Spec t) \<or> \<not> alreadyApplied E t source then
        bindA (apply_patches E ap PatchTypeYaml (Patches (Spec t)) source) (\<lambda>t1.
        bindA (apply_patches E ap PatchTypeJSON (map Patch (JsonPatches (Spec t))) t1) (\<lambda>t2.
        if JsonPatches (Spec t) \<noteq> [] \<or> Patches (Spec t) \<noteq> [] then
          (let target = stripAnnotations E (markApplied E t t2)
           in on_error (\<lambda>_. ''Failed to apply object'') (applyUnstructured E (GetNamespace (Meta E) target) target))
        else ret t2))
      else ret source)"

text \<open>
  The loop over the rendered objects, by index: the variable of the loop is a copy of the element
  that shares its map, so the changes show in \<open>objs\<close>, which later iterations search. The state is
  \<open>isSourceReady\<close> and \<open>result\<close>.
\<close>

fun apply_objects ::
  "('c, 'l, 'z) k8s_env_scheme \<Rightarrow> unstructured \<Rightarrow> nat list \<Rightarrow> unstructured list \<Rightarrow> bool \<Rightarrow> ctrl_result
    \<Rightarrow> ('c, 'l, bool \<times> ctrl_result) wact" where
  "apply_objects E source [] objs isSourceReady result = ret (isSourceReady, result)"
| "apply_objects E source (i # rest) objs isSourceReady result =
     bindA (on_error (\<lambda>_. ''Failed to check dependent objects'') (checkDependentObjects E (objs ! i) objs)) (\<lambda>(ready, msg, rslt).
     if \<not> ready then apply_objects E source rest objs isSourceReady rslt
     else
       (let obj = stripAnnotations E (setOwner E source (objs ! i)) in
        bindA (on_error (\<lambda>e. ''Failed to apply new resource kind='' @ GetKind (Meta E) obj @ '' name='' @ GetName (Meta E) obj
                             @ '' err='' @ err_text e)
                 (applyUnstructured E (GetNamespace (Meta E) obj) obj)) (\<lambda>obj'.
        bindA (wrapA ''failed to check if resource is ready'' (isResourceReady E obj')) (\<lambda>(isReady, _).
        apply_objects E source rest (objs[i := obj']) (isSourceReady \<and> isReady) result))))"

definition namespace_copy :: "('c, 'l, 'z) k8s_env_scheme \<Rightarrow> unstructured \<Rightarrow> string \<Rightarrow> unstructured" where
  "namespace_copy E source ns =
     crossNamespaceOwner E (StripIdentifiers E (stripAnnotations E (SetNamespace (Meta E) ns source))) source"

fun copy_objects ::
  "('c, 'l, 'z) k8s_env_scheme \<Rightarrow> unstructured \<Rightarrow> string list \<Rightarrow> bool \<Rightarrow> ('c, 'l, bool) wact" where
  "copy_objects E source [] isSourceReady = ret isSourceReady"
| "copy_objects E source (ns # nss) isSourceReady =
     (let newResource = namespace_copy E source ns in
      bindA (on_error (\<lambda>_. ''Failed to copy to namespace '' @ ns)
               (applyUnstructured E (GetNamespace (Meta E) newResource) newResource)) (\<lambda>r.
      bindA (wrapA ''failed to check if resource is ready'' (isResourceReady E r)) (\<lambda>(isReady, _).
      copy_objects E source nss (isSourceReady \<and> isReady))))"

definition copyToNamespaces ::
  "('c, 'l, 'z) k8s_env_scheme \<Rightarrow> template \<Rightarrow> unstructured \<Rightarrow> bool \<Rightarrow> ('c, 'l, bool) wact" where
  "copyToNamespaces E t source isSourceReady =
     (case CopyToNamespaces (Spec t) of
        None \<Rightarrow> ret isSourceReady
      | Some c \<Rightarrow>
          bindA (wrapA ''failed to get namespaces'' (on_error (\<lambda>_. ''Failed to get namespaces'') (getNamespaces E c))) (\<lambda>namespaces.
          copy_objects E source namespaces isSourceReady))"

definition setCondition :: "('c, 'l, 'z) k8s_env_scheme \<Rightarrow> template \<Rightarrow> unstructured \<Rightarrow> bool \<Rightarrow> ('c, 'l, unit) wact" where
  "setCondition E t source isSourceReady =
     (let name = ''template-'' @ tpl_Name t;
          val = (if isSourceReady then ''Ready'' else ''NotReady'')
      in bindA (attempt (external (SetCondition source name val) (srv_SetCondition E source name val))) (\<lambda>_. ret ()))"

definition renderAll ::
  "('c, 'l, 'z) k8s_env_scheme \<Rightarrow> ('c, 'l) schema_manager \<Rightarrow> template \<Rightarrow> unstructured \<Rightarrow> ('c, 'l, unstructured list) wact" where
  "renderAll E sm t target =
     bindA (getObjectsFromResources E sm (Resources (Spec t)) target) (\<lambda>objs.
     bindA (getObjectsFromResourcesTemplate E sm (ResourcesTemplate (Spec t)) target) (\<lambda>tobjs.
     ret (objs @ tobjs)))"

definition HandleSource ::
  "('c, 'l, 'z) k8s_env_scheme \<Rightarrow> ('c, 'l) template_manager \<Rightarrow> template \<Rightarrow> unstructured \<Rightarrow> ('c, 'l, ctrl_result) wact" where
  "HandleSource E tm t source0 =
     bindA (patchSource E (PatchApplier_of tm) t source0) (\<lambda>source.
     bindA (renderAll E (SchemaMgr tm) t source) (\<lambda>objs.
     bindA (apply_objects E source [0..<length objs] objs True no_result) (\<lambda>(isSourceReady, result).
     bindA (copyToNamespaces E t source isSourceReady) (\<lambda>isSourceReady.
     bindA (setCondition E t source isSourceReady) (\<lambda>_.
     ret result)))))"

section \<open>Sources\<close>

fun list_sources ::
  "('c, 'l, 'z) k8s_env_scheme \<Rightarrow> resource_selector \<Rightarrow> string list \<Rightarrow> unstructured list \<Rightarrow> ('c, 'l, unstructured list) wact" where
  "list_sources E selector [] sources = ret sources"
| "list_sources E selector (ns # nss) sources =
     bindA (wrapA (''failed to get dynamic client for kind '' @ sel_Kind selector)
              (query (GetClientByKind E (sel_Kind selector)))) (\<lambda>_.
     bindA (liftR (labelSelectorToString E (LabelSelector selector))) (\<lambda>labelSelector.
     bindA (wrapA (''failed to list resources for kind '' @ sel_Kind selector)
              (external (ListResources (sel_Kind selector) ns (FieldSelector selector) labelSelector)
                 (srv_List E (sel_Kind selector) ns (FieldSelector selector) labelSelector))) (\<lambda>items.
     list_sources E selector nss (sources @ items))))"

definition selectResources ::
  "('c, 'l, 'z) k8s_env_scheme \<Rightarrow> ('c, 'l) template_manager \<Rightarrow> template \<Rightarrow> ('c, 'l, unstructured list) wact" where
  "selectResources E tm t =
     (let selector = Source (Spec t) in
      if sel_Kind selector = '''' \<or> sel_APIVersion selector = '''' then raise (Error ''must specify a kind and apiVersion'')
      else
        bindA (wrapA ''failed to get namespaces'' (GetSourceNamespaces E t)) (\<lambda>namespaceNames.
        bindA (list_sources E selector namespaceNames []) (\<lambda>sources.
        bindA (case sources of
                 [] \<Rightarrow> ret (Inr ())
               | obj # _ \<Rightarrow> attempt (WatchObject E (Watcher_of tm) obj t)) (\<lambda>_.
        ret sources))))"

text \<open>The loop of \<open>Run\<close>; every iteration overwrites \<open>result\<close>.\<close>

fun handle_sources ::
  "('c, 'l, 'z) k8s_env_scheme \<Rightarrow> ('c, 'l) template_manager \<Rightarrow> template \<Rightarrow> unstructured list \<Rightarrow> ctrl_result
    \<Rightarrow> ('c, 'l, ctrl_result) wact" where
  "handle_sources E tm t [] result = ret result"
| "handle_sources E tm t (source # sources) result =
     bindA (HandleSource E tm t source) (\<lambda>result'. handle_sources E tm t sources result')"

section \<open>Git repositories\<close>

definition getGitRepository :: "('c, 'l, 'z) k8s_env_scheme \<Rightarrow> string \<Rightarrow> string \<Rightarrow> ('c, 'l, unstructured) wact" where
  "getGitRepository E name namespace =
     bindA (wrapA ''failed to get dynamic client'' (query (GetDynamicClient E))) (\<lambda>_.
     bindA (attempt (query (GetRestMapper E))) (\<lambda>rm.
     bindA (case rm of
              Inl _ \<Rightarrow> liftR (Inl nil_deref)
            | Inr _ \<Rightarrow> wrapA ''failed to get kind for GitRepository'' (query (KindForGitRepository E))) (\<lambda>g.
     bindA (wrapA ''failed to get rest mapping for GitRepository'' (query (RESTMapping E g))) (\<lambda>_.
     external (GetGitRepository name namespace) (srv_GetGitRepository E name namespace)))))"

text \<open>
  The loop over the archive. In the branch for other types of files \<open>err\<close> is nil, and
  \<open>errors.Wrapf\<close> of nil is nil: the function then returns nil files and no error, None here.
\<close>

fun tar_files :: "(string \<Rightarrow> bool) \<Rightarrow> tar_event list \<Rightarrow> string gmap \<Rightarrow> string gmap option result" where
  "tar_files match [] files = Inr (Some files)"
| "tar_files match (BadHeader e # evs) files = Inl (Fail (Wrap ''failed to advance to next file in tar archive'' e))"
| "tar_files match (Header name typ content # evs) files =
     (case typ of
        TypeDir \<Rightarrow> tar_files match evs files
      | TypeReg \<Rightarrow>
          if match (''/'' @ name) then
            (case content of
               Inl e \<Rightarrow> Inl (Fail (Wrap (''failed to read file '' @ name @ '' from tar archive'') e))
             | Inr d \<Rightarrow> tar_files match evs (AList.update name d files))
          else tar_files match evs files
      | TypeOther \<Rightarrow>
          (case wrap_error (''failed to find type of file '' @ name) None of
             Some e \<Rightarrow> Inl (Fail e)
           | None \<Rightarrow> Inr None))"

definition getGitRepositoryFiles ::
  "('c, 'l, 'z) k8s_env_scheme \<Rightarrow> git_repository \<Rightarrow> string \<Rightarrow> string gmap option result" where
  "getGitRepositoryFiles E source archive =
     bindR (wrapR (''failed to compile glob pattern '' @ git_Glob source) (of_error (GlobCompile E (git_Glob source)))) (\<lambda>g.
     bindR (wrapR ''failed to read gzip archive'' (of_error (GunzipTar E archive))) (\<lambda>evs.
     tar_files g evs []))"

definition artifact_url :: "unstructured \<Rightarrow> string result" where
  "artifact_url gitRepository =
     (case obj_get ''status'' gitRepository of
        GMap status \<Rightarrow>
          (case map_of status ''artifact'' of
             Some (GMap artifact) \<Rightarrow>
               (case map_of artifact ''url'' of
                  Some (GStr url) \<Rightarrow> Inr url
                | _ \<Rightarrow> Inl (Fail (Error ''could not find url in gitRepository.status.artifact'')))
           | _ \<Rightarrow> Inl (Fail (Error ''failed to get gitRepository.status.artifact'')))
      | _ \<Rightarrow> Inl (Fail (Error ''failed to convert gitRepository.status to map'')))"

definition put_field :: "string \<Rightarrow> gval \<Rightarrow> unstructured \<Rightarrow> unstructured result" where
  "put_field k v u =
     (case Object u of
        None \<Rightarrow> Inl (Panic ''assignment to entry in nil map'')
      | Some _ \<Rightarrow> Inr (obj_put k v u))"

fun handle_files ::
  "('c, 'l, 'z) k8s_env_scheme \<Rightarrow> ('c, 'l) template_manager \<Rightarrow> template \<Rightarrow> string gmap \<Rightarrow> ('c, 'l, unit) wact" where
  "handle_files E tm t [] = ret ()"
| "handle_files E tm t ((filename, content) # files) =
     bindA (wrapA ''failed to convert template to unstructured'' (liftR (of_error (ToUnstructured E t)))) (\<lambda>u.
     bindA (liftR (put_field ''filename'' (GStr filename) u)) (\<lambda>u1.
     bindA (liftR (put_field ''content'' (GStr content) u1)) (\<lambda>u2.
     bindA (HandleSource E tm t u2) (\<lambda>_. handle_files E tm t files))))"

definition handleGitRepository ::
  "('c, 'l, 'z) k8s_env_scheme \<Rightarrow> ('c, 'l) template_manager \<Rightarrow> template \<Rightarrow> git_repository \<Rightarrow> ('c, 'l, ctrl_result) wact" where
  "handleGitRepository E tm t source =
     bindA (wrapA ''failed to get git repository'' (getGitRepository E (git_Name source) (git_Namespace source))) (\<lambda>gitRepository.
     bindA (liftR (artifact_url gitRepository)) (\<lambda>url.
     bindA (attempt (external (HttpGet url) (srv_HttpGet E url))) (\<lambda>resp.
     bindA (case resp of
              Inl _ \<Rightarrow> raise (Error ''failed to download gitRepository archive'')
            | Inr body \<Rightarrow> wrapA ''failed to get gitRepository files'' (liftR (getGitRepositoryFiles E source body))) (\<lambda>files.
     bindA (handle_files E tm t (case files of None \<Rightarrow> [] | Some m \<Rightarrow> m)) (\<lambda>_.
     ret no_result)))))"

definition Run ::
  "('c, 'l, 'z) k8s_env_scheme \<Rightarrow> ('c, 'l) template_manager \<Rightarrow> template \<Rightarrow> ('c, 'l, ctrl_result) wact" where
  "Run E tm t =
     (case GitRepository (Source (Spec t)) of
        Some g \<Rightarrow> handleGitRepository E tm t g
      | None \<Rightarrow> bindA (selectResources E tm t) (\<lambda>sources. handle_sources E tm t sources no_result))"

end
