(* ===== verification/Calls.thy ===== *)
theory Calls
  imports TemplateManager
begin

text \<open>
  What every operation of the template side keeps, as one interface: a predicate \<open>I\<close> on the world
  that survives changes of the cluster, calls that satisfy \<open>P\<close>, marks of the watcher and the methods
  of the schema cache survives every operation that makes only such calls. One lemma for each
  operation says which calls \<open>P\<close> has to allow. The record of calls and the invariant of the schema
  cache are instances.
\<close>

text \<open>A schema manager as \<open>NewSchemaManagerWithCache\<close> builds it, and the managers of a template manager.\<close>

definition uses_cache :: "('c, 'l, 'z) k8s_env_scheme \<Rightarrow> ('c, 'l) schema_manager \<Rightarrow> bool" where
  "uses_cache E sm \<longleftrightarrow> fetchCrdFn sm = FetchCRD E \<and> convertSchemaFn sm = CachedConvertSchema E"

definition uses_manager :: "('c, 'l, 'z) k8s_env_scheme \<Rightarrow> ('c, 'l) template_manager \<Rightarrow> bool" where
  "uses_manager E tm \<longleftrightarrow> uses_cache E (SchemaMgr tm) \<and> uses_cache E (Applier_SchemaManager (PatchApplier_of tm))"

lemma uses_managerD:
  "uses_manager E tm \<Longrightarrow> uses_cache E (SchemaMgr tm)"
  "uses_manager E tm \<Longrightarrow> uses_cache E (Applier_SchemaManager (PatchApplier_of tm))"
  by (simp_all add: uses_manager_def)

lemma NewSchemaManagerWithCache_uses:
  "NewSchemaManagerWithCache E w = (Inr sm, w') \<Longrightarrow> uses_cache E sm"
  by (auto simp: NewSchemaManagerWithCache_def act_eq_Inr uses_cache_def)

section \<open>The phases of HandleSource\<close>

text \<open>What \<open>HandleSource\<close> does once the objects are rendered, up to the condition.\<close>

definition apply_phase ::
  "('c, 'l, 'z) k8s_env_scheme \<Rightarrow> template \<Rightarrow> unstructured \<Rightarrow> unstructured list \<Rightarrow> ('c, 'l, bool \<times> ctrl_result) wact" where
  "apply_phase E t source objs =
     bindA (apply_objects E source [0..<length objs] objs True no_result) (\<lambda>(ready, result).
     bindA (copyToNamespaces E t source ready) (\<lambda>ready'. ret (ready', result)))"

lemma bindA_case_prod: "bindA (case p of (x, y) \<Rightarrow> f x y) h = (case p of (x, y) \<Rightarrow> bindA (f x y) h)"
  by (cases p) simp

lemma HandleSource_phases:
  "HandleSource E tm t source0 =
     bindA (patchSource E (PatchApplier_of tm) t source0) (\<lambda>source.
     bindA (renderAll E (SchemaMgr tm) t source) (\<lambda>objs.
     bindA (apply_phase E t source objs) (\<lambda>(ready, result).
     bindA (setCondition E t source ready) (\<lambda>_. ret result))))"
  unfolding HandleSource_def apply_phase_def
  by (simp add: bindA_assoc bindA_case_prod case_prod_unfold)

section \<open>The interface\<close>

text \<open>The calls that handling the sources of a template makes.\<close>

definition template_calls :: "(call \<Rightarrow> bool) \<Rightarrow> bool" where
  "template_calls P \<longleftrightarrow> P ListCRDs \<and> (\<forall>m. P (Event ''Warning'' m)) \<and> (\<forall>ns u. P (ApplyUnstructured ns u)) \<and>
     (\<forall>u. P (RefreshObject u)) \<and> (\<forall>s. P (ListNamespaces s)) \<and> (\<forall>u n v. P (SetCondition u n v)) \<and>
     (\<forall>k ns f l. P (ListResources k ns f l)) \<and> (\<forall>k l f. P (StartInformer k l f)) \<and>
     (\<forall>n ns. P (GetGitRepository n ns)) \<and> (\<forall>u. P (HttpGet u))"

locale calling = logging I P
  for I :: "('c, 'l) world \<Rightarrow> bool" and P :: "call \<Rightarrow> bool" +
  fixes E :: "('c, 'l, 'z) k8s_env_scheme"
  assumes I_watched: "I w \<Longrightarrow> I (w\<lparr>watched := AList.update x True (watched w)\<rparr>)"
    and I_FetchSchema: "P GetOpenAPI \<Longrightarrow> keeps I (FetchSchema E)"
    and I_FetchResources: "P GetServerResources \<Longrightarrow> keeps I (FetchResources E)"
    and I_FetchCRD: "P ListCRDs \<Longrightarrow> keeps I (FetchCRD E)"
    and I_CachedConvertSchema: "keeps I (CachedConvertSchema E g v)"
begin

lemma kept_versions_loop: "uses_cache E sm \<Longrightarrow> keeps I (versions_loop sm g vs)"
  by (induction vs) (auto simp: parseCrdSchemaVersion_def uses_cache_def I_CachedConvertSchema intro!: valid_intros)

lemma kept_crds_loop: "uses_cache E sm \<Longrightarrow> keeps I (crds_loop sm g cs)"
  by (induction cs) (auto simp: kept_versions_loop intro!: valid_intros)

lemma kept_FindSchemaForKind:
  assumes "uses_cache E sm" "P ListCRDs"
  shows "keeps I (FindSchemaForKind sm g)"
proof -
  have "keeps I (findSchemaForCrd sm g)"
    unfolding findSchemaForCrd_def using assms
    by (auto simp: uses_cache_def I_FetchCRD intro!: valid_intros kept_crds_loop [OF assms(1)])
  then show ?thesis unfolding FindSchemaForKind_def by (auto intro!: valid_intros)
qed

lemma kept_DuckType:
  assumes "uses_cache E sm" "P ListCRDs"
  shows "keeps I (DuckType C sm g u)"
proof -
  have result: "keeps I (case v of GMap o' \<Rightarrow> ret (u\<lparr>Object := Some o'\<rparr>) | _ \<Rightarrow> liftR (Inl p))" for v p
    by (cases v) auto
  show ?thesis
    unfolding DuckType_def
    by (intro valid_intros kept_FindSchemaForKind result) (use assms in auto)
qed

lemma kept_duck_type_or_keep:
  "uses_cache E sm \<Longrightarrow> P ListCRDs \<Longrightarrow> keeps I (duck_type_or_keep E sm g u)"
  unfolding duck_type_or_keep_def by (intro valid_intros kept_DuckType)

lemma kept_Apply:
  assumes "uses_cache E (Applier_SchemaManager ap)" "P ListCRDs"
  shows "keeps I (Apply E ap u p ty)"
  unfolding Apply_def yaml_patch_file_def
  by (intro valid_intros kept_duck_type_or_keep assms)

lemma kept_duckTypeTemplateResultObject:
  "uses_cache E sm \<Longrightarrow> P ListCRDs \<Longrightarrow> keeps I (duckTypeTemplateResultObject E sm u)"
  unfolding duckTypeTemplateResultObject_def by (intro valid_intros kept_duck_type_or_keep)

lemma kept_execute_template [simp, valid_intros]: "keeps I (execute_template E shown t v)"
  unfolding execute_template_def by (intro valid_intros kept_query)

lemma kept_Template:
  assumes "uses_cache E sm" "P ListCRDs"
  shows "keeps I (Template E sm data vars)"
  unfolding Template_def duckTypeTemplateResult_def
  by (intro valid_intros kept_duckTypeTemplateResultObject assms)

lemma kept_render_objects:
  "uses_cache E sm \<Longrightarrow> P ListCRDs \<Longrightarrow> keeps I (render_objects E sm raw vars)"
  unfolding render_objects_def by (intro valid_intros kept_Template)

lemma kept_each_loop:
  "uses_cache E sm \<Longrightarrow> P ListCRDs \<Longrightarrow> keeps I (each_loop E sm raw tc es objs)"
  by (induction es arbitrary: tc objs) (auto intro!: valid_intros kept_render_objects)

lemma kept_getObjects:
  assumes "uses_cache E sm" "P ListCRDs"
  shows "keeps I (getObjects E sm raw target)"
  unfolding getObjects_def conditional_def
  by (intro valid_intros kept_render_objects kept_each_loop assms)

lemma kept_getObjectsFromResources:
  "uses_cache E sm \<Longrightarrow> P ListCRDs \<Longrightarrow> keeps I (getObjectsFromResources E sm items target)"
  by (induction items) (auto intro!: valid_intros kept_getObjects)

lemma kept_duck_type_all:
  "uses_cache E sm \<Longrightarrow> P ListCRDs \<Longrightarrow> keeps I (duck_type_all E sm os result)"
  by (induction os arbitrary: result) (auto intro!: valid_intros kept_duckTypeTemplateResultObject)

lemma kept_renderAll:
  assumes "uses_cache E sm" "P ListCRDs"
  shows "keeps I (renderAll E sm t target)"
  unfolding renderAll_def getObjectsFromResourcesTemplate_def processTemplate_def
  by (intro valid_intros kept_getObjectsFromResources kept_duck_type_all assms)

lemma kept_on_error:
  "keeps I m \<Longrightarrow> (\<And>e. P (Event ''Warning'' (msg e))) \<Longrightarrow> keeps I (on_error msg m)"
  unfolding on_error_def by (intro valid_intros)

lemma kept_applyUnstructured:
  "P (ApplyUnstructured ns u) \<Longrightarrow> keeps I (applyUnstructured E ns u)"
  unfolding applyUnstructured_def by (rule kept_external)

lemma kept_isResourceReady: "P (RefreshObject u) \<Longrightarrow> keeps I (isResourceReady E u)"
  unfolding isResourceReady_def by (intro valid_intros)

lemma kept_check_ids: "(\<And>u. P (RefreshObject u)) \<Longrightarrow> keeps I (check_ids E ids objs)"
  by (induction ids) (auto intro!: valid_intros kept_isResourceReady)

lemma kept_checkDependentObjects:
  "(\<And>u. P (RefreshObject u)) \<Longrightarrow> keeps I (checkDependentObjects E u objs)"
  unfolding checkDependentObjects_def by (intro valid_intros kept_check_ids)

lemma kept_apply_patches:
  "uses_cache E (Applier_SchemaManager ap) \<Longrightarrow> P ListCRDs \<Longrightarrow> (\<And>m. P (Event ''Warning'' m)) \<Longrightarrow>
    keeps I (apply_patches E ap ty ps u)"
  by (induction ps arbitrary: u) (auto intro!: valid_intros kept_on_error kept_Apply)

lemma kept_getNamespaces: "(\<And>s. P (ListNamespaces s)) \<Longrightarrow> keeps I (getNamespaces E c)"
  unfolding getNamespaces_def listNamespaces_def Let_def by (intro valid_intros)

lemma kept_setCondition:
  "(\<And>n v. P (SetCondition u n v)) \<Longrightarrow> keeps I (setCondition E t u ready)"
  unfolding setCondition_def Let_def by (intro valid_intros)

lemma kept_patchSource:
  assumes "uses_cache E (Applier_SchemaManager ap)" "P ListCRDs" "\<And>m. P (Event ''Warning'' m)" "\<And>ns u. P (ApplyUnstructured ns u)"
  shows "keeps I (patchSource E ap t source)"
  unfolding patchSource_def Let_def
  by (intro valid_intros kept_on_error kept_apply_patches kept_applyUnstructured assms)

lemma kept_apply_objects:
  assumes "\<And>u. P (RefreshObject u)" "\<And>m. P (Event ''Warning'' m)" "\<And>ns u. P (ApplyUnstructured ns u)"
  shows "keeps I (apply_objects E source is objs ready result)"
proof (induction "is" arbitrary: objs ready result)
  case (Cons i "is")
  show ?case
    unfolding apply_objects.simps Let_def
    by (intro valid_intros kept_on_error kept_checkDependentObjects kept_applyUnstructured kept_isResourceReady
        Cons.IH assms)
qed simp

lemma kept_copy_objects:
  assumes "\<And>u. P (RefreshObject u)" "\<And>m. P (Event ''Warning'' m)" "\<And>ns u. P (ApplyUnstructured ns u)"
  shows "keeps I (copy_objects E source nss ready)"
proof (induction nss arbitrary: ready)
  case (Cons ns nss)
  show ?case
    unfolding copy_objects.simps Let_def
    by (intro valid_intros kept_on_error kept_applyUnstructured kept_isResourceReady Cons.IH assms)
qed simp

lemma kept_apply_phase:
  assumes "\<And>u. P (RefreshObject u)" "\<And>m. P (Event ''Warning'' m)" "\<And>ns u. P (ApplyUnstructured ns u)"
    "\<And>s. P (ListNamespaces s)"
  shows "keeps I (apply_phase E t source objs)"
  unfolding apply_phase_def copyToNamespaces_def
  by (intro valid_intros kept_apply_objects kept_copy_objects kept_on_error kept_getNamespaces assms)

subsection \<open>Whole templates\<close>

lemma kept_HandleSource:
  assumes "uses_manager E tm" "template_calls P"
  shows "keeps I (HandleSource E tm t source0)"
  unfolding HandleSource_phases
  by (intro valid_intros kept_patchSource kept_renderAll kept_apply_phase kept_setCondition)
    (use assms in \<open>auto simp: template_calls_def uses_manager_def\<close>)

lemma kept_handle_sources:
  assumes "uses_manager E tm" "template_calls P"
  shows "keeps I (handle_sources E tm t sources result)"
  by (induction sources arbitrary: result) (auto intro!: keeps_bindA kept_HandleSource assms)

lemma kept_GetSourceNamespaces: "(\<And>s. P (ListNamespaces s)) \<Longrightarrow> keeps I (GetSourceNamespaces E t)"
  unfolding GetSourceNamespaces_def Let_def listNamespaces_def by (intro valid_intros)

lemma kept_list_sources:
  "(\<And>k ns f l. P (ListResources k ns f l)) \<Longrightarrow> keeps I (list_sources E selector nss sources)"
  by (induction nss arbitrary: sources) (auto intro!: valid_intros)

lemma kept_mark_watched [valid_intros]: "keeps I (mark_watched k)"
  by (simp add: keeps_iff mark_watched_def I_watched)

lemma kept_WatchObject: "(\<And>k l f. P (StartInformer k l f)) \<Longrightarrow> keeps I (WatchObject E wt obj t)"
  by (cases wt) (auto simp only: WatchObject.simps getDynamicClient_def intro!: valid_intros)

lemma kept_selectResources:
  assumes "\<And>s. P (ListNamespaces s)" "\<And>k ns f l. P (ListResources k ns f l)" "\<And>k l f. P (StartInformer k l f)"
  shows "keeps I (selectResources E tm t)"
proof -
  have watch: "keeps I (case sources of [] \<Rightarrow> ret (Inr ()) | obj # _ \<Rightarrow> attempt (WatchObject E (Watcher_of tm) obj t))" for sources
    using assms by (cases sources) (auto intro!: valid_intros kept_WatchObject)
  show ?thesis
    unfolding selectResources_def Let_def
    by (intro keeps_if keeps_raise keeps_bindA keeps_wrapA kept_GetSourceNamespaces kept_list_sources watch keeps_ret assms)
qed

lemma kept_getGitRepository:
  "(\<And>n ns. P (GetGitRepository n ns)) \<Longrightarrow> keeps I (getGitRepository E name namespace)"
  unfolding getGitRepository_def by (intro valid_intros)

lemma kept_handle_files:
  assumes "uses_manager E tm" "template_calls P"
  shows "keeps I (handle_files E tm t files)"
proof (induction files)
  case (Cons f files)
  then show ?case by (cases f) (auto intro!: valid_intros kept_HandleSource assms)
qed simp

lemma kept_handleGitRepository:
  assumes "uses_manager E tm" "template_calls P"
  shows "keeps I (handleGitRepository E tm t source)"
  unfolding handleGitRepository_def
  by (intro valid_intros kept_getGitRepository kept_handle_files assms) (use assms in \<open>auto simp: template_calls_def\<close>)

lemma kept_Run:
  assumes "uses_manager E tm" "template_calls P"
  shows "keeps I (Run E tm t)"
  unfolding Run_def
  by (intro keeps_case_option keeps_bindA kept_handleGitRepository kept_selectResources kept_handle_sources assms)
    (use assms(2) in \<open>auto simp: template_calls_def\<close>)

lemma kept_NewTemplateManager:
  "P GetOpenAPI \<Longrightarrow> P GetServerResources \<Longrightarrow> keeps I (NewTemplateManager E wt)"
  unfolding NewTemplateManager_def NewSchemaManagerWithCache_def NewPatchApplier_def
  by (intro valid_intros I_FetchSchema I_FetchResources)

end

lemma NewTemplateManager_uses:
  "NewTemplateManager E wt w = (Inr tm, w') \<Longrightarrow> uses_manager E tm"
  by (auto simp: NewTemplateManager_def NewPatchApplier_def act_eq_Inr uses_manager_def dest: NewSchemaManagerWithCache_uses)

section \<open>Predicates that do not look at the cache\<close>

locale stable = logging I P
  for I :: "('c, 'l) world \<Rightarrow> bool" and P :: "call \<Rightarrow> bool" +
  assumes I_cache: "I w \<Longrightarrow> I (w\<lparr>cache := sc\<rparr>)"
    and I_marked: "I w \<Longrightarrow> I (w\<lparr>watched := AList.update x True (watched w)\<rparr>)"
begin

lemma kept_update_cache [valid_intros, simp]: "keeps I (update_cache f)"
  by (rule keeps_update_cache) (rule I_cache)

lemma kept_FetchSchema: "P GetOpenAPI \<Longrightarrow> keeps I (FetchSchema S)"
  unfolding FetchSchema_def fetchAndSetSchema_def by (intro valid_intros kept_now)

lemma kept_FetchResources: "P GetServerResources \<Longrightarrow> keeps I (FetchResources S)"
  unfolding FetchResources_def fetchAndSetResources_def by (intro valid_intros kept_now)

lemma kept_FetchCRD: "P ListCRDs \<Longrightarrow> keeps I (FetchCRD S)"
  unfolding FetchCRD_def by (intro valid_intros kept_now)

lemma kept_ExpireSchema: "keeps I (ExpireSchema S)"
  unfolding ExpireSchema_def by (intro valid_intros kept_now)

lemma kept_CachedConvertSchema: "keeps I (CachedConvertSchema S g v)"
proof -
  have "keeps I (case found of Some s \<Rightarrow> ret s
      | None \<Rightarrow> bindA (liftR r) (\<lambda>s. bindA (update_cache (f s)) (\<lambda>_. ret s)))" for found r f
    by (cases found) (auto intro!: valid_intros)
  then show ?thesis unfolding CachedConvertSchema_def by (auto intro!: valid_intros)
qed

end

sublocale stable \<subseteq> calling I P E for E :: "('c, 'l, 'z) k8s_env_scheme"
  by unfold_locales
    (simp_all add: I_marked kept_FetchSchema kept_FetchResources kept_FetchCRD kept_CachedConvertSchema)

section \<open>The record of calls\<close>

interpretation grows: stable "grows L P" P for L P
  by unfold_locales (auto intro: grows_same)

end
