(* ===== verification/Effects.thy ===== *)
theory Effects
  imports Calls
begin

text \<open>
  What \<open>HandleSource\<close> does to the outside: everything it applies names its owner, and it sets one
  condition as its last call. Both rest on the interpretation \<open>grows\<close> of the interface \<open>calling\<close> of
  the theory Calls: \<open>grows L P\<close> says that every call made since the log was \<open>L\<close> satisfies \<open>P\<close>.
\<close>

section \<open>Owners\<close>

text \<open>
  \<open>u\<close> names \<open>source\<close> as its owner: by its only owner reference if both are in one namespace, else by
  the tracking annotation.
\<close>

definition owned :: "('c, 'l, 'z) k8s_env_scheme \<Rightarrow> unstructured \<Rightarrow> unstructured \<Rightarrow> bool" where
  "owned E source u \<longleftrightarrow>
     (GetNamespace (Meta E) u = GetNamespace (Meta E) source \<and>
        GetOwnerReferences (Meta E) u = [owner_reference E source]) \<or>
     annotation (Meta E) u owner_annotation = Some (GetNamespace (Meta E) source @ ''/'' @ GetName (Meta E) source)"

definition source_call :: "('c, 'l, 'z) k8s_env_scheme \<Rightarrow> unstructured \<Rightarrow> call \<Rightarrow> bool" where
  "source_call E source k \<longleftrightarrow>
     (case k of ApplyUnstructured ns u \<Rightarrow> ns = GetNamespace (Meta E) u \<and> owned E source u | _ \<Rightarrow> True)"

lemma source_call_other [simp]:
  "source_call E source ListCRDs" "source_call E source (RefreshObject u)" "source_call E source (Event ty m)"
  "source_call E source (ListNamespaces s)" "source_call E source (SetCondition u n v)"
  "source_call E source (ApplyUnstructured ns u) \<longleftrightarrow> ns = GetNamespace (Meta E) u \<and> owned E source u"
  by (simp_all add: source_call_def)

lemma crossNamespaceOwner_owned:
  assumes "object_meta (Meta E) ok" "ok item"
  shows "owned E source (crossNamespaceOwner E item source)" "ok (crossNamespaceOwner E item source)"
    and "annotation (Meta E) (crossNamespaceOwner E item source) owner_annotation =
      Some (GetNamespace (Meta E) source @ ''/'' @ GetName (Meta E) source)"
  using assms(2)
  by (simp_all add: owned_def crossNamespaceOwner_def object_meta.meta_simps [OF assms(1)] the_map_def update_conv')

lemma owner_annotation_kept: "owner_annotation \<notin> set annotationsBlacklist"
  by (simp add: owner_annotation_def annotationsBlacklist_def)

lemma setOwner_owned:
  assumes "object_meta (Meta E) ok" "ok obj"
  shows "owned E source (stripAnnotations E (setOwner E source obj))"
proof (cases "GetNamespace (Meta E) source = GetNamespace (Meta E) obj")
  case True
  then show ?thesis
    using assms(2) by (simp add: setOwner_def owned_def stripAnnotations_def object_meta.meta_simps [OF assms(1)])
next
  case False
  then show ?thesis
    using crossNamespaceOwner_owned [OF assms, of source]
    by (simp add: setOwner_def owned_def annotation_strip [OF assms(1)] owner_annotation_kept)
qed

lemma apply_objects_owned:
  assumes "object_meta (Meta E) ok"
  shows "\<forall>i \<in> set is. ok (objs ! i) \<Longrightarrow> distinct is \<Longrightarrow>
    keeps (grows L (source_call E source)) (apply_objects E source is objs ready result)"
proof (induction "is" arbitrary: objs ready result)
  case (Cons i "is")
  have ok: "\<forall>j \<in> set is. ok (objs[i := obj'] ! j)" for obj'
    using Cons.prems by (metis distinct.simps(2) list.set_intros(2) nth_list_update_neq)
  have ap: "keeps (grows L (source_call E source))
      (applyUnstructured E (GetNamespace (Meta E) (stripAnnotations E (setOwner E source (objs ! i))))
         (stripAnnotations E (setOwner E source (objs ! i))))"
    using Cons.prems by (intro grows.kept_applyUnstructured) (simp add: setOwner_owned [OF assms])
  show ?case
    using Cons.prems unfolding apply_objects.simps Let_def
    by (intro valid_intros grows.kept_on_error grows.kept_checkDependentObjects ap grows.kept_isResourceReady Cons.IH ok) simp_all
qed simp

lemma copy_objects_owned:
  assumes "object_meta (Meta E) ok" and "\<And>u. ok u \<Longrightarrow> ok (StripIdentifiers E u)" and "ok source"
  shows "keeps (grows L (source_call E source)) (copy_objects E source nss ready)"
proof (induction nss arbitrary: ready)
  case (Cons ns nss)
  have "ok (StripIdentifiers E (stripAnnotations E (SetNamespace (Meta E) ns source)))"
    using assms by (simp add: strip_keeps(1) [OF assms(1)] object_meta.well_formed_set_namespace [OF assms(1)])
  then have own: "owned E source (namespace_copy E source ns)"
    unfolding namespace_copy_def by (rule crossNamespaceOwner_owned(1) [OF assms(1)])
  show ?case
    unfolding copy_objects.simps Let_def
    by (intro valid_intros grows.kept_on_error grows.kept_applyUnstructured grows.kept_isResourceReady Cons.IH) (simp_all add: own)
qed simp

lemma copyToNamespaces_owned:
  assumes "object_meta (Meta E) ok" and "\<And>u. ok u \<Longrightarrow> ok (StripIdentifiers E u)" and "ok source"
  shows "keeps (grows L (source_call E source)) (copyToNamespaces E t source ready)"
  unfolding copyToNamespaces_def
  by (intro valid_intros grows.kept_on_error grows.kept_getNamespaces copy_objects_owned [OF assms]) simp_all

lemma apply_phase_owned:
  assumes "object_meta (Meta E) ok" and "\<And>u. ok u \<Longrightarrow> ok (StripIdentifiers E u)" and "ok source"
    and "\<forall>u \<in> set objs. ok u"
  shows "keeps (grows L (source_call E source)) (apply_phase E t source objs)"
proof -
  have "keeps (grows L (source_call E source)) (apply_objects E source [0..<length objs] objs True no_result)"
    using assms(4) by (intro apply_objects_owned [OF assms(1)]) auto
  then show ?thesis
    unfolding apply_phase_def by (intro valid_intros copyToNamespaces_owned [OF assms(1-3)])
qed

section \<open>Rendered objects\<close>

lemma each_loop_objects:
  assumes "\<And>s us. GetUnstructuredObjects E s = Inr us \<Longrightarrow> \<forall>u \<in> set us. Q u"
  shows "each_loop E sm raw tc es acc w = (Inr objs, w') \<Longrightarrow> \<forall>u \<in> set acc. Q u \<Longrightarrow> \<forall>u \<in> set objs. Q u"
proof (induction es arbitrary: tc acc w)
  case Nil
  then show ?case by (simp add: ret_eq_Inr)
next
  case (Cons e es)
  then obtain tc' out w1 where "render_objects E sm raw (Some tc') w = (Inr out, w1)"
    and tail: "each_loop E sm raw (Some tc') es (acc @ out) w1 = (Inr objs, w')"
    by (auto simp: act_eq_Inr)
  then have "\<forall>u \<in> set out. Q u" using assms by (auto simp: render_objects_def act_eq_Inr)
  then show ?case using Cons.IH [OF tail] Cons.prems(2) by auto
qed

lemma getObjects_objects:
  assumes "\<And>s us. GetUnstructuredObjects E s = Inr us \<Longrightarrow> \<forall>u \<in> set us. Q u"
    and "getObjects E sm raw target w = (Inr objs, w')"
  shows "\<forall>u \<in> set objs. Q u"
  using assms(2)
proof (cases rule: getObjects_cases)
  case (rendered w1 fe tc)
  show ?thesis
  proof (cases "iterations fe")
    case None
    then show ?thesis using rendered(3) assms(1) by (auto simp: render_objects_def act_eq_Inr)
  next
    case (Some es)
    then have "each_loop E sm raw tc es [] w1 = (Inr objs, w')" using rendered(3) by simp
    then show ?thesis using each_loop_objects [of E Q sm raw tc es "[]" w1 objs w'] assms(1) by auto
  qed
qed simp

lemma getObjectsFromResources_objects:
  assumes "\<And>s us. GetUnstructuredObjects E s = Inr us \<Longrightarrow> \<forall>u \<in> set us. Q u"
  shows "getObjectsFromResources E sm items target w = (Inr objs, w') \<Longrightarrow> \<forall>u \<in> set objs. Q u"
proof (induction items arbitrary: w objs)
  case (Cons item items)
  then obtain o1 w1 o2 where "getObjects E sm item (Object target) w = (Inr o1, w1)"
    "getObjectsFromResources E sm items target w1 = (Inr o2, w')" "objs = o1 @ o2"
    by (auto simp: act_eq_Inr)
  then show ?case using Cons.IH getObjects_objects [OF assms] by fastforce
qed (simp add: ret_eq_Inr)

lemma renderAll_objects:
  assumes "\<And>s us. GetUnstructuredObjects E s = Inr us \<Longrightarrow> \<forall>u \<in> set us. Q u"
    and "renderAll E sm t target w = (Inr objs, w')"
  shows "\<forall>u \<in> set objs. Q u"
proof -
  obtain o1 w1 o2 where 1: "getObjectsFromResources E sm (Resources (Spec t)) target w = (Inr o1, w1)"
    and 2: "getObjectsFromResourcesTemplate E sm (ResourcesTemplate (Spec t)) target w1 = (Inr o2, w')"
    and objs: "objs = o1 @ o2"
    using assms(2) by (auto simp: renderAll_def act_eq_Inr)
  have "\<forall>u \<in> set o2. Q u"
    using 2 assms(1) by (auto simp: getObjectsFromResourcesTemplate_def act_eq_Inr)
  then show ?thesis using getObjectsFromResources_objects [OF assms(1) 1] objs by auto
qed

text \<open>After patching, only calls that name the source as the owner follow.\<close>

lemma after_patches_owned:
  assumes "object_meta (Meta E) ok" and "uses_manager E tm"
    and "\<And>s us u. GetUnstructuredObjects E s = Inr us \<Longrightarrow> u \<in> set us \<Longrightarrow> ok u"
    and "\<And>u. ok u \<Longrightarrow> ok (StripIdentifiers E u)" and "ok source"
  shows "keeps (grows L (source_call E source))
    (bindA (renderAll E (SchemaMgr tm) t source) (\<lambda>objs.
     bindA (apply_phase E t source objs) (\<lambda>(ready, result). bindA (setCondition E t source ready) (\<lambda>_. ret result))))"
proof (rule keeps_bindA_result)
  show "keeps (grows L (source_call E source)) (renderAll E (SchemaMgr tm) t source)"
    by (rule grows.kept_renderAll [OF uses_managerD(1) [OF assms(2)]]) simp
next
  fix objs w w' assume "renderAll E (SchemaMgr tm) t source w = (Inr objs, w')"
  then have "\<forall>u \<in> set objs. ok u" using renderAll_objects [of E ok] assms(3) by blast
  then show "keeps (grows L (source_call E source)) (bindA (apply_phase E t source objs)
      (\<lambda>(ready, result). bindA (setCondition E t source ready) (\<lambda>_. ret result)))"
    by (intro valid_intros apply_phase_owned [OF assms(1) _ assms(5)] grows.kept_setCondition) (simp_all add: assms(4))
qed

lemma HandleSource_owned_calls:
  assumes "object_meta (Meta E) ok" and "uses_manager E tm"
    and "\<forall>s us. GetUnstructuredObjects E s = Inr us \<longrightarrow> (\<forall>u \<in> set us. ok u)"
    and "\<forall>u. ok u \<longrightarrow> ok (StripIdentifiers E u)"
    and "patchSource E (PatchApplier_of tm) t source0 w = (Inr source, w1)" and "ok source"
  shows "grows (calls w1) (source_call E source) (snd (HandleSource E tm t source0 w))"
  unfolding HandleSource_phases bindA_def [of "patchSource E (PatchApplier_of tm) t source0"] assms(5) prod.case sum.case
  by (rule keepsD [OF after_patches_owned [OF assms(1,2)]]) (use assms in auto)

text \<open>
  Everything that \<open>HandleSource\<close> applies after patching names the source as its owner: each
  \<open>ApplyUnstructured\<close> goes to the object's own namespace, and the object carries exactly one owner
  reference, to the source, when it is in the source's namespace, or else the tracking annotation
  with the source's namespace and name. This holds also when \<open>HandleSource\<close> fails half-way.
\<close>

theorem HandleSource_owned:
  assumes "object_meta (Meta E) ok" and "uses_manager E tm"
    and "\<forall>s us. GetUnstructuredObjects E s = Inr us \<longrightarrow> (\<forall>u \<in> set us. ok u)"
    and "\<forall>u. ok u \<longrightarrow> ok (StripIdentifiers E u)"
    and "patchSource E (PatchApplier_of tm) t source0 w = (Inr source, w1)" and "ok source"
  shows "grows (calls w1) (source_call E source) (snd (HandleSource E tm t source0 w))"
  by (rule HandleSource_owned_calls [OF assms])

definition demo_manager :: "(nat, schema gmap) template_manager" where
  "demo_manager =
     \<lparr>SchemaMgr = \<lparr>sm_swagger = Some None, serverResources = None, fetchCrdFn = FetchCRD demo_env, convertSchemaFn = CachedConvertSchema demo_env\<rparr>,
      PatchApplier_of = \<lparr>Applier_SchemaManager = \<lparr>sm_swagger = Some None, serverResources = None, fetchCrdFn = FetchCRD demo_env, convertSchemaFn = CachedConvertSchema demo_env\<rparr>\<rparr>,
      Watcher_of = NullWatcher\<rparr>"

lemma demo_meta: "object_meta (Meta demo_env) json_well_formed"
  using json.object_meta_axioms by (simp add: demo_env_def)

lemma demo_uses_cache: "uses_manager demo_env demo_manager"
  by (simp add: uses_manager_def uses_cache_def demo_manager_def)

lemma config_map_well_formed [simp]: "json_well_formed (config_map ns n)"
  by (simp add: json_well_formed_def config_map_def obj_get_def entries_def)

lemma demo_objects: "GetUnstructuredObjects demo_env s = Inr us \<Longrightarrow> u \<in> set us \<Longrightarrow> json_well_formed u"
  by (auto simp: demo_env_def split: if_splits)

lemma demo_patchSource:
  "patchSource demo_env sm demo_template (config_map ns n) w = (Inr (config_map ns n), w)"
  by (simp add: patchSource_def demo_template_def) (simp add: ret_def)

theorem HandleSource_owned_witness:
  "grows [] (source_call demo_env (config_map ''default'' ''source''))
     (snd (HandleSource demo_env demo_manager demo_template (config_map ''default'' ''source'') demo_world))"
  using HandleSource_owned [OF demo_meta demo_uses_cache _ _
      demo_patchSource [of _ "''default''" "''source''" demo_world] config_map_well_formed] demo_objects
  by (simp add: demo_env_def demo_world_def world_at_def)

section \<open>The condition\<close>

fun is_condition :: "call \<Rightarrow> bool" where
  "is_condition (SetCondition _ _ _) \<longleftrightarrow> True"
| "is_condition _ \<longleftrightarrow> False"

text \<open>Everything before the condition is set.\<close>

definition before_condition ::
  "('c, 'l, 'z) k8s_env_scheme \<Rightarrow> ('c, 'l) template_manager \<Rightarrow> template \<Rightarrow> unstructured
    \<Rightarrow> ('c, 'l, unstructured \<times> bool \<times> ctrl_result) wact" where
  "before_condition E tm t source0 =
     bindA (patchSource E (PatchApplier_of tm) t source0) (\<lambda>source.
     bindA (renderAll E (SchemaMgr tm) t source) (\<lambda>objs.
     bindA (apply_phase E t source objs) (\<lambda>(ready, result). ret (source, ready, result))))"

lemma HandleSource_before:
  "HandleSource E tm t source0 =
     bindA (before_condition E tm t source0) (\<lambda>(source, ready, result).
       bindA (setCondition E t source ready) (\<lambda>_. ret result))"
  unfolding HandleSource_phases before_condition_def by (simp add: bindA_assoc bindA_case_prod)

lemma grows_before_condition:
  assumes "uses_manager E tm"
  shows "keeps (grows L (\<lambda>k. \<not> is_condition k)) (before_condition E tm t source0)"
  unfolding before_condition_def
  by (intro valid_intros grows.kept_patchSource grows.kept_renderAll [where E = E] grows.kept_apply_phase)
    (use uses_managerD [OF assms] in auto)

text \<open>The call that sets the condition of a template on its source.\<close>

definition condition_call :: "template \<Rightarrow> unstructured \<Rightarrow> bool \<Rightarrow> call" where
  "condition_call t source ready =
     SetCondition source (''template-'' @ tpl_Name t) (if ready then ''Ready'' else ''NotReady'')"

lemma attempt_external_call:
  "\<exists>c. bindA (attempt (external k f)) (\<lambda>_. ret ()) w = (Inr (), w\<lparr>cluster := c, calls := calls w @ [k]\<rparr>)"
proof -
  obtain r c where "f (cluster w) = (r, c)" by (cases "f (cluster w)")
  then show ?thesis
    by (intro exI [of _ c]) (cases r; simp add: bindA_def attempt_def external_def ret_def)
qed

lemma setCondition_call:
  "\<exists>c. setCondition E t u ready w = (Inr (), w\<lparr>cluster := c, calls := calls w @
     [condition_call t u ready]\<rparr>)"
  unfolding setCondition_def condition_call_def Let_def by (rule attempt_external_call)

lemma HandleSource_run:
  assumes "before_condition E tm t source0 w = (r, w1)"
  shows "case r of
      Inl e \<Rightarrow> HandleSource E tm t source0 w = (Inl e, w1)
    | Inr (source, ready, result) \<Rightarrow> \<exists>c. HandleSource E tm t source0 w = (Inr result,
         w1\<lparr>cluster := c, calls := calls w1 @
           [condition_call t source ready]\<rparr>)"
proof (cases r)
  case (Inl e)
  then show ?thesis using assms by (simp add: HandleSource_before bindA_def)
next
  case (Inr x)
  obtain source ready result where x: "x = (source, ready, result)" by (cases x)
  then show ?thesis
    using assms Inr setCondition_call [of E t source ready w1]
    by (auto simp: HandleSource_before bindA_def ret_def)
qed

text \<open>
  C23. \<open>HandleSource\<close> succeeds exactly when it reaches the end, and then its last call is the only
  one that sets a condition: \<open>template-<name>\<close> of the source, \<open>Ready\<close> or \<open>NotReady\<close>. When it fails,
  it has set no condition.
\<close>

theorem HandleSource_condition:
  assumes "uses_manager E tm" and "HandleSource E tm t source0 w = (r, w')"
  shows "\<exists>ks. list_all (\<lambda>k. \<not> is_condition k) ks \<and>
    (if isl r then calls w' = calls w @ ks
     else \<exists>source ready. calls w' = calls w @ ks @
       [condition_call t source ready])"
proof -
  obtain r1 w1 where run: "before_condition E tm t source0 w = (r1, w1)" by (cases "before_condition E tm t source0 w")
  then have "grows (calls w) (\<lambda>k. \<not> is_condition k) w1"
    using keepsD [OF grows_before_condition [OF assms(1)], of "calls w" w t source0] by simp
  then obtain ks where ks: "calls w1 = calls w @ ks" "list_all (\<lambda>k. \<not> is_condition k) ks"
    by (auto simp: grows_def)
  show ?thesis
  proof (cases r1)
    case (Inl e)
    then have "isl r" "w' = w1" using HandleSource_run [OF run] assms(2) by auto
    then show ?thesis using ks by (intro exI [of _ ks]) simp
  next
    case (Inr x)
    obtain source ready result where x: "x = (source, ready, result)" by (cases x)
    then obtain c where "r = Inr result" "w' = w1\<lparr>cluster := c, calls := calls w1 @ [condition_call t source ready]\<rparr>"
      using HandleSource_run [OF run] assms(2) Inr by auto
    then show ?thesis using ks by (intro exI [of _ ks]) auto
  qed
qed

theorem HandleSource_condition_witness:
  "\<exists>r ks. r = fst (HandleSource demo_env demo_manager demo_template (config_map ''default'' ''source'') demo_world) \<and>
    list_all (\<lambda>k. \<not> is_condition k) ks \<and>
    (if isl r then calls (snd (HandleSource demo_env demo_manager demo_template (config_map ''default'' ''source'') demo_world)) = ks
     else \<exists>source ready. calls (snd (HandleSource demo_env demo_manager demo_template (config_map ''default'' ''source'') demo_world))
       = ks @ [condition_call demo_template source ready])"
proof -
  obtain r w' where run: "HandleSource demo_env demo_manager demo_template (config_map ''default'' ''source'') demo_world = (r, w')"
    by (cases "HandleSource demo_env demo_manager demo_template (config_map ''default'' ''source'') demo_world")
  have "calls demo_world = []"
    by (simp add: demo_world_def world_at_def)
  then show ?thesis
    using HandleSource_condition [OF demo_uses_cache run] unfolding run by (simp only: fst_conv snd_conv append_Nil simp_thms) blast
qed

end
