(* ===== verification/Sources.thy ===== *)
theory Sources
  imports Effects
begin

text \<open>
  Properties of the template manager: dependencies and readiness, patching once, the copies to
  namespaces, the order of the sources, and the files of a git archive.
\<close>

section \<open>Dependencies\<close>

text \<open>What the code takes for ready: a trivial kind, or the refreshed object is ready.\<close>

definition seen_ready :: "('c, 'l, 'z) k8s_env_scheme \<Rightarrow> unstructured \<Rightarrow> bool" where
  "seen_ready E d \<longleftrightarrow> IsTrivialType E d \<or> (\<exists>c v c'. Refresh E d c = (Inr v, c') \<and> fst (IsReady E v))"

lemma isResourceReady_ready:
  assumes "isResourceReady E d w = (Inr (True, msg), w')"
  shows "seen_ready E d"
proof (cases "IsTrivialType E d")
  case False
  then obtain v w1 where "external (RefreshObject d) (Refresh E d) w = (Inr v, w1)" "IsReady E v = (True, msg)"
    using assms by (auto simp: isResourceReady_def act_eq_Inr)
  then show ?thesis
    unfolding seen_ready_def external_def by (cases "Refresh E d (cluster w)") fastforce
qed (simp add: seen_ready_def)

lemma getObjectFromId_found:
  "getObjectFromId oid objs = Inr d \<Longrightarrow> d \<in> set objs \<and> obj_get ''id'' d = GStr oid"
  by (induction objs) (auto split: gval.splits if_splits)

lemma check_ids_ready:
  "check_ids E ids objs w = (Inr (ready, msg, rslt), w') \<Longrightarrow>
    (if ready then (\<forall>oid \<in> set ids. \<exists>d \<in> set objs. obj_get ''id'' d = GStr oid \<and> seen_ready E d) \<and> rslt = no_result
     else rslt = \<lparr>Requeue = True, RequeueAfter = 2 * minute\<rparr>)"
proof (induction ids arbitrary: w)
  case Nil
  then show ?case by (auto simp: ret_eq_Inr)
next
  case (Cons oid ids)
  then obtain d r m w1 where d: "getObjectFromId oid objs = Inr d" and r: "isResourceReady E d w = (Inr (r, m), w1)"
    and rest: "(if \<not> r then ret (False, m, \<lparr>Requeue = True, RequeueAfter = 2 * minute\<rparr>) else check_ids E ids objs) w1
        = (Inr (ready, msg, rslt), w')"
    by (auto simp: act_eq_Inr)
  show ?case
  proof (cases r)
    case True
    then have "check_ids E ids objs w1 = (Inr (ready, msg, rslt), w')" using rest by simp
    then show ?thesis
      using Cons.IH getObjectFromId_found [OF d] isResourceReady_ready [of E d w m w1] r True by (auto split: if_splits)
  next
    case False
    then show ?thesis using rest by (auto simp: ret_eq_Inr)
  qed
qed

text \<open>
  C9. \<open>checkDependentObjects\<close> lets an object through only when every identifier that it depends on
  is the \<open>id\<close> of one of the objects of the same run, and that object was seen ready; otherwise, when
  it returns without error, it asks for a requeue in two minutes.
\<close>

theorem checkDependentObjects_ready:
  assumes "checkDependentObjects E obj objs w = (Inr (ready, msg, rslt), w')"
  shows "\<exists>ids. getDependsOnIds E obj = Inr ids \<and>
    (if ready then (\<forall>oid \<in> set ids. \<exists>d \<in> set objs. obj_get ''id'' d = GStr oid \<and> seen_ready E d) \<and> rslt = no_result
     else rslt = \<lparr>Requeue = True, RequeueAfter = 2 * minute\<rparr>)"
proof -
  obtain ids where "getDependsOnIds E obj = Inr ids" "check_ids E ids objs w = (Inr (ready, msg, rslt), w')"
    using assms by (auto simp: checkDependentObjects_def act_eq_Inr)
  then show ?thesis using check_ids_ready [of E ids objs w ready msg rslt w'] by blast
qed

text \<open>An object named \<open>app\<close>, with an identifier, that depends on itself: it is never ready.\<close>

definition waiting_app :: unstructured where
  "waiting_app = obj_put ''id'' (GStr ''app'') (obj_put ''depends'' (GSlice [GStr ''app'']) (config_map ''default'' ''app''))"

definition skip_env :: "(nat, schema gmap) k8s_env" where
  "skip_env = demo_env\<lparr>GetUnstructuredObjects := (\<lambda>s. Inr (if s = '''' then [] else [waiting_app]))\<rparr>"

lemma waiting_app_check:
  "\<exists>w'. checkDependentObjects skip_env waiting_app [waiting_app] w =
     (Inr (False, ''pending'', \<lparr>Requeue = True, RequeueAfter = 2 * minute\<rparr>), w')"
proof -
  have fields: "obj_get ''depends'' waiting_app = GSlice [GStr ''app'']" "obj_get ''id'' waiting_app = GStr ''app''"
    "GetName json_meta waiting_app = ''app''"
    by (simp_all add: waiting_app_def json_meta_def metadata_def config_map_def string_field_def obj_get_def entries_def obj_put_def)
  show ?thesis
    by (simp add: checkDependentObjects_def getDependsOnIds_def fields isResourceReady_def skip_env_def demo_env_def)
       (simp add: external_def wrapA_def bindA_def ret_def)
qed

theorem checkDependentObjects_ready_witness:
  "\<exists>ready msg w'. checkDependentObjects skip_env waiting_app [waiting_app] demo_world =
     (Inr (ready, msg, \<lparr>Requeue = True, RequeueAfter = 2 * minute\<rparr>), w') \<and> \<not> ready"
proof -
  obtain w' where run: "checkDependentObjects skip_env waiting_app [waiting_app] demo_world =
     (Inr (False, ''pending'', \<lparr>Requeue = True, RequeueAfter = 2 * minute\<rparr>), w')"
    using waiting_app_check by blast
  then show ?thesis using checkDependentObjects_ready [OF run] by auto
qed

section \<open>Skipped objects\<close>

lemma on_error_Inr: "m w = (Inr x, w') \<Longrightarrow> on_error msg m w = (Inr x, w')"
  by (simp add: on_error_def bindA_def attempt_def ret_def)

lemma apply_objects_skip:
  assumes "\<And>i v. i \<in> set is \<Longrightarrow> \<exists>msg rs v'. checkDependentObjects E (objs ! i) objs v = (Inr (False, msg, rs), v')
      \<and> grows (calls v) (\<lambda>k. \<exists>u. k = RefreshObject u) v'"
  shows "\<exists>rs w'. apply_objects E source is objs ready result w = (Inr (ready, rs), w')
    \<and> grows (calls w) (\<lambda>k. \<exists>u. k = RefreshObject u) w'"
  using assms
proof (induction "is" arbitrary: w result)
  case Nil
  then show ?case by (simp add: ret_def)
next
  case (Cons i "is")
  obtain msg rs v where check: "checkDependentObjects E (objs ! i) objs w = (Inr (False, msg, rs), v)"
    and g: "grows (calls w) (\<lambda>k. \<exists>u. k = RefreshObject u) v"
    using Cons.prems by (meson list.set_intros(1))
  obtain rs' w' where "apply_objects E source is objs ready rs v = (Inr (ready, rs'), w')"
    and g': "grows (calls v) (\<lambda>k. \<exists>u. k = RefreshObject u) w'"
    using Cons.IH [where w = v and result = rs] Cons.prems by (meson list.set_intros(2))
  moreover have "grows (calls w) (\<lambda>k. \<exists>u. k = RefreshObject u) w'"
    using g g' by (auto simp: grows_def)
  ultimately show ?case
    by (simp add: bindA_def on_error_Inr [where m = "checkDependentObjects E (objs ! i) objs" and w = w, OF check])
qed

lemma checkDependentObjects_refreshes:
  "grows (calls w) (\<lambda>k. \<exists>u. k = RefreshObject u) (snd (checkDependentObjects E obj objs w))"
  by (rule keepsD [OF grows.kept_checkDependentObjects]) simp_all

text \<open>
  C34. Objects that are held back do not count for the condition: when a template copies to no
  namespaces and every rendered object waits for a dependency that is not ready, \<open>HandleSource\<close>
  applies nothing after patching and rendering and still sets the condition \<open>Ready\<close> on the source.
\<close>

theorem HandleSource_skipped_ready:
  assumes "patchSource E (PatchApplier_of tm) t source0 w = (Inr source, w1)"
    and "renderAll E (SchemaMgr tm) t source w1 = (Inr objs, w2)"
    and "\<forall>obj \<in> set objs. \<forall>v. \<exists>msg rs v'. checkDependentObjects E obj objs v = (Inr (False, msg, rs), v')"
    and "CopyToNamespaces (Spec t) = None"
  shows "\<exists>result ks. fst (HandleSource E tm t source0 w) = Inr result \<and> list_all (\<lambda>k. \<exists>u. k = RefreshObject u) ks \<and>
    calls (snd (HandleSource E tm t source0 w)) = calls w2 @ ks @ [condition_call t source True]"
proof -
  have "\<exists>msg rs v'. checkDependentObjects E (objs ! i) objs v = (Inr (False, msg, rs), v')
      \<and> grows (calls v) (\<lambda>k. \<exists>u. k = RefreshObject u) v'" if "i \<in> set [0..<length objs]" for i v
    using that assms(3) checkDependentObjects_refreshes [of v E "objs ! i" objs] by (fastforce dest!: bspec [of _ _ "objs ! i"])
  then obtain rs w3 where ap: "apply_objects E source [0..<length objs] objs True no_result w2 = (Inr (True, rs), w3)"
    and "grows (calls w2) (\<lambda>k. \<exists>u. k = RefreshObject u) w3"
    using apply_objects_skip by blast
  then obtain ks where ks: "calls w3 = calls w2 @ ks" "list_all (\<lambda>k. \<exists>u. k = RefreshObject u) ks"
    by (auto simp: grows_def)
  have "before_condition E tm t source0 w = (Inr (source, True, rs), w3)"
    using assms(1,2,4) ap
    by (simp add: before_condition_def apply_phase_def copyToNamespaces_def bindA_def ret_def)
  then obtain c where "HandleSource E tm t source0 w =
      (Inr rs, w3\<lparr>cluster := c, calls := calls w3 @ [condition_call t source True]\<rparr>)"
    using HandleSource_run [of E tm t source0 w "Inr (source, True, rs)" w3] by auto
  then show ?thesis using ks by auto
qed

definition skip_template :: template where
  "skip_template = demo_template\<lparr>Spec := (Spec demo_template)\<lparr>Resources := [''app''], CopyToNamespaces := None\<rparr>\<rparr>"

lemma skip_render:
  "renderAll skip_env (SchemaMgr demo_manager) skip_template source w = (Inr [waiting_app], w)"
proof -
  have items: "render_objects skip_env (SchemaMgr demo_manager) item (Some vars) v = (Inr [waiting_app], v)" for item vars v
    by (simp add: render_objects_def Template_def template_vars_def execute_template_def parse_template_def
        duckTypeTemplateResult_def duckTypeTemplateResultObject_def duck_type_or_keep_def DuckType_def FindSchemaForKind_def
        demo_manager_def query_def liftR_def wrapA_def attempt_def raise_def ret_def bindA_def skip_env_def demo_env_def)
  have one: "getObjects skip_env (SchemaMgr demo_manager) ''app'' target v = (Inr [waiting_app], v)" for target v
    by (simp add: getObjects_def conditional_def getForEach_def JSONPath_def no_each_def trim_prefix_def trim_suffix_def
        has_prefix_def skip_env_def demo_env_def) (simp add: items [unfolded skip_env_def demo_env_def, simplified])
  have none: "getObjectsFromResourcesTemplate skip_env (SchemaMgr demo_manager) '''' target v = (Inr [], v)" for target v
    by (simp add: getObjectsFromResourcesTemplate_def processTemplate_def template_vars_def execute_template_def
        parse_template_def query_def liftR_def wrapA_def attempt_def ret_def bindA_def skip_env_def demo_env_def)
  show ?thesis
    by (simp add: renderAll_def skip_template_def demo_template_def) (simp add: bindA_def one none ret_def)
qed

theorem HandleSource_skipped_ready_witness:
  "\<exists>result ks. fst (HandleSource skip_env demo_manager skip_template (config_map ''default'' ''source'') demo_world) = Inr result
    \<and> list_all (\<lambda>k. \<exists>u. k = RefreshObject u) ks
    \<and> calls (snd (HandleSource skip_env demo_manager skip_template (config_map ''default'' ''source'') demo_world)) =
        calls demo_world @ ks @ [condition_call skip_template (config_map ''default'' ''source'') True]"
proof (rule HandleSource_skipped_ready)
  show "patchSource skip_env (PatchApplier_of demo_manager) skip_template (config_map ''default'' ''source'') demo_world =
      (Inr (config_map ''default'' ''source''), demo_world)"
    by (simp add: patchSource_def skip_template_def demo_template_def) (simp add: ret_def)
  show "renderAll skip_env (SchemaMgr demo_manager) skip_template (config_map ''default'' ''source'') demo_world =
      (Inr [waiting_app], demo_world)"
    by (rule skip_render)
  show "\<forall>obj \<in> set [waiting_app]. \<forall>v. \<exists>msg rs v'. checkDependentObjects skip_env obj [waiting_app] v = (Inr (False, msg, rs), v')"
    using waiting_app_check by simp blast
  show "CopyToNamespaces (Spec skip_template) = None"
    by (simp add: skip_template_def)
qed

section \<open>Patching once\<close>

lemma mkAnnotation_kept: "mkAnnotation t \<notin> set annotationsBlacklist"
  by (simp add: mkAnnotation_def annotationsBlacklist_def)

lemma alreadyApplied_mark:
  assumes "object_meta (Meta E) ok" "ok u"
  shows "alreadyApplied E t (stripAnnotations E (markApplied E t u))"
proof -
  have "ok (markApplied E t u)"
    using assms(2) by (simp add: markApplied_def object_meta.meta_simps [OF assms(1)])
  then show ?thesis
    using assms(2) by (simp add: alreadyApplied_def annotation_strip [OF assms(1)] mkAnnotation_kept markApplied_def
        object_meta.meta_simps [OF assms(1)] the_map_def update_conv')
qed

lemma on_error_eq_Inr: "on_error msg m w = (Inr x, w') \<longleftrightarrow> m w = (Inr x, w')"
  by (cases "m w"; cases "fst (m w)"; cases "projl (fst (m w))")
     (auto simp: on_error_def bindA_def attempt_def record_call_def raise_def ret_def)

lemma apply_patches_ok:
  assumes "\<And>b u. UnmarshalResource E b = Inr u \<Longrightarrow> ok u"
  shows "apply_patches E sm ty ps u w = (Inr r, w') \<Longrightarrow> ok u \<Longrightarrow> ok r"
proof (induction ps arbitrary: u w)
  case Nil
  then show ?case by (simp add: ret_eq_Inr)
next
  case (Cons p ps)
  then obtain u1 w1 where ap: "Apply E sm u p ty w = (Inr u1, w1)" and rest: "apply_patches E sm ty ps u1 w1 = (Inr r, w')"
    by (auto simp: bindA_eq_Inr on_error_eq_Inr)
  obtain out :: "(gerror + string) list" where "case last_printed out of None \<Rightarrow> u1 = u | Some d \<Rightarrow> UnmarshalResource E d = Inr u1"
    using Apply_run [OF ap] by blast
  then have "ok u1" using assms Cons.prems(2) by (cases "last_printed out") auto
  then show ?case using Cons.IH rest by blast
qed

text \<open>
  C26. A one-off template is applied once: after patching has succeeded, the source carries the
  annotation of the template, and patching it again changes nothing and makes no call, in any
  state of the cluster, provided that the cluster keeps the annotations that it is given.
\<close>

theorem onceoff_patched_once:
  assumes "object_meta (Meta E) ok" and "ok source" and "\<forall>b u. UnmarshalResource E b = Inr u \<longrightarrow> ok u"
    and "\<forall>ns u c v c'. srv_Apply E ns u c = (Inr v, c') \<longrightarrow> annotation (Meta E) v = annotation (Meta E) u"
    and "Onceoff (Spec t)" and "Patches (Spec t) \<noteq> [] \<or> JsonPatches (Spec t) \<noteq> []"
    and "patchSource E sm t source w = (Inr patched, w1)"
  shows "alreadyApplied E t patched \<and> patchSource E sm t patched w2 = (Inr patched, w2)"
proof -
  have "alreadyApplied E t patched"
  proof (cases "alreadyApplied E t source")
    case True
    then show ?thesis using assms(5,7) by (simp add: patchSource_def ret_eq_Inr)
  next
    case False
    then obtain t1 w' t2 w'' where p: "apply_patches E sm PatchTypeYaml (Patches (Spec t)) source w = (Inr t1, w')"
      "apply_patches E sm PatchTypeJSON (map Patch (JsonPatches (Spec t))) t1 w' = (Inr t2, w'')"
      and ap: "applyUnstructured E (GetNamespace (Meta E) (stripAnnotations E (markApplied E t t2)))
         (stripAnnotations E (markApplied E t t2)) w'' = (Inr patched, w1)"
      using assms(6,7) by (auto simp: patchSource_def Let_def bindA_eq_Inr on_error_eq_Inr split: if_splits)
    have "ok t2" using apply_patches_ok [of E ok] assms(2,3) p by blast
    then have "alreadyApplied E t (stripAnnotations E (markApplied E t t2))" by (rule alreadyApplied_mark [OF assms(1)])
    moreover have "annotation (Meta E) patched = annotation (Meta E) (stripAnnotations E (markApplied E t t2))"
    proof -
      obtain c' where "srv_Apply E (GetNamespace (Meta E) (stripAnnotations E (markApplied E t t2)))
         (stripAnnotations E (markApplied E t t2)) (cluster w'') = (Inr patched, c')"
        using ap by (auto simp: applyUnstructured_def external_def split: prod.splits)
      then show ?thesis by (rule assms(4) [rule_format])
    qed
    ultimately show ?thesis by (simp add: alreadyApplied_def)
  qed
  then show ?thesis using assms(5) by (simp add: patchSource_def ret_def)
qed

definition once_template :: template where
  "once_template = demo_template\<lparr>Spec := (Spec demo_template)\<lparr>JsonPatches := [\<lparr>patch_Object = ('''', ''''), Patch = ''[]''\<rparr>]\<rparr>\<rparr>"

theorem onceoff_patched_once_witness:
  "\<exists>patched w1. patchSource demo_env (PatchApplier_of demo_manager) once_template (config_map ''default'' ''source'') demo_world = (Inr patched, w1)
     \<and> alreadyApplied demo_env once_template patched
     \<and> patchSource demo_env (PatchApplier_of demo_manager) once_template patched w1 = (Inr patched, w1)"
proof -
  let ?src = "config_map ''default'' ''source''"
  have "annotation (Meta demo_env) ?src k = None" for k
    by (simp add: annotation_def demo_env_def json_meta_def metadata_def config_map_def obj_get_def entries_def the_map_def)
  then have fresh: "\<not> alreadyApplied demo_env once_template ?src" by (simp add: alreadyApplied_def)
  have ap: "Apply demo_env sm u p PatchTypeJSON w = (Inr u, w)" for sm u p w
    by (simp add: Apply_def json_patch_file_def PatchTypeYaml_def PatchTypeJSON_def query_def liftR_def wrapA_def bindA_def
        ret_def demo_env_def)
  obtain patched w1 where run: "patchSource demo_env (PatchApplier_of demo_manager) once_template ?src demo_world = (Inr patched, w1)"
  proof -
    have spec: "Patches (Spec once_template) = []" "JsonPatches (Spec once_template) = [\<lparr>patch_Object = ('''', ''''), Patch = ''[]''\<rparr>]"
      by (simp_all add: once_template_def demo_template_def)
    have "srv_Apply demo_env ns u c = (Inr u, Suc c)" for ns u c by (simp add: demo_env_def)
    then have "applyUnstructured demo_env ns u w = (Inr u, w\<lparr>cluster := Suc (cluster w), calls := calls w @ [ApplyUnstructured ns u]\<rparr>)"
      for ns u w by (simp add: applyUnstructured_def external_def)
    note ap' = on_error_Inr [where m = "applyUnstructured demo_env ns u" and w = w for ns u w, OF this]
      and ap'' = on_error_Inr [where m = "Apply demo_env sm u p PatchTypeJSON" and w = w for sm u p w, OF ap]
    show thesis
      using fresh that by (simp add: patchSource_def spec bindA_def ap' ap'' Let_def ret_def)
  qed
  have "alreadyApplied demo_env once_template patched \<and>
     patchSource demo_env (PatchApplier_of demo_manager) once_template patched w1 = (Inr patched, w1)"
  proof (rule onceoff_patched_once [OF demo_meta _ _ _ _ _ run])
    show "json_well_formed ?src" by simp
    show "\<forall>b u. UnmarshalResource demo_env b = Inr u \<longrightarrow> json_well_formed u" by (simp add: demo_env_def)
    show "\<forall>ns u c v c'. srv_Apply demo_env ns u c = (Inr v, c') \<longrightarrow> annotation (Meta demo_env) v = annotation (Meta demo_env) u"
      by (simp add: demo_env_def)
  qed (simp_all add: once_template_def demo_template_def)
  then show ?thesis using run by blast
qed

section \<open>Copies\<close>

fun is_apply :: "call \<Rightarrow> bool" where
  "is_apply (ApplyUnstructured _ _) \<longleftrightarrow> True"
| "is_apply _ \<longleftrightarrow> False"

lemma isResourceReady_log:
  "isResourceReady E u w = (r, w') \<Longrightarrow> \<exists>ks. calls w' = calls w @ ks \<and> filter is_apply ks = []"
  using keepsD [OF grows.kept_isResourceReady [where P = "\<lambda>k. \<not> is_apply k" and L = "calls w" and u = u and E = E], of w]
  by (auto simp: grows_def list_all_iff filter_empty_conv)

lemma copy_objects_log:
  "copy_objects E source nss ready w = (Inr r, w') \<Longrightarrow>
    \<exists>ks. calls w' = calls w @ ks \<and> filter is_apply ks =
      map (\<lambda>ns. ApplyUnstructured (GetNamespace (Meta E) (namespace_copy E source ns)) (namespace_copy E source ns)) nss"
proof (induction nss arbitrary: ready w)
  case Nil
  then show ?case by (simp add: ret_eq_Inr)
next
  case (Cons ns nss)
  let ?u = "namespace_copy E source ns"
  obtain v w1 b m w2 where ap: "applyUnstructured E (GetNamespace (Meta E) ?u) ?u w = (Inr v, w1)"
    and rd: "isResourceReady E v w1 = (Inr (b, m), w2)"
    and rest: "copy_objects E source nss (ready \<and> b) w2 = (Inr r, w')"
    using Cons.prems by (auto simp: Let_def act_eq_Inr on_error_eq_Inr)
  obtain ks where "calls w' = calls w2 @ ks" "filter is_apply ks =
      map (\<lambda>ns. ApplyUnstructured (GetNamespace (Meta E) (namespace_copy E source ns)) (namespace_copy E source ns)) nss"
    using Cons.IH [OF rest] by blast
  moreover obtain ks1 where "calls w2 = calls w1 @ ks1" "filter is_apply ks1 = []"
    using isResourceReady_log [OF rd] by blast
  moreover have "calls w1 = calls w @ [ApplyUnstructured (GetNamespace (Meta E) ?u) ?u]"
    using ap by (auto simp: applyUnstructured_def external_def split: prod.splits)
  ultimately show ?case by simp
qed


lemma demo_apply: "\<exists>w'. applyUnstructured demo_env ns u w = (Inr u, w')"
  by (simp add: applyUnstructured_def external_def demo_env_def)

lemma demo_ready: "\<exists>r w'. isResourceReady demo_env u w = (Inr r, w')"
  by (auto simp: isResourceReady_def external_def wrapA_def bindA_def ret_def demo_env_def)

lemma demo_copy: "\<exists>r w'. copy_objects demo_env source nss ready w = (Inr r, w')"
proof (induction nss arbitrary: ready w)
  case Nil
  then show ?case by (simp add: ret_def)
next
  case (Cons ns nss)
  let ?u = "namespace_copy demo_env source ns"
  obtain w1 where ap: "applyUnstructured demo_env (GetNamespace (Meta demo_env) ?u) ?u w = (Inr ?u, w1)"
    using demo_apply by blast
  obtain b m w2 where "isResourceReady demo_env ?u w1 = (Inr (b, m), w2)"
    using demo_ready [of ?u w1] by auto
  moreover obtain r w' where "copy_objects demo_env source nss (ready \<and> b) w2 = (Inr r, w')"
    using Cons.IH by blast
  moreover have "on_error msg (applyUnstructured demo_env (GetNamespace (Meta demo_env) ?u) ?u) w = (Inr ?u, w1)" for msg
    using ap by (simp add: on_error_eq_Inr)
  ultimately show ?case by (simp add: Let_def bindA_def wrapA_def)
qed


section \<open>The order of the sources\<close>

lemma handle_sources_append:
  "handle_sources E tm t (xs @ ys) = (\<lambda>result. bindA (handle_sources E tm t xs result) (handle_sources E tm t ys))"
proof (induction xs)
  case (Cons x xs)
  show ?case by (rule ext) (simp only: append_Cons handle_sources.simps Cons.IH bindA_assoc)
qed simp

text \<open>
  \<open>Run\<close> on a selected kind handles the sources one after the other, stops at the first that
  fails, and otherwise returns the result of the last one alone: a requeue that an earlier source
  asked for is forgotten.
\<close>

theorem Run_last_source:
  assumes "GitRepository (Source (Spec t)) = None" and "selectResources E tm t w = (Inr (sources @ [last_source]), w1)"
    and "handle_sources E tm t sources no_result w1 = (r, w2)"
  shows "Run E tm t w = (case r of Inl e \<Rightarrow> (Inl e, w2) | Inr _ \<Rightarrow> HandleSource E tm t last_source w2)"
proof -
  have "bindA (HandleSource E tm t last_source) ret w2 = HandleSource E tm t last_source w2"
    by (cases "HandleSource E tm t last_source w2"; cases "fst (HandleSource E tm t last_source w2)")
       (simp_all add: bindA_def ret_def)
  moreover have "handle_sources E tm t [last_source] x = bindA (HandleSource E tm t last_source) ret" for x
    by (simp add: fun_eq_iff bindA_def ret_def split: prod.split sum.split)
  ultimately show ?thesis
    using assms by (cases r) (simp_all add: Run_def handle_sources_append bindA_def)
qed

theorem Run_last_source_witness:
  "\<exists>w1. selectResources demo_env demo_manager demo_template demo_world = (Inr [config_map '''' ''source''], w1) \<and>
    Run demo_env demo_manager demo_template demo_world =
      HandleSource demo_env demo_manager demo_template (config_map '''' ''source'') w1"
proof -
  have "\<exists>w1. selectResources demo_env demo_manager demo_template demo_world = (Inr ([] @ [config_map '''' ''source'']), w1)"
  proof -
    have sel: "Source (Spec demo_template) = selector_for ''v1'' ''ConfigMap''" by (simp add: demo_template_def)
    have list: "list_sources demo_env (selector_for ''v1'' ''ConfigMap'') [''''] [] demo_world = (Inr [config_map '''' ''source''],
        demo_world\<lparr>calls := calls demo_world @ [ListResources ''ConfigMap'' '''' '''' '''']\<rparr>)"
      by (simp add: selector_for_def labelSelectorToString_def query_def external_def wrapA_def bindA_def liftR_def ret_def
          demo_env_def)
    have ns: "GetSourceNamespaces demo_env demo_template = ret ['''']"
      by (simp add: GetSourceNamespaces_def sel) (simp add: selector_for_def)
    have kind: "sel_Kind (selector_for ''v1'' ''ConfigMap'') = ''ConfigMap''" "sel_APIVersion (selector_for ''v1'' ''ConfigMap'') = ''v1''"
      by (simp_all add: selector_for_def)
    have watch: "attempt (WatchObject demo_env (Watcher_of demo_manager) u t) = ret (Inr ())" for u t
      by (simp add: demo_manager_def attempt_def ret_def)
    show ?thesis
      unfolding selectResources_def Let_def sel ns
      by (simp add: kind bindA_eq_Inr list watch ret_eq_Inr del: list_sources.simps)
  qed
  then obtain w1 where sel: "selectResources demo_env demo_manager demo_template demo_world = (Inr ([] @ [config_map '''' ''source'']), w1)"
    by blast
  have "GitRepository (Source (Spec demo_template)) = None" by (simp add: demo_template_def selector_for_def)
  moreover have "handle_sources demo_env demo_manager demo_template [] no_result w1 = (Inr no_result, w1)" by (simp add: ret_def)
  ultimately show ?thesis using Run_last_source [OF _ sel] sel by simp
qed

section \<open>The files of a git archive\<close>

fun readable :: "(string \<Rightarrow> bool) \<Rightarrow> tar_event \<Rightarrow> bool" where
  "readable match (BadHeader e) \<longleftrightarrow> False"
| "readable match (Header name typ content) \<longleftrightarrow>
     typ = TypeDir \<or> (typ = TypeReg \<and> (match (''/'' @ name) \<longrightarrow> \<not> isl content))"

text \<open>The regular files that the pattern matches, with their contents, in archive order.\<close>

fun extracted :: "(string \<Rightarrow> bool) \<Rightarrow> tar_event list \<Rightarrow> (string \<times> string) list" where
  "extracted match [] = []"
| "extracted match (Header name TypeReg (Inr d) # evs) =
     (if match (''/'' @ name) then (name, d) # extracted match evs else extracted match evs)"
| "extracted match (_ # evs) = extracted match evs"

lemma tar_files_readable:
  "list_all (readable g) evs \<Longrightarrow>
    tar_files g (evs @ rest) files = tar_files g rest (fold (\<lambda>(n, d). AList.update n d) (extracted g evs) files)"
proof (induction evs arbitrary: files)
  case (Cons ev evs)
  show ?case
  proof (cases ev)
    case (Header name ty content)
    then show ?thesis using Cons by (cases ty; cases content) auto
  next
    case (BadHeader e)
    then show ?thesis using Cons.prems by simp
  qed
qed simp

lemma map_of_fold_update:
  "map_of (fold (\<lambda>(n, d). AList.update n d) kvs m) k = map_of (rev kvs @ m) k"
proof (induction kvs arbitrary: m)
  case (Cons kv kvs)
  obtain n d where kv: "kv = (n, d)" by (cases kv)
  have "map_of (fold (\<lambda>(n, d). AList.update n d) (kv # kvs) m) k = map_of (rev kvs @ AList.update n d m) k"
    using Cons.IH by (simp add: kv)
  then show ?case by (simp add: kv map_add_def update_conv' split: option.split)
qed simp

text \<open>
  C33. From an archive of directories and readable files, \<open>getGitRepositoryFiles\<close> returns exactly the
  regular files whose path the glob pattern matches, with the content of the last entry of each name.
  An archive that holds an entry of any other type (a symbolic link, say) after such a beginning
  yields no files at all and no error.
\<close>

theorem getGitRepositoryFiles_extracts:
  assumes "GlobCompile E (git_Glob source) = Inr g" and "GunzipTar E archive = Inr (evs @ rest)"
    and "list_all (readable g) evs"
  shows "(rest = [] \<longrightarrow> (\<exists>files. getGitRepositoryFiles E source archive = Inr (Some files) \<and>
            (\<forall>name. map_of files name = map_of (rev (extracted g evs)) name)))
       \<and> (\<forall>name content more. rest = Header name TypeOther content # more \<longrightarrow>
            getGitRepositoryFiles E source archive = Inr None)"
proof -
  have "getGitRepositoryFiles E source archive =
      tar_files g rest (fold (\<lambda>(n, d). AList.update n d) (extracted g evs) [])"
    using assms by (simp add: getGitRepositoryFiles_def tar_files_readable)
  then show ?thesis using map_of_fold_update [of "extracted g evs" "[]"] by auto
qed

theorem getGitRepositoryFiles_extracts_witness:
  "getGitRepositoryFiles (demo_env\<lparr>GunzipTar := (\<lambda>s. Inr [Header ''a.yaml'' TypeReg (Inr ''x''), Header ''link'' TypeOther (Inr '''')])\<rparr>)
     \<lparr>git_Name = ''repo'', git_Namespace = ''flux'', git_Glob = ''**''\<rparr> ''archive'' = Inr None"
proof -
  let ?E = "demo_env\<lparr>GunzipTar := (\<lambda>s. Inr [Header ''a.yaml'' TypeReg (Inr ''x''), Header ''link'' TypeOther (Inr '''')])\<rparr>"
  have glob: "GlobCompile ?E (git_Glob \<lparr>git_Name = ''repo'', git_Namespace = ''flux'', git_Glob = ''**''\<rparr>) = Inr (\<lambda>s. True)"
    by (simp add: demo_env_def)
  show ?thesis
    using getGitRepositoryFiles_extracts [OF glob, of "''archive''" "[Header ''a.yaml'' TypeReg (Inr ''x'')]"
        "[Header ''link'' TypeOther (Inr '''')]"] by simp
qed

end
