(* ===== verification/Base64.thy ===== *)
theory Base64
  imports Prelude
begin

text \<open>
  \<open>base64.StdEncoding.EncodeToString\<close>, which \<open>getRestAuthorization\<close> of \<open>k8s/rest_manager.go\<close> calls:
  three bytes become four characters of six bits, and a rest of one or two bytes is padded with \<open>=\<close>.
  \<open>b64_decode\<close> is the reference that the encoding is judged by.
\<close>

definition b64_alphabet :: string where
  "b64_alphabet = ''ABCDEFGHIJKLMNOPQRSTUVWXYZabcdefghijklmnopqrstuvwxyz0123456789+/''"

definition b64_char :: "nat \<Rightarrow> char" where
  "b64_char n = b64_alphabet ! n"

fun EncodeToString :: "nat list \<Rightarrow> string" where
  "EncodeToString [] = []"
| "EncodeToString [a] = [b64_char (a div 4), b64_char (a mod 4 * 16), CHR ''='', CHR ''='']"
| "EncodeToString [a, b] =
     [b64_char (a div 4), b64_char (a mod 4 * 16 + b div 16), b64_char (b mod 16 * 4), CHR ''='']"
| "EncodeToString (a # b # c # bs) =
     b64_char (a div 4) # b64_char (a mod 4 * 16 + b div 16) # b64_char (b mod 16 * 4 + c div 64)
       # b64_char (c mod 64) # EncodeToString bs"

definition string_bytes :: "string \<Rightarrow> nat list" where
  "string_bytes s = map of_char s"

fun index_of :: "char \<Rightarrow> string \<Rightarrow> nat option" where
  "index_of c [] = None"
| "index_of c (d # ds) = (if c = d then Some 0 else map_option Suc (index_of c ds))"

definition b64_value :: "char \<Rightarrow> nat option" where
  "b64_value c = index_of c b64_alphabet"

fun b64_decode :: "string \<Rightarrow> nat list option" where
  "b64_decode [] = Some []"
| "b64_decode (c1 # c2 # c3 # c4 # cs) =
     (case (b64_value c1, b64_value c2, b64_value c3, b64_value c4) of
        (Some x, Some y, Some z, Some u) \<Rightarrow>
          map_option (\<lambda>bs. (x * 4 + y div 16) # (y mod 16 * 16 + z div 4) # (z mod 4 * 64 + u) # bs) (b64_decode cs)
      | (Some x, Some y, Some z, None) \<Rightarrow>
          if c4 = CHR ''='' \<and> cs = [] then Some [x * 4 + y div 16, y mod 16 * 16 + z div 4] else None
      | (Some x, Some y, None, None) \<Rightarrow>
          if c3 = CHR ''='' \<and> c4 = CHR ''='' \<and> cs = [] then Some [x * 4 + y div 16] else None
      | _ \<Rightarrow> None)"
| "b64_decode _ = None"

lemma index_of_nth: "distinct s \<Longrightarrow> n < length s \<Longrightarrow> index_of (s ! n) s = Some n"
proof (induction s arbitrary: n)
  case (Cons c s)
  then show ?case by (cases n) auto
qed simp

lemma b64_alphabet_distinct: "distinct b64_alphabet" "length b64_alphabet = 64"
  by (simp_all add: b64_alphabet_def)

lemma b64_value_char [simp]: "n < 64 \<Longrightarrow> b64_value (b64_char n) = Some n"
  using index_of_nth [OF b64_alphabet_distinct(1)] b64_alphabet_distinct(2) by (simp add: b64_value_def b64_char_def)

lemma b64_value_pad [simp]: "b64_value CHR ''='' = None"
  by (simp add: b64_value_def b64_alphabet_def)

lemma parts4: "a < 256 \<Longrightarrow> \<exists>q r. a = q * 4 + r \<and> q < 64 \<and> r < (4 :: nat)"
  by (intro exI [of _ "a div 4"] exI [of _ "a mod 4"]) simp

lemma parts16: "b < 256 \<Longrightarrow> \<exists>q r. b = q * 16 + r \<and> q < 16 \<and> r < (16 :: nat)"
  by (intro exI [of _ "b div 16"] exI [of _ "b mod 16"]) simp

lemma parts64: "c < 256 \<Longrightarrow> \<exists>q r. c = q * 64 + r \<and> q < 4 \<and> r < (64 :: nat)"
  by (intro exI [of _ "c div 64"] exI [of _ "c mod 64"]) simp

lemma decode_encode: "\<forall>b \<in> set bs. b < 256 \<Longrightarrow> b64_decode (EncodeToString bs) = Some bs"
proof (induction bs rule: EncodeToString.induct)
  case (2 a)
  then obtain q r where "a = q * 4 + r" "q < 64" "r < 4" using parts4 [of a] by auto
  then show ?case by simp
next
  case (3 a b)
  then obtain q r s t where "a = q * 4 + r" "q < 64" "r < 4" "b = s * 16 + t" "s < 16" "t < 16"
    using parts4 [of a] parts16 [of b] by auto
  then show ?case by simp
next
  case (4 a b c bs)
  then obtain q r s t u v where "a = q * 4 + r" "q < 64" "r < 4" "b = s * 16 + t" "s < 16" "t < 16"
    "c = u * 64 + v" "u < 4" "v < 64"
    using parts4 [of a] parts16 [of b] parts64 [of c] by auto
  then show ?case using 4 by simp
qed simp

lemma string_bytes_bound: "\<forall>b \<in> set (string_bytes s). b < 256"
  by (auto simp: string_bytes_def)

lemma string_bytes_inj: "string_bytes s = string_bytes t \<longleftrightarrow> s = t"
  by (simp add: string_bytes_def inj_map_eq_map inj_of_char)

lemma encode_inj: "EncodeToString (string_bytes s) = EncodeToString (string_bytes t) \<longleftrightarrow> s = t"
  using decode_encode [OF string_bytes_bound [of s]] decode_encode [OF string_bytes_bound [of t]] string_bytes_inj
  by (metis option.inject)

end
