(* ===== verification/RestManager.thy ===== *)
theory RestManager
  imports Environment Base64
begin

text \<open>
  \<open>k8s/rest_manager.go\<close>: templating the fields of a REST object, sending the HTTP request of its
  update or removal, reading the status fields from the response, and the check that a generation
  was already sent.
\<close>

text \<open>
  What this side calls beyond \<open>k8s_env\<close>. \<open>RestTplExecute\<close> is \<open>Execute\<close> of a template with the option
  \<open>missingkey=zero\<close>; \<open>UnmarshalInto\<close> is \<open>json.Unmarshal\<close> into an empty map: the error and the map as
  it is left; \<open>HttpDo\<close> gives the status code and the outcome of reading the body;
  \<open>BackoffStep\<close> is \<open>wait.Backoff.Step\<close>, with its random jitter in the state; the fields of \<open>Backoff\<close>
  that never change (\<open>Factor\<close>, \<open>Jitter\<close>, \<open>Cap\<close>) are part of it.
\<close>

record backoff =
  Duration :: nat
  Steps :: nat

record namespaced_name =
  nn_Namespace :: string
  nn_Name :: string

definition nn_string :: "namespaced_name \<Rightarrow> string" where
  "nn_string n = nn_Namespace n @ ''/'' @ nn_Name n"

record http_response =
  StatusCode :: int
  resp_Body :: "gerror + string"

record ('c, 'l) rest_env = "('c, 'l) k8s_env" +
  RestTplExecute :: "go_template \<Rightarrow> gval \<Rightarrow> ('c, string) ext"
  RestToUnstructured :: "rest \<Rightarrow> gerror + unstructured"
  UnmarshalInto :: "string \<Rightarrow> gerror option \<times> gval gmap option"
  GetEnvValue :: "string \<Rightarrow> env_var_source \<Rightarrow> string \<Rightarrow> ('c, string) ext"
  NewRequest :: "string \<Rightarrow> string \<Rightarrow> gerror option"
  srv_HttpDo :: "http_request \<Rightarrow> ('c, http_response) ext"
  IsNotFound :: "gerror \<Rightarrow> bool"
  srv_GetRest :: "namespaced_name \<Rightarrow> ('c, rest) ext"
  srv_UpdateRest :: "rest \<Rightarrow> ('c, rest) ext"
  srv_UpdateRestStatus :: "rest \<Rightarrow> ('c, rest) ext"
  MetaNow :: "'c \<Rightarrow> string \<times> 'c"
  BackoffStep :: "backoff \<Rightarrow> 'c \<Rightarrow> (nat \<times> backoff) \<times> 'c"
  srv_GetTemplate :: "namespaced_name \<Rightarrow> ('c, template) ext"
  srv_GetCrdVersion :: "namespaced_name \<Rightarrow> ('c, string) ext"
  srv_GetCrdVersionBeta :: "namespaced_name \<Rightarrow> ('c, string) ext"
  ServerGroups :: "('c, string list list) ext option"

text \<open>
  An environment for the examples, with the object that the server holds: fields render to
  themselves, every request is answered 200, a status update succeeds as \<open>ok\<close> says.
\<close>

definition demo_rest_env :: "bool \<Rightarrow> rest \<Rightarrow> (nat, schema gmap) rest_env" where
  "demo_rest_env ok r = k8s_env.extend demo_env (rest_env.fields
     (\<lambda>t v c. (Inr t, c)) (\<lambda>r. Inr (config_map '''' (rest_Name r))) (\<lambda>s. (None, Some []))
     (\<lambda>n src ns c. (Inr n, c)) (\<lambda>verb url. None)
     (\<lambda>q c. (Inr \<lparr>StatusCode = 200, resp_Body = Inr ''ok''\<rparr>, c)) (\<lambda>e. err_text e = ''not found'')
     (\<lambda>n c. (Inr r, c)) (\<lambda>r c. (Inr r, c)) (\<lambda>r c. (if ok then Inr r else Inl (Error ''busy''), c))
     (\<lambda>c. (''today'', c)) (\<lambda>b c. ((Duration b, b\<lparr>Steps := Steps b - 1\<rparr>), c))
     (\<lambda>n c. (Inl (Error ''not found''), c)) (\<lambda>n c. (Inr ''7'', c)) (\<lambda>n c. (Inr ''7'', c))
     (Some (\<lambda>c. (Inr [[''apps/v1''], [''apiextensions.k8s.io/v1'']], c))))"

lemmas demo_rest_simps = demo_rest_env_def k8s_env.defs rest_env.defs demo_env_def

definition demo_rest :: rest where
  "demo_rest = \<lparr>rest_Name = ''hook'', Generation = 3, Finalizers = [''termination.flanksource.com/protect''],
     DeletionTimestamp = None,
     rest_Spec = \<lparr>rest_URL = ''http://api'', Auth = Some \<lparr>Username = ''u'', Password = ''p'', auth_Namespace = ''default''\<rparr>,
       Headers = [], UpdateAction = \<lparr>Method = ''POST'', act_URL = '''', Body = ''{}'', act_Status = [(''id'', ''1'')]\<rparr>,
       RemoveAction = \<lparr>Method = ''DELETE'', act_URL = '''', Body = '''', act_Status = []\<rparr>\<rparr>,
     rest_Status = None\<rparr>"

text \<open>\<open>NewRESTManager\<close> ignores the error of \<open>GetClientset\<close>; the manager it builds has no state of its own.\<close>

definition NewRESTManager :: "('c, 'l, 'z) rest_env_scheme \<Rightarrow> ('c, 'l, unit) wact" where
  "NewRESTManager E = bindA (attempt (query (GetClientset E))) (\<lambda>_. ret ())"

section \<open>Generations\<close>

text \<open>A missing key of the status map reads as the empty string.\<close>

definition status_field :: "rest \<Rightarrow> string \<Rightarrow> string" where
  "status_field r k =
     (case rest_Status r of None \<Rightarrow> '''' | Some m \<Rightarrow> (case map_of m k of None \<Rightarrow> '''' | Some v \<Rightarrow> v))"

definition sameGeneration :: "rest \<Rightarrow> bool" where
  "sameGeneration r =
     (if rest_Status r = None then False
      else if status_field r ''observedGeneration'' = '''' then False
      else (case ParseInt (status_field r ''observedGeneration'') 64 of
              Inl _ \<Rightarrow> False
            | Inr gen \<Rightarrow> gen = Generation r))"

section \<open>Templated fields\<close>

definition ignored_parse_error :: string where
  "ignored_parse_error = ''map has no entry for key''"

text \<open>
  Parsing a field. With the one error that is ignored, the parser has returned a nil template, on
  which the later \<open>Execute\<close> panics; the result says whether there is a template.
\<close>

definition parse_field :: "('c, 'l, 'z) rest_env_scheme \<Rightarrow> go_template \<Rightarrow> bool result" where
  "parse_field E field =
     (case TplParse E field of
        None \<Rightarrow> Inr True
      | Some e \<Rightarrow>
          if \<not> str_contains (err_text e) ignored_parse_error then Inl (Fail (Wrap ''failed to create template from field'' e))
          else Inr False)"

definition execute_field ::
  "('c, 'l, 'z) rest_env_scheme \<Rightarrow> bool \<Rightarrow> go_template \<Rightarrow> gval \<Rightarrow> ('c, 'l, string) wact" where
  "execute_field E parsed field data =
     (if parsed then wrapA ''failed to execute template'' (query (RestTplExecute E field data))
      else liftR (Inl nil_deref))"

definition put_data :: "string \<Rightarrow> gval \<Rightarrow> gval gmap option \<Rightarrow> gval gmap option result" where
  "put_data k v m =
     (case m of
        None \<Rightarrow> Inl (Panic ''assignment to entry in nil map'')
      | Some kvs \<Rightarrow> Inr (Some (AList.update k v kvs)))"

definition templateField :: "('c, 'l, 'z) rest_env_scheme \<Rightarrow> rest \<Rightarrow> go_template \<Rightarrow> ('c, 'l, string) wact" where
  "templateField E r field =
     bindA (liftR (parse_field E field)) (\<lambda>parsed.
     bindA (wrapA ''failed to convert rest to unstructured'' (liftR (of_error (RestToUnstructured E r)))) (\<lambda>u.
     bindA (if obj_get ''status'' u = GNil then liftR (put_data ''status'' (GMap []) (Object u)) else ret (Object u)) (\<lambda>data.
     execute_field E parsed field (gval_of_map data))))"

definition templateStatus ::
  "('c, 'l, 'z) rest_env_scheme \<Rightarrow> rest \<Rightarrow> gval gmap option \<Rightarrow> go_template \<Rightarrow> ('c, 'l, string) wact" where
  "templateStatus E r response field =
     bindA (liftR (parse_field E field)) (\<lambda>parsed.
     bindA (wrapA ''failed to convert rest to unstructured'' (liftR (of_error (RestToUnstructured E r)))) (\<lambda>u.
     bindA (liftR (put_data ''response'' (gval_of_map response) (Object u))) (\<lambda>data.
     execute_field E parsed field (gval_of_map data))))"

section \<open>Requests\<close>

definition getRestAuthorization :: "('c, 'l, 'z) rest_env_scheme \<Rightarrow> rest_auth \<Rightarrow> ('c, 'l, string) wact" where
  "getRestAuthorization E auth =
     bindA (wrapA ''failed to get username value'' (query (GetEnvValue E ''username'' (Username auth) (auth_Namespace auth)))) (\<lambda>username.
     bindA (wrapA ''failed to get username value'' (query (GetEnvValue E ''password'' (Password auth) (auth_Namespace auth)))) (\<lambda>password.
     ret (''Basic '' @ EncodeToString (string_bytes (username @ '':'' @ password)))))"

text \<open>
  \<open>req.Header.Set\<close> stores under the canonical form of the key: a key of token characters gets a
  capital at its start and after each hyphen and small letters elsewhere; any other key stays.
\<close>

definition is_token :: "char \<Rightarrow> bool" where
  "is_token c \<longleftrightarrow> c \<in> set ''ABCDEFGHIJKLMNOPQRSTUVWXYZabcdefghijklmnopqrstuvwxyz0123456789!#$%&*+-.^_`|~'' \<or> c = CHR 0x27"

definition to_upper :: "char \<Rightarrow> char" where
  "to_upper c = (if CHR ''a'' \<le> c \<and> c \<le> CHR ''z'' then char_of (of_char c - 32 :: nat) else c)"

definition to_lower :: "char \<Rightarrow> char" where
  "to_lower c = (if CHR ''A'' \<le> c \<and> c \<le> CHR ''Z'' then char_of (of_char c + 32 :: nat) else c)"

fun capitalise :: "bool \<Rightarrow> string \<Rightarrow> string" where
  "capitalise up [] = []"
| "capitalise up (c # cs) = (if up then to_upper c else to_lower c) # capitalise (c = CHR ''-'') cs"

definition canonical_key :: "string \<Rightarrow> string" where
  "canonical_key k = (if list_all is_token k then capitalise True k else k)"

definition set_header :: "string \<Rightarrow> string \<Rightarrow> string gmap \<Rightarrow> string gmap" where
  "set_header k v h = AList.update (canonical_key k) v h"

text \<open>The request with its headers; the authorization replaces a header of that name.\<close>

definition authorization ::
  "('c, 'l, 'z) rest_env_scheme \<Rightarrow> rest \<Rightarrow> string gmap \<Rightarrow> ('c, 'l, string gmap) wact" where
  "authorization E r headers =
     (case Auth (rest_Spec r) of
        None \<Rightarrow> ret headers
      | Some auth \<Rightarrow>
          bindA (wrapA ''failed to generate basic auth'' (getRestAuthorization E auth)) (\<lambda>basicAuth.
          ret (set_header ''Authorization'' basicAuth headers)))"

definition new_request ::
  "('c, 'l, 'z) rest_env_scheme \<Rightarrow> rest \<Rightarrow> string \<Rightarrow> string \<Rightarrow> string \<Rightarrow> ('c, 'l, http_request) wact" where
  "new_request E r verb target newBody =
     (case NewRequest E verb target of
        Some e \<Rightarrow> raise (Wrap ''failed to create request'' e)
      | None \<Rightarrow>
          bindA (authorization E r (fold (\<lambda>(k, v). set_header k v) (Headers (rest_Spec r)) [])) (\<lambda>headers.
          ret \<lparr>http_Method = verb, http_URL = target, http_Body = newBody, http_Header = headers\<rparr>))"

text \<open>\<open>client.Do\<close>, the reading of the body and the test of the status code.\<close>

definition send_request :: "('c, 'l, 'z) rest_env_scheme \<Rightarrow> http_request \<Rightarrow> ('c, 'l, string) wact" where
  "send_request E req =
     bindA (wrapA ''http request failed'' (external (HttpDo req) (srv_HttpDo E req))) (\<lambda>resp.
     bindA (wrapA ''failed to read response body'' (liftR (of_error (resp_Body resp)))) (\<lambda>bodyBytes.
     if StatusCode resp < 200 \<or> StatusCode resp > 299
     then raise (Error (''expected response status 2xx, received status='' @ FormatInt (word_of_int (StatusCode resp))
                        @ '' body='' @ bodyBytes))
     else ret bodyBytes))"

text \<open>
  A nil byte slice is the empty string. When both URLs are empty, \<open>err\<close> is nil at that point and
  \<open>errors.Wrap\<close> of it is nil: the call returns nil bytes without an error.
\<close>

definition doRequest ::
  "('c, 'l, 'z) rest_env_scheme \<Rightarrow> rest \<Rightarrow> string \<Rightarrow> string \<Rightarrow> string \<Rightarrow> ('c, 'l, string) wact" where
  "doRequest E r url verb body =
     bindA (wrapA ''failed to template body'' (templateField E r body)) (\<lambda>newBody.
     bindA (wrapA ''failed to template url'' (templateField E r url)) (\<lambda>newURL.
     if newURL = '''' \<and> rest_URL (rest_Spec r) = '''' then
       (case wrap_error ''url cannot be empty'' None of
          Some e \<Rightarrow> raise e
        | None \<Rightarrow> ret '''')
     else
       bindA (new_request E r verb (if newURL = '''' then rest_URL (rest_Spec r) else newURL) newBody) (send_request E)))"

text \<open>The loop over the status fields of the update action.\<close>

fun template_status_fields ::
  "('c, 'l, 'z) rest_env_scheme \<Rightarrow> rest \<Rightarrow> gval gmap option \<Rightarrow> string gmap \<Rightarrow> string gmap \<Rightarrow> ('c, 'l, string gmap) wact" where
  "template_status_fields E r respBody [] statusUpdates = ret statusUpdates"
| "template_status_fields E r respBody ((k, v) # kvs) statusUpdates =
     bindA (wrapA (''failed to template status field '' @ k) (templateStatus E r respBody v)) (\<lambda>val.
     template_status_fields E r respBody kvs (AList.update k val statusUpdates))"

definition Update :: "('c, 'l, 'z) rest_env_scheme \<Rightarrow> rest \<Rightarrow> ('c, 'l, string gmap option) wact" where
  "Update E r =
     (if sameGeneration r then ret None
      else
        (let act = UpdateAction (rest_Spec r) in
         bindA (wrapA ''failed to send request'' (doRequest E r (act_URL act) (Method act) (Body act))) (\<lambda>resp.
         (let respBody = snd (UnmarshalInto E resp) in
          bindA (template_status_fields E r respBody (act_Status act) []) (\<lambda>statusUpdates.
          ret (Some (AList.update ''observedGeneration'' (FormatInt (Generation r)) statusUpdates)))))))"

definition Delete :: "('c, 'l, 'z) rest_env_scheme \<Rightarrow> rest \<Rightarrow> ('c, 'l, unit) wact" where
  "Delete E r =
     (let act = RemoveAction (rest_Spec r) in
      bindA (wrapA ''failed to send request'' (doRequest E r (act_URL act) (Method act) (Body act))) (\<lambda>_. ret ()))"

section \<open>The calls of each operation\<close>

context logging begin

lemma kept_NewRESTManager [valid_intros, simp]: "keeps I (NewRESTManager E)"
  unfolding NewRESTManager_def by (intro valid_intros)

lemma kept_execute_field [valid_intros, simp]: "keeps I (execute_field E parsed field data)"
  unfolding execute_field_def by (auto intro!: valid_intros)

lemma kept_templateField [valid_intros, simp]: "keeps I (templateField E r field)"
  unfolding templateField_def by (intro valid_intros)

lemma kept_templateStatus [valid_intros, simp]: "keeps I (templateStatus E r response field)"
  unfolding templateStatus_def by (intro valid_intros)

lemma kept_getRestAuthorization [valid_intros, simp]: "keeps I (getRestAuthorization E auth)"
  unfolding getRestAuthorization_def by (intro valid_intros kept_query)

lemma kept_template_status_fields [valid_intros, simp]:
  "keeps I (template_status_fields E r resp kvs su)"
  by (induction kvs arbitrary: su) (auto intro!: valid_intros)

lemma kept_new_request [valid_intros, simp]: "keeps I (new_request E r verb target newBody)"
  unfolding new_request_def authorization_def by (intro valid_intros)

lemma kept_send_request: "P (HttpDo q) \<Longrightarrow> keeps I (send_request E q)"
  unfolding send_request_def by (intro valid_intros)

lemma kept_doRequest: "(\<And>q. P (HttpDo q)) \<Longrightarrow> keeps I (doRequest E r url verb body)"
  unfolding doRequest_def by (intro valid_intros kept_send_request) auto

lemma kept_Update: "(\<And>q. P (HttpDo q)) \<Longrightarrow> keeps I (Update E r)"
  unfolding Update_def Let_def by (intro valid_intros kept_doRequest) auto

lemma kept_Delete: "(\<And>q. P (HttpDo q)) \<Longrightarrow> keeps I (Delete E r)"
  unfolding Delete_def Let_def by (intro valid_intros kept_doRequest) auto

end

section \<open>Basic authorization\<close>

lemma getRestAuthorization_success:
  assumes "getRestAuthorization E auth w = (Inr h, w')"
  obtains user pass c1 c2 where
    "GetEnvValue E ''username'' (Username auth) (auth_Namespace auth) (cluster w) = (Inr user, c1)"
    "GetEnvValue E ''password'' (Password auth) (auth_Namespace auth) c1 = (Inr pass, c2)"
    "h = ''Basic '' @ EncodeToString (string_bytes (user @ '':'' @ pass))" "w' = w\<lparr>cluster := c2\<rparr>"
  using assms that unfolding getRestAuthorization_def
  by (auto simp: act_eq_Inr query_eq_Inr)

text \<open>
  C29. The header that \<open>getRestAuthorization\<close> builds is \<open>Basic\<close> and a base64 text that decodes to the
  user name and the password read from the cluster, joined by a colon; a receiver that splits at
  the first colon gets both back when the user name has no colon.
\<close>
theorem getRestAuthorization_decodes:
  assumes "getRestAuthorization E auth w = (Inr h, w')"
  shows "\<exists>user pass c1 c2 b.
    GetEnvValue E ''username'' (Username auth) (auth_Namespace auth) (cluster w) = (Inr user, c1) \<and>
    GetEnvValue E ''password'' (Password auth) (auth_Namespace auth) c1 = (Inr pass, c2) \<and>
    h = ''Basic '' @ b \<and> b64_decode b = Some (string_bytes (user @ '':'' @ pass)) \<and>
    (CHR '':'' \<notin> set user \<longrightarrow> split2 CHR '':'' (user @ '':'' @ pass) = (user, Some pass)) \<and>
    calls w' = calls w"
  using assms
proof (rule getRestAuthorization_success)
  fix user pass c1 c2
  assume "GetEnvValue E ''username'' (Username auth) (auth_Namespace auth) (cluster w) = (Inr user, c1)"
    "GetEnvValue E ''password'' (Password auth) (auth_Namespace auth) c1 = (Inr pass, c2)"
    "h = ''Basic '' @ EncodeToString (string_bytes (user @ '':'' @ pass))" "w' = w\<lparr>cluster := c2\<rparr>"
  moreover have "CHR '':'' \<notin> set user \<longrightarrow> split2 CHR '':'' (user @ '':'' @ pass) = (user, Some pass)"
    by (simp add: split2_Some)
  ultimately show ?thesis using decode_encode [OF string_bytes_bound] by auto
qed

lemma demo_authorization:
  "\<exists>h. getRestAuthorization (demo_rest_env True demo_rest) \<lparr>Username = ''u'', Password = ''p'', auth_Namespace = ''default''\<rparr> w
     = (Inr h, w)"
  by (simp add: getRestAuthorization_def demo_rest_simps query_def wrapA_def bindA_def ret_def)

theorem getRestAuthorization_decodes_witness:
  "\<exists>h b user pass. fst (getRestAuthorization (demo_rest_env True demo_rest)
       \<lparr>Username = ''u'', Password = ''p'', auth_Namespace = ''default''\<rparr> demo_world) = Inr h
     \<and> h = ''Basic '' @ b \<and> b64_decode b = Some (string_bytes (user @ '':'' @ pass))"
proof -
  obtain h where run: "getRestAuthorization (demo_rest_env True demo_rest)
      \<lparr>Username = ''u'', Password = ''p'', auth_Namespace = ''default''\<rparr> demo_world = (Inr h, demo_world)"
    using demo_authorization by blast
  then show ?thesis using getRestAuthorization_decodes [OF run] by auto
qed

section \<open>Requests that succeed\<close>

lemma set_header_authorization [simp]:
  "map_of (set_header ''Authorization'' h hs) ''Authorization'' = Some h"
proof -
  have "canonical_key ''Authorization'' = ''Authorization''" by code_simp
  then show ?thesis by (simp add: set_header_def update_conv')
qed

lemma templateField_calls: "templateField E r field w = (x, w') \<Longrightarrow> calls w' = calls w"
  by (rule grows_nothing [where m = "templateField E r field"]) simp_all

lemma getRestAuthorization_calls: "getRestAuthorization E auth w = (x, w') \<Longrightarrow> calls w' = calls w"
  by (rule grows_nothing [where m = "getRestAuthorization E auth"]) simp_all

lemma new_request_calls: "new_request E r verb target newBody w = (x, w') \<Longrightarrow> calls w' = calls w"
  by (rule grows_nothing [where m = "new_request E r verb target newBody"]) simp_all

lemma new_request_fields:
  assumes "new_request E r verb target newBody w = (Inr req, w')"
  shows "http_Method req = verb" "http_URL req = target" "http_Body req = newBody" "NewRequest E verb target = None"
    "\<And>auth. Auth (rest_Spec r) = Some auth \<Longrightarrow>
       \<exists>b. map_of (http_Header req) ''Authorization'' = Some b \<and> getRestAuthorization E auth w = (Inr b, w')"
  using assms by (auto simp: new_request_def authorization_def act_eq_Inr split: option.splits)

lemma send_request_success:
  assumes "send_request E req w = (Inr resp, w')"
  obtains a c where "srv_HttpDo E req (cluster w) = (Inr a, c)" "resp_Body a = Inr resp"
    "200 \<le> StatusCode a" "StatusCode a \<le> 299" "w' = w\<lparr>cluster := c, calls := calls w @ [HttpDo req]\<rparr>"
  using assms that by (auto simp: send_request_def act_eq_Inr external_eq_Inr split: if_splits)

lemma doRequest_success:
  assumes "doRequest E r url verb body w = (Inr resp, w')"
  obtains newBody newURL w1 w2 where "templateField E r body w = (Inr newBody, w1)" "templateField E r url w1 = (Inr newURL, w2)"
    "newURL = ''''" "rest_URL (rest_Spec r) = ''''" "resp = ''''" "w' = w2" "calls w2 = calls w"
  | newBody newURL w1 w2 req w3 where "templateField E r body w = (Inr newBody, w1)" "templateField E r url w1 = (Inr newURL, w2)"
    "newURL \<noteq> '''' \<or> rest_URL (rest_Spec r) \<noteq> ''''"
    "new_request E r verb (if newURL = '''' then rest_URL (rest_Spec r) else newURL) newBody w2 = (Inr req, w3)"
    "send_request E req w3 = (Inr resp, w')" "calls w3 = calls w"
proof -
  obtain newBody w1 where b: "templateField E r body w = (Inr newBody, w1)"
    using assms unfolding doRequest_def by (auto simp: act_eq_Inr)
  obtain newURL w2 where u: "templateField E r url w1 = (Inr newURL, w2)"
    using assms unfolding doRequest_def by (auto simp: act_eq_Inr b)
  have q: "calls w2 = calls w" using templateField_calls [OF b] templateField_calls [OF u] by simp
  show ?thesis
  proof (cases "newURL = '''' \<and> rest_URL (rest_Spec r) = ''''")
    case True
    then show ?thesis using assms b u q that(1) unfolding doRequest_def by (auto simp: act_eq_Inr)
  next
    case False
    then obtain req w3 where "new_request E r verb (if newURL = '''' then rest_URL (rest_Spec r) else newURL) newBody w2 = (Inr req, w3)"
      "send_request E req w3 = (Inr resp, w')"
      using assms b u unfolding doRequest_def by (auto simp: act_eq_Inr)
    then show ?thesis using that(2) [OF b u] False q new_request_calls by metis
  qed
qed

text \<open>
  The request of an action of the object: its templated body with its method, to its templated URL
  or to that of the object when the former is empty, with the authorization of the object. An object
  has no URL for an action when both are empty; then \<open>doRequest\<close> succeeds without a request.
\<close>

definition action_request :: "('c, 'l, 'z) rest_env_scheme \<Rightarrow> rest \<Rightarrow> rest_action \<Rightarrow> http_request \<Rightarrow> bool" where
  "action_request E r act q \<longleftrightarrow> (\<exists>newURL v v1 v2 v3.
     templateField E r (Body act) v = (Inr (http_Body q), v1) \<and> templateField E r (act_URL act) v1 = (Inr newURL, v2) \<and>
     http_Method q = Method act \<and> http_URL q = (if newURL = '''' then rest_URL (rest_Spec r) else newURL) \<and>
     (\<forall>auth. Auth (rest_Spec r) = Some auth \<longrightarrow>
       (\<exists>b. map_of (http_Header q) ''Authorization'' = Some b \<and> getRestAuthorization E auth v2 = (Inr b, v3))))"

definition no_url :: "('c, 'l, 'z) rest_env_scheme \<Rightarrow> rest \<Rightarrow> rest_action \<Rightarrow> bool" where
  "no_url E r act \<longleftrightarrow> rest_URL (rest_Spec r) = '''' \<and> (\<exists>v v'. templateField E r (act_URL act) v = (Inr '''', v'))"

lemma doRequest_action:
  assumes "doRequest E r (act_URL act) (Method act) (Body act) w = (Inr resp, w')"
  obtains "no_url E r act" "calls w' = calls w"
  | q a c1 c2 where "action_request E r act q" "calls w' = calls w @ [HttpDo q]" "srv_HttpDo E q c1 = (Inr a, c2)"
      "200 \<le> StatusCode a" "StatusCode a \<le> 299"
  using assms
proof (cases rule: doRequest_success)
  case (1 newBody newURL w1 w2)
  then show ?thesis using that(1) unfolding no_url_def by blast
next
  case (2 newBody newURL w1 w2 req w3)
  obtain a c where sent: "srv_HttpDo E req (cluster w3) = (Inr a, c)" "200 \<le> StatusCode a" "StatusCode a \<le> 299"
    "calls w' = calls w @ [HttpDo req]"
    using 2(5) by (rule send_request_success) (simp add: 2(6))
  have "action_request E r act req"
    unfolding action_request_def
    by (intro exI [of _ newURL] exI [of _ w] exI [of _ w1] exI [of _ w2] exI [of _ w3])
      (simp add: 2(1,2) new_request_fields [OF 2(4)])
  then show ?thesis using that(2) sent by blast
qed

text \<open>
  C10. A request that succeeds was sent exactly once, with the templated body, to the templated URL
  or the one of the object when that is empty, with the basic authorization of the object if it
  has one, and its result is the body of an answer whose status is 2xx; the one exception is an
  object without any URL, for which nothing is sent and the empty body is returned.
\<close>
theorem doRequest_sent_once:
  assumes "doRequest E r url verb body w = (Inr resp, w')"
  shows "\<exists>newBody newURL w1 w2.
    templateField E r body w = (Inr newBody, w1) \<and> templateField E r url w1 = (Inr newURL, w2) \<and>
    (if newURL = '''' \<and> rest_URL (rest_Spec r) = '''' then resp = '''' \<and> calls w' = calls w
     else (\<exists>req a w3. calls w' = calls w @ [HttpDo req] \<and> http_Method req = verb \<and> http_Body req = newBody \<and>
       http_URL req = (if newURL = '''' then rest_URL (rest_Spec r) else newURL) \<and>
       (\<forall>auth. Auth (rest_Spec r) = Some auth \<longrightarrow>
         (\<exists>b. map_of (http_Header req) ''Authorization'' = Some b \<and> getRestAuthorization E auth w2 = (Inr b, w3))) \<and>
       srv_HttpDo E req (cluster w3) = (Inr a, cluster w') \<and>
       resp_Body a = Inr resp \<and> 200 \<le> StatusCode a \<and> StatusCode a \<le> 299))"
  using assms
proof (cases rule: doRequest_success)
  case (1 newBody newURL w1 w2)
  then show ?thesis by auto
next
  case (2 newBody newURL w1 w2 req w3)
  have sent: "\<exists>a. calls w' = calls w @ [HttpDo req] \<and> srv_HttpDo E req (cluster w3) = (Inr a, cluster w') \<and>
      resp_Body a = Inr resp \<and> 200 \<le> StatusCode a \<and> StatusCode a \<le> 299"
    using 2(5) by (rule send_request_success) (simp add: 2(6))
  have "\<not> (newURL = '''' \<and> rest_URL (rest_Spec r) = '''')" using 2(3) by simp
  then show ?thesis using 2(1,2) sent new_request_fields [OF 2(4)] by auto
qed

lemma demo_templateField: "templateField (demo_rest_env ok r) x field w = (Inr field, w)"
  by (simp add: templateField_def parse_field_def execute_field_def demo_rest_simps config_map_def obj_get_def entries_def
      put_data_def query_def wrapA_def bindA_def liftR_def ret_def)

lemma demo_new_request: "\<exists>q. new_request (demo_rest_env ok r) demo_rest verb t body w = (Inr q, w)"
  by (simp add: new_request_def authorization_def demo_rest_def getRestAuthorization_def demo_rest_simps query_def wrapA_def
      bindA_def ret_def)

lemma demo_send_request:
  "send_request (demo_rest_env ok r) q w = (Inr ''ok'', w\<lparr>calls := calls w @ [HttpDo q]\<rparr>)"
  by (simp add: send_request_def demo_rest_simps external_def wrapA_def bindA_def liftR_def ret_def)

lemma demo_doRequest:
  "\<exists>q. doRequest (demo_rest_env ok r) demo_rest '''' verb body w = (Inr ''ok'', w\<lparr>calls := calls w @ [HttpDo q]\<rparr>)"
proof -
  obtain q where "new_request (demo_rest_env ok r) demo_rest verb ''http://api'' body w = (Inr q, w)"
    using demo_new_request by blast
  then have "doRequest (demo_rest_env ok r) demo_rest '''' verb body w = (Inr ''ok'', w\<lparr>calls := calls w @ [HttpDo q]\<rparr>)"
    by (simp add: doRequest_def demo_templateField wrapA_def bindA_def demo_send_request)
      (simp add: demo_rest_def demo_send_request)
  then show ?thesis by blast
qed

theorem doRequest_sent_once_witness:
  "\<exists>q. calls (snd (doRequest (demo_rest_env True demo_rest) demo_rest '''' ''POST'' ''{}'' demo_world)) = calls demo_world @ [HttpDo q]
    \<and> http_Method q = ''POST'' \<and> http_URL q = ''http://api'' \<and> http_Body q = ''{}''"
proof -
  obtain w' where run: "doRequest (demo_rest_env True demo_rest) demo_rest '''' ''POST'' ''{}'' demo_world = (Inr ''ok'', w')"
    using demo_doRequest by blast
  have url: "rest_URL (rest_Spec demo_rest) = ''http://api''" by (simp add: demo_rest_def)
  show ?thesis using doRequest_sent_once [OF run] run by (auto simp: demo_templateField url)
qed

section \<open>Generations\<close>

lemma template_status_fields_wf:
  "template_status_fields E r resp kvs su w = (Inr su', w') \<Longrightarrow> map_wf su \<Longrightarrow> map_wf su'"
  by (induction kvs arbitrary: su w) (fastforce simp: act_eq_Inr)+

lemma template_status_fields_calls:
  "template_status_fields E r resp kvs su w = (x, w') \<Longrightarrow> calls w' = calls w"
  by (rule grows_nothing [where m = "template_status_fields E r resp kvs su"]) simp_all

lemma Update_sends:
  assumes "Update E r w = (Inr u, w')"
  obtains "sameGeneration r" "u = None" "w' = w"
  | resp w1 su where "\<not> sameGeneration r"
    "doRequest E r (act_URL (UpdateAction (rest_Spec r))) (Method (UpdateAction (rest_Spec r))) (Body (UpdateAction (rest_Spec r))) w
      = (Inr resp, w1)" "calls w' = calls w1"
    "u = Some (AList.update ''observedGeneration'' (FormatInt (Generation r)) su)" "map_wf su"
proof (cases "sameGeneration r")
  case True
  then show ?thesis using assms that(1) by (simp add: Update_def act_eq_Inr)
next
  case False
  then obtain resp w1 su where *: "doRequest E r (act_URL (UpdateAction (rest_Spec r))) (Method (UpdateAction (rest_Spec r)))
      (Body (UpdateAction (rest_Spec r))) w = (Inr resp, w1)"
    "template_status_fields E r (snd (UnmarshalInto E resp)) (act_Status (UpdateAction (rest_Spec r))) [] w1 = (Inr su, w')"
    "u = Some (AList.update ''observedGeneration'' (FormatInt (Generation r)) su)"
    using assms by (auto simp: Update_def Let_def act_eq_Inr)
  then show ?thesis
    using that(2) [OF False *(1) template_status_fields_calls [OF *(2)] *(3)] template_status_fields_wf [OF *(2)]
    by (simp add: map_wf_def)
qed

end
