(* ===== verification/Retry.thy ===== *)
theory Retry
  imports Prelude
begin

text \<open>
  The shape of the two retry loops of \<open>controllers/rest_controller.go\<close>: while steps are left, try,
  and go on with a new state unless the try ends the loop. The interface asks only for the
  unfolding of the loop; that it ends, and after how many tries, follows once each try uses up a
  step. None is a loop that never ends.
\<close>

locale retries =
  fixes steps :: "'s \<Rightarrow> nat"
    and body :: "'s \<Rightarrow> 'w \<Rightarrow> 's option result \<times> 'w"
    and loop :: "'s \<Rightarrow> 'w \<Rightarrow> (unit result \<times> 'w) option"
  assumes unfold: "loop s w =
     (if steps s = 0 then Some (Inr (), w)
      else (case body s w of
              (Inl f, w') \<Rightarrow> Some (Inl f, w')
            | (Inr None, w') \<Rightarrow> Some (Inr (), w')
            | (Inr (Some s'), w') \<Rightarrow> loop s' w'))"
begin

lemma no_steps: "steps s = 0 \<Longrightarrow> loop s w = Some (Inr (), w)"
  by (simp add: unfold [of s])

lemma failed: "0 < steps s \<Longrightarrow> body s w = (Inl f, w') \<Longrightarrow> loop s w = Some (Inl f, w')"
  by (simp add: unfold [of s])

lemma ended: "0 < steps s \<Longrightarrow> body s w = (Inr None, w') \<Longrightarrow> loop s w = Some (Inr (), w')"
  by (simp add: unfold [of s])

lemma retried: "0 < steps s \<Longrightarrow> body s w = (Inr (Some s'), w') \<Longrightarrow> loop s w = loop s' w'"
  by (simp add: unfold [of s])

lemma step_cases:
  assumes "0 < steps s"
  obtains f w' where "body s w = (Inl f, w')" "loop s w = Some (Inl f, w')"
  | w' where "body s w = (Inr None, w')" "loop s w = Some (Inr (), w')"
  | s' w' where "body s w = (Inr (Some s'), w')" "loop s w = loop s' w'"
proof (cases "body s w")
  case (Pair r w')
  then show ?thesis using that assms failed ended retried by (cases r; cases "projr r") auto
qed

text \<open>
  A relation \<open>R n w v\<close> between the state before and after a loop with \<open>n\<close> steps holds at its end
  when a try that ends the loop gives it and one that goes on extends it; the loop then ends.
\<close>

lemma ends_with:
  assumes decreases: "\<And>s w s' w'. 0 < steps s \<Longrightarrow> P s \<Longrightarrow> body s w = (Inr (Some s'), w') \<Longrightarrow> steps s' < steps s \<and> P s'"
    and none: "\<And>s w. P s \<Longrightarrow> R 0 (Inr ()) w w"
    and fails: "\<And>s w f w'. P s \<Longrightarrow> 0 < steps s \<Longrightarrow> body s w = (Inl f, w') \<Longrightarrow> R (steps s) (Inl f) w w'"
    and stops: "\<And>s w w'. P s \<Longrightarrow> 0 < steps s \<Longrightarrow> body s w = (Inr None, w') \<Longrightarrow> R (steps s) (Inr ()) w w'"
    and goes_on: "\<And>s w s' w' r v. P s \<Longrightarrow> 0 < steps s \<Longrightarrow> body s w = (Inr (Some s'), w') \<Longrightarrow> steps s' < steps s
      \<Longrightarrow> R (steps s') r w' v \<Longrightarrow> R (steps s) r w v"
    and start: "P s"
  shows "\<exists>r v. loop s w = Some (r, v) \<and> R (steps s) r w v"
  using start
proof (induction "steps s" arbitrary: s w rule: less_induct)
  case less
  show ?case
  proof (cases "steps s = 0")
    case True
    then show ?thesis using none [OF less.prems] no_steps by simp
  next
    case False
    then have pos: "0 < steps s" by simp
    show ?thesis
    proof (rule step_cases [OF pos, of w])
      fix f w' assume "body s w = (Inl f, w')" "loop s w = Some (Inl f, w')"
      then show ?thesis using fails less.prems pos by blast
    next
      fix w' assume "body s w = (Inr None, w')" "loop s w = Some (Inr (), w')"
      then show ?thesis using stops less.prems pos by blast
    next
      fix s' w' assume t: "body s w = (Inr (Some s'), w')" and l: "loop s w = loop s' w'"
      then have d: "steps s' < steps s" "P s'" using decreases [OF pos less.prems] by auto
      then obtain r v where "loop s' w' = Some (r, v)" "R (steps s') r w' v" using less.hyps by blast
      then show ?thesis using goes_on [OF less.prems pos t d(1)] l by auto
    qed
  qed
qed

text \<open>In particular, what every try keeps holds when the loop ends.\<close>

lemma ends_keeping:
  assumes decreases: "\<And>s w s' w'. 0 < steps s \<Longrightarrow> P s \<Longrightarrow> body s w = (Inr (Some s'), w') \<Longrightarrow> steps s' < steps s \<and> P s'"
    and kept: "\<And>s w. P s \<Longrightarrow> I w \<Longrightarrow> I (snd (body s w))"
    and start: "P s" "I w"
  shows "\<exists>r v. loop s w = Some (r, v) \<and> I v"
proof -
  have one: "P s \<Longrightarrow> body s w = (x, w') \<Longrightarrow> I w \<Longrightarrow> I w'" for s w x w'
    using kept [of s w] by simp
  have "\<exists>r v. loop s w = Some (r, v) \<and> (I w \<longrightarrow> I v)"
    by (rule ends_with [where P = P and R = "\<lambda>n r w v. I w \<longrightarrow> I v"]) (auto intro: start(1) one dest: decreases)
  then show ?thesis using start(2) by blast
qed

end

end
