(* ===== verification/RestController.thy ===== *)
theory RestController
  imports RestManager Retry
begin

text \<open>
  \<open>controllers/rest_controller.go\<close>: the reconciler of REST objects. Its two retry loops end when the
  backoff has no steps left; they are partial functions into option, None for a loop that never
  ends, so that their termination is a theorem about the backoff. The object that Go passes by
  pointer is threaded through.
\<close>

definition RESTDeleteFinalizer :: string where
  "RESTDeleteFinalizer = ''termination.flanksource.com/protect''"

definition objectModifiedError :: string where
  "objectModifiedError =
     ''the object has been modified; please apply your changes to the latest version and try again''"

definition removeFinalizer :: "rest \<Rightarrow> string list" where
  "removeFinalizer r = filter (\<lambda>f. f \<noteq> RESTDeleteFinalizer) (Finalizers r)"

definition cloneMap :: "string gmap \<Rightarrow> string gmap" where
  "cloneMap m = map_put_all [] m"

text \<open>Ranging over a nil map of updates does nothing; the status map is created first.\<close>

definition addStatusUpdates :: "rest \<Rightarrow> string gmap option \<Rightarrow> rest" where
  "addStatusUpdates r statusUpdates =
     r\<lparr>rest_Status := Some (map_put_all (the_map (rest_Status r)) (the_map statusUpdates))\<rparr>"

definition meta_now :: "('c, 'l, 'z) rest_env_scheme \<Rightarrow> ('c, 'l, string) wact" where
  "meta_now E = query (\<lambda>c. case MetaNow E c of (s, c') \<Rightarrow> (Inr s, c'))"

definition setRestStatus :: "('c, 'l, 'z) rest_env_scheme \<Rightarrow> rest \<Rightarrow> ('c, 'l, rest) wact" where
  "setRestStatus E r =
     bindA (meta_now E) (\<lambda>s.
     (case rest_Status r of
        None \<Rightarrow> liftR (Inl (Panic ''assignment to entry in nil map''))
      | Some m \<Rightarrow> ret (r\<lparr>rest_Status := Some (AList.update ''lastUpdated'' s m)\<rparr>)))"

definition backoff_step :: "('c, 'l, 'z) rest_env_scheme \<Rightarrow> backoff \<Rightarrow> ('c, 'l, nat \<times> backoff) wact" where
  "backoff_step E b = query (\<lambda>c. case BackoffStep E b c of (x, c') \<Rightarrow> (Inr x, c'))"

definition initial_backoff :: backoff where
  "initial_backoff = \<lparr>Duration = 50 * 10 ^ 6, Steps = 10\<rparr>"

text \<open>\<open>r.ControllerClient.Get(ctx, types.NamespacedName{Name: rest.Name}, rest)\<close>\<close>

definition refetch :: "('c, 'l, 'z) rest_env_scheme \<Rightarrow> rest \<Rightarrow> ('c, 'l, rest) wact" where
  "refetch E r =
     (let n = \<lparr>nn_Namespace = '''', nn_Name = rest_Name r\<rparr>
      in wrapA ''failed to refetch object'' (external (GetRest (nn_string n)) (srv_GetRest E n)))"

section \<open>updateStatus\<close>

type_synonym ('c, 'l, 'a) loop = "('c, 'l) world \<Rightarrow> ('a result \<times> ('c, 'l) world) option"

text \<open>The body of the loop after a failed update: None is the \<open>return nil\<close> of an unchanged status.\<close>

definition status_retry ::
  "('c, 'l, 'z) rest_env_scheme \<Rightarrow> backoff \<Rightarrow> rest \<Rightarrow> string gmap option \<Rightarrow> string gmap \<Rightarrow> gerror
    \<Rightarrow> ('c, 'l, (backoff \<times> rest) option) wact" where
  "status_retry E b r statusUpdates oldStatus e =
     bindA (backoff_step E b) (\<lambda>(sleepDuration, b').
     bindA (record_call (Sleep sleepDuration)) (\<lambda>_.
     if str_contains (err_text e) objectModifiedError then
       bindA (refetch E r) (\<lambda>r1.
       (let r2 = addStatusUpdates r1 statusUpdates in
        if map_eq (the_map (rest_Status r2)) oldStatus then ret None
        else bindA (setRestStatus E r2) (\<lambda>r3. ret (Some (b', r3)))))
     else ret (Some (b', r))))"

definition update_status_call :: "('c, 'l, 'z) rest_env_scheme \<Rightarrow> rest \<Rightarrow> ('c, 'l, gerror + rest) wact" where
  "update_status_call E r = attempt (external (UpdateStatus r) (srv_UpdateRestStatus E r))"

text \<open>After the loop the function returns the outer \<open>err\<close>, which nothing has assigned: nil.\<close>

definition status_body ::
  "('c, 'l, 'z) rest_env_scheme \<Rightarrow> string gmap option \<Rightarrow> string gmap \<Rightarrow> backoff \<times> rest
    \<Rightarrow> ('c, 'l, (backoff \<times> rest) option) wact" where
  "status_body E statusUpdates oldStatus = (\<lambda>(b, r).
     bindA (update_status_call E r) (\<lambda>u.
     (case u of
        Inr _ \<Rightarrow> ret None
      | Inl e \<Rightarrow> status_retry E b r statusUpdates oldStatus e)))"

partial_function (option) status_loop ::
  "('c, 'l, 'z) rest_env_scheme \<Rightarrow> string gmap option \<Rightarrow> string gmap \<Rightarrow> backoff \<times> rest \<Rightarrow> ('c, 'l, unit) loop" where
  "status_loop E statusUpdates oldStatus s w =
     (if Steps (fst s) = 0 then Some (Inr (), w)
      else
        (case status_body E statusUpdates oldStatus s w of
           (Inl f, w') \<Rightarrow> Some (Inl f, w')
         | (Inr None, w') \<Rightarrow> Some (Inr (), w')
         | (Inr (Some s'), w') \<Rightarrow> status_loop E statusUpdates oldStatus s' w'))"

definition updateStatus ::
  "('c, 'l, 'z) rest_env_scheme \<Rightarrow> rest \<Rightarrow> string gmap option \<Rightarrow> string gmap \<Rightarrow> ('c, 'l, unit) loop" where
  "updateStatus E r statusUpdates oldStatus w =
     (let r1 = addStatusUpdates r statusUpdates in
      if map_eq (the_map (rest_Status r1)) oldStatus then Some (Inr (), w)
      else
        (case setRestStatus E r1 w of
           (Inl f, w1) \<Rightarrow> Some (Inl f, w1)
         | (Inr r2, w1) \<Rightarrow> status_loop E statusUpdates oldStatus (initial_backoff, r2) w1))"

interpretation status: retries "\<lambda>s. Steps (fst s)" "status_body E statusUpdates oldStatus" "status_loop E statusUpdates oldStatus"
  for E :: "('c, 'l, 'z) rest_env_scheme" and statusUpdates oldStatus
  by unfold_locales (rule status_loop.simps)

section \<open>removeFinalizers\<close>

definition finalizer_retry ::
  "('c, 'l, 'z) rest_env_scheme \<Rightarrow> backoff \<Rightarrow> rest \<Rightarrow> gerror \<Rightarrow> ('c, 'l, (backoff \<times> rest) option) wact" where
  "finalizer_retry E b r e =
     bindA (backoff_step E b) (\<lambda>(sleepDuration, b').
     bindA (record_call (Sleep sleepDuration)) (\<lambda>_.
     if str_contains (err_text e) objectModifiedError then
       bindA (refetch E r) (\<lambda>r1. ret (Some (b', r1\<lparr>Finalizers := removeFinalizer r1\<rparr>)))
     else ret (Some (b', r))))"

definition update_call :: "('c, 'l, 'z) rest_env_scheme \<Rightarrow> rest \<Rightarrow> ('c, 'l, gerror + rest) wact" where
  "update_call E r = attempt (external (UpdateObject r) (srv_UpdateRest E r))"

definition finalizer_body ::
  "('c, 'l, 'z) rest_env_scheme \<Rightarrow> backoff \<times> rest \<Rightarrow> ('c, 'l, (backoff \<times> rest) option) wact" where
  "finalizer_body E = (\<lambda>(b, r).
     bindA (update_call E r) (\<lambda>u.
     (case u of
        Inr _ \<Rightarrow> ret None
      | Inl e \<Rightarrow> finalizer_retry E b r e)))"

partial_function (option) finalizer_loop ::
  "('c, 'l, 'z) rest_env_scheme \<Rightarrow> backoff \<times> rest \<Rightarrow> ('c, 'l, unit) loop" where
  "finalizer_loop E s w =
     (if Steps (fst s) = 0 then Some (Inr (), w)
      else
        (case finalizer_body E s w of
           (Inl f, w') \<Rightarrow> Some (Inl f, w')
         | (Inr None, w') \<Rightarrow> Some (Inr (), w')
         | (Inr (Some s'), w') \<Rightarrow> finalizer_loop E s' w'))"

interpretation finalizer: retries "\<lambda>s. Steps (fst s)" "finalizer_body E" "finalizer_loop E"
  for E :: "('c, 'l, 'z) rest_env_scheme"
  by unfold_locales (rule finalizer_loop.simps)

definition removeFinalizers :: "('c, 'l, 'z) rest_env_scheme \<Rightarrow> rest \<Rightarrow> ('c, 'l, unit) loop" where
  "removeFinalizers E r w = finalizer_loop E (initial_backoff, r\<lparr>Finalizers := removeFinalizer r\<rparr>) w"

section \<open>Reconcile\<close>

definition bindL :: "('c, 'l, 'a) loop \<Rightarrow> ('a \<Rightarrow> ('c, 'l, 'b) loop) \<Rightarrow> ('c, 'l, 'b) loop" where
  "bindL m f = (\<lambda>w. case m w of
     None \<Rightarrow> None
   | Some (Inl e, w') \<Rightarrow> Some (Inl e, w')
   | Some (Inr x, w') \<Rightarrow> f x w')"

definition total :: "('c, 'l, 'a) wact \<Rightarrow> ('c, 'l, 'a) loop" where
  "total m = (\<lambda>w. Some (m w))"

definition incRESTSuccess :: "string \<Rightarrow> ('c, 'l, unit) wact" where
  "incRESTSuccess name = bindA (record_call (IncGauge RestCount name)) (\<lambda>_. record_call (IncGauge RestSuccess name))"

definition incRESTFailed :: "string \<Rightarrow> ('c, 'l, unit) wact" where
  "incRESTFailed name = bindA (record_call (IncGauge RestCount name)) (\<lambda>_. record_call (IncGauge RestFailed name))"

text \<open>\<open>if err != nil { incFailed(name); return err }\<close>, with the counter of the controller.\<close>

definition count_failure :: "('c, 'l, unit) wact \<Rightarrow> ('c, 'l, 'a) wact \<Rightarrow> ('c, 'l, 'a) wact" where
  "count_failure inc m = bindA (attempt m) (\<lambda>r.
     (case r of
        Inl e \<Rightarrow> bindA inc (\<lambda>_. raise e)
      | Inr x \<Rightarrow> ret x))"

text \<open>The first part of \<open>Reconcile\<close>: None when the object is gone.\<close>

definition fetch_rest :: "('c, 'l, 'z) rest_env_scheme \<Rightarrow> namespaced_name \<Rightarrow> ('c, 'l, rest option) wact" where
  "fetch_rest E req =
     bindA (attempt (external (GetRest (nn_string req)) (srv_GetRest E req))) (\<lambda>g.
     (case g of
        Inl e \<Rightarrow>
          if IsNotFound E e then ret None
          else bindA (incRESTFailed (nn_string req)) (\<lambda>_. raise e)
      | Inr r \<Rightarrow> ret (Some (r\<lparr>rest_Status := Some (the_map (rest_Status r))\<rparr>))))"

definition reset_mapper_if_expired :: "('c, 'l, 'z) rest_env_scheme \<Rightarrow> ('c, 'l, unit) wact" where
  "reset_mapper_if_expired E =
     bindA (SchemaHasExpired E) (\<lambda>expired. if expired then record_call ResetRestMapper else ret ())"

text \<open>The rest of \<open>Reconcile\<close>: \<open>oldStatus\<close> is the copy of the status made after the fetch.\<close>

definition reconcile_rest ::
  "('c, 'l, 'z) rest_env_scheme \<Rightarrow> string \<Rightarrow> string gmap \<Rightarrow> rest \<Rightarrow> ('c, 'l, unit) loop" where
  "reconcile_rest E name oldStatus r =
     (if DeletionTimestamp r \<noteq> None then
        bindL (total (Delete E r)) (\<lambda>_. removeFinalizers E r)
      else if RESTDeleteFinalizer \<notin> set (Finalizers r) then
        (let r' = r\<lparr>Finalizers := Finalizers r @ [RESTDeleteFinalizer]\<rparr>
         in total (bindA (external (UpdateObject r') (srv_UpdateRest E r')) (\<lambda>_. ret ())))
      else
        bindL (total (count_failure (incRESTFailed name) (Update E r))) (\<lambda>statusUpdates.
        bindL (updateStatus E r statusUpdates oldStatus) (\<lambda>_.
        total (incRESTSuccess name))))"

definition Reconcile :: "('c, 'l, 'z) rest_env_scheme \<Rightarrow> namespaced_name \<Rightarrow> ('c, 'l, unit) loop" where
  "Reconcile E req =
     bindL (total (fetch_rest E req)) (\<lambda>g.
     (case g of
        None \<Rightarrow> total (ret ())
      | Some r \<Rightarrow>
          bindL (total (reset_mapper_if_expired E)) (\<lambda>_.
          bindL (total (count_failure (incRESTFailed (nn_string req)) (NewRESTManager E))) (\<lambda>_.
          reconcile_rest E (nn_string req) (cloneMap (the_map (rest_Status r))) r))))"

section \<open>Observed generations\<close>

lemma fmt_nat_not_empty: "FormatInt v \<noteq> ''''"
proof
  assume "FormatInt v = ''''"
  then have "Atoi '''' = Inr v" using Atoi_FormatInt [of v] by simp
  then show False by (simp add: Atoi_def num_result_def parse_signed_def split_sign_def)
qed

lemma sameGeneration_iff:
  assumes "status_field r ''observedGeneration'' = FormatInt g"
  shows "sameGeneration r \<longleftrightarrow> g = Generation r"
proof -
  have "rest_Status r \<noteq> None" using assms fmt_nat_not_empty [of g] by (auto simp: status_field_def split: option.splits)
  then show ?thesis using assms by (auto simp: sameGeneration_def fmt_nat_not_empty ParseInt_FormatInt)
qed

lemma status_field_added:
  assumes "map_wf su"
  shows "status_field (addStatusUpdates r (Some su)) k =
    (case map_of su k of None \<Rightarrow> status_field r k | Some v \<Rightarrow> v)"
  using assms
  by (auto simp: status_field_def addStatusUpdates_def the_map_def map_of_put_all map_add_def split: option.split)

text \<open>
  C22. After the updates that a successful \<open>Update\<close> returns have been put into the status, the object
  counts as observed and a further \<open>Update\<close> does nothing; with another generation it is sent again.
\<close>
theorem Update_observed:
  assumes "Update E r w = (Inr (Some su), w')"
  shows "sameGeneration (addStatusUpdates r (Some su)) \<and>
    Update E (addStatusUpdates r (Some su)) v = (Inr None, v) \<and>
    (sameGeneration ((addStatusUpdates r (Some su))\<lparr>Generation := g\<rparr>) \<longleftrightarrow> g = Generation r)"
proof -
  have *: "status_field (addStatusUpdates r (Some su)) ''observedGeneration'' = FormatInt (Generation r)"
    using assms by (cases rule: Update_sends) (auto simp: status_field_added update_conv')
  moreover have "status_field ((addStatusUpdates r (Some su))\<lparr>Generation := g\<rparr>) ''observedGeneration'' = FormatInt (Generation r)"
    using * by (simp add: status_field_def)
  moreover have "Generation (addStatusUpdates r (Some su)) = Generation r"
    by (simp add: addStatusUpdates_def)
  ultimately show ?thesis using sameGeneration_iff by (fastforce simp: Update_def ret_def)
qed

section \<open>Counting the writes\<close>

text \<open>
  \<open>adds Q n w v\<close>: between \<open>w\<close> and \<open>v\<close> the log grew, by at most \<open>n\<close> calls that satisfy \<open>Q\<close>.
\<close>

definition adds :: "(call \<Rightarrow> bool) \<Rightarrow> nat \<Rightarrow> ('c, 'l) world \<Rightarrow> ('c, 'l) world \<Rightarrow> bool" where
  "adds Q n w v \<longleftrightarrow> (\<exists>ks. calls v = calls w @ ks \<and> length (filter Q ks) \<le> n)"

fun is_write :: "call \<Rightarrow> bool" where
  "is_write (UpdateObject r) \<longleftrightarrow> True"
| "is_write (UpdateStatus r) \<longleftrightarrow> True"
| "is_write k \<longleftrightarrow> False"

lemma adds_refl [simp]: "adds Q n w w"
  by (simp add: adds_def)

lemma adds_trans: "adds Q a w v \<Longrightarrow> adds Q b v u \<Longrightarrow> a + b \<le> n \<Longrightarrow> adds Q n w u"
  unfolding adds_def by fastforce

lemma adds_mono: "adds Q a w v \<Longrightarrow> a \<le> n \<Longrightarrow> adds Q n w v"
  unfolding adds_def by fastforce

lemma adds_grows:
  assumes "\<And>L. keeps (grows L (\<lambda>k. \<not> Q k)) m" and "m w = (x, v)"
  shows "adds Q n w v"
  using keepsD [OF assms(1), of "calls w" w] assms(2)
  by (auto simp: grows_def adds_def list_all_iff filter_False)

context logging begin

lemma kept_meta_now [valid_intros, simp]: "keeps I (meta_now E)"
  unfolding meta_now_def by simp

lemma kept_setRestStatus [valid_intros, simp]: "keeps I (setRestStatus E r)"
  unfolding setRestStatus_def by (intro valid_intros)

lemma kept_backoff_step [valid_intros, simp]: "keeps I (backoff_step E b)"
  unfolding backoff_step_def by simp

lemma kept_refetch: "(\<And>n. P (GetRest n)) \<Longrightarrow> keeps I (refetch E r)"
  unfolding refetch_def Let_def by (intro valid_intros)

lemma kept_status_retry:
  "(\<And>n. P (GetRest n)) \<Longrightarrow> (\<And>d. P (Sleep d)) \<Longrightarrow> keeps I (status_retry E b r su old e)"
  unfolding status_retry_def Let_def by (intro valid_intros kept_refetch) auto

lemma kept_finalizer_retry:
  "(\<And>n. P (GetRest n)) \<Longrightarrow> (\<And>d. P (Sleep d)) \<Longrightarrow> keeps I (finalizer_retry E b r e)"
  unfolding finalizer_retry_def Let_def by (intro valid_intros kept_refetch) auto

end

text \<open>A write, then steps that write nothing.\<close>

lemma attempt_external_once:
  "attempt (external k f) w = (x, v) \<Longrightarrow> adds Q (Suc 0) w v"
  by (auto simp: attempt_def external_def adds_def split: prod.splits sum.splits failure.splits)

lemma adds_bindA:
  assumes "bindA m f w = (x, u)" and "\<And>y v. m w = (y, v) \<Longrightarrow> adds Q a w v"
    and "\<And>y v. m w = (Inr y, v) \<Longrightarrow> f y v = (x, u) \<Longrightarrow> adds Q b v u" and "a + b \<le> n"
  shows "adds Q n w u"
proof (cases "m w")
  case (Pair y v)
  with assms(1,2) show ?thesis
  proof (cases y)
    case (Inl e)
    then have "u = v" using assms(1) Pair by (simp add: bindA_def)
    then show ?thesis using adds_mono [OF assms(2) [OF Pair], of n] assms(4) by simp
  next
    case (Inr z)
    then have "f z v = (x, u)" using assms(1) Pair by (simp add: bindA_def)
    then show ?thesis using assms(2,3) Pair Inr assms(4) by (blast intro: adds_trans)
  qed
qed

lemma status_body_adds: "status_body E su old s w = (x, v) \<Longrightarrow> adds is_write 1 w v"
proof -
  assume s: "status_body E su old s w = (x, v)"
  obtain b r where p: "s = (b, r)" by (cases s)
  have tail: "adds is_write 0 w1 v" if "(case u of Inr _ \<Rightarrow> ret None | Inl e \<Rightarrow> status_retry E b r su old e) w1 = (x, v)" for u w1
    using that by (rule adds_grows [rotated]) (intro valid_intros trace.kept_status_retry; simp)
  have eq: "bindA (update_status_call E r) (\<lambda>u. case u of Inr _ \<Rightarrow> ret None | Inl e \<Rightarrow> status_retry E b r su old e) w = (x, v)"
    using s by (simp add: status_body_def p)
  show ?thesis
    by (rule adds_bindA [OF eq, where a = "Suc 0" and b = 0]) (auto simp: update_status_call_def intro: attempt_external_once tail)
qed

lemma finalizer_body_adds: "finalizer_body E s w = (x, v) \<Longrightarrow> adds is_write 1 w v"
proof -
  assume s: "finalizer_body E s w = (x, v)"
  obtain b r where p: "s = (b, r)" by (cases s)
  have tail: "adds is_write 0 w1 v" if "(case u of Inr _ \<Rightarrow> ret None | Inl e \<Rightarrow> finalizer_retry E b r e) w1 = (x, v)" for u w1
    using that by (rule adds_grows [rotated]) (intro valid_intros trace.kept_finalizer_retry; simp)
  have eq: "bindA (update_call E r) (\<lambda>u. case u of Inr _ \<Rightarrow> ret None | Inl e \<Rightarrow> finalizer_retry E b r e) w = (x, v)"
    using s by (simp add: finalizer_body_def p)
  show ?thesis
    by (rule adds_bindA [OF eq, where a = "Suc 0" and b = 0]) (auto simp: update_call_def intro: attempt_external_once tail)
qed

section \<open>Termination of the retry loops\<close>

text \<open>What \<open>wait.Backoff.Step\<close> documents: a backoff with steps left has fewer steps afterwards.\<close>

definition steps_decrease :: "('c, 'l, 'z) rest_env_scheme \<Rightarrow> bool" where
  "steps_decrease E \<longleftrightarrow> (\<forall>b c. 0 < Steps b \<longrightarrow> Steps (snd (fst (BackoffStep E b c))) < Steps b)"

lemma backoff_step_decreases:
  assumes "steps_decrease E" "0 < Steps b" "backoff_step E b w = (Inr (d, b'), w')"
  shows "Steps b' < Steps b"
proof -
  obtain x c where step: "BackoffStep E b (cluster w) = (x, c)" by (cases "BackoffStep E b (cluster w)")
  then have "x = (d, b')" using assms(3) by (simp add: backoff_step_def query_def)
  then show ?thesis using assms(1,2) step unfolding steps_decrease_def by (metis fst_conv snd_conv)
qed

lemma retry_steps:
  assumes "bindA (backoff_step E b) (\<lambda>(d, b'). bindA (record_call (Sleep d)) (\<lambda>_. h b')) w = (Inr (Some s'), w')"
    and h: "\<And>b' v w'. h b' v = (Inr (Some s'), w') \<Longrightarrow> fst s' = b'"
  shows "\<exists>d w2. backoff_step E b w = (Inr (d, fst s'), w2)"
proof -
  obtain d b' w2 where "backoff_step E b w = (Inr (d, b'), w2)" "h b' (w2\<lparr>calls := calls w2 @ [Sleep d]\<rparr>) = (Inr (Some s'), w')"
    using assms(1) by (auto simp: bindA_eq_Inr [of "backoff_step E b"])
  then show ?thesis using h by blast
qed

lemma status_retry_steps:
  "status_retry E b r su old e w = (Inr (Some s'), w') \<Longrightarrow> \<exists>d w2. backoff_step E b w = (Inr (d, fst s'), w2)"
  unfolding status_retry_def by (erule retry_steps) (auto simp: act_eq_Inr Let_def split: if_splits)

lemma finalizer_retry_steps:
  "finalizer_retry E b r e w = (Inr (Some s'), w') \<Longrightarrow> \<exists>d w2. backoff_step E b w = (Inr (d, fst s'), w2)"
  unfolding finalizer_retry_def by (erule retry_steps) (auto simp: act_eq_Inr split: if_splits)

lemma status_body_steps:
  assumes "steps_decrease E" "0 < Steps (fst s)" "status_body E su old s w = (Inr (Some s'), w')"
  shows "Steps (fst s') < Steps (fst s)"
proof -
  obtain b r where s: "s = (b, r)" by (cases s)
  obtain u :: "gerror + rest" and w1 where "(case u of Inr _ \<Rightarrow> ret None | Inl e \<Rightarrow> status_retry E b r su old e) w1 = (Inr (Some s'), w')"
    using assms(3) unfolding status_body_def s prod.case bindA_eq_Inr by blast
  then have "\<exists>e. status_retry E b r su old e w1 = (Inr (Some s'), w')" by (cases u) (auto simp: ret_eq_Inr)
  then obtain d v where "backoff_step E b w1 = (Inr (d, fst s'), v)" using status_retry_steps by blast
  then show ?thesis using backoff_step_decreases [OF assms(1)] assms(2) s by simp
qed

lemma finalizer_body_steps:
  assumes "steps_decrease E" "0 < Steps (fst s)" "finalizer_body E s w = (Inr (Some s'), w')"
  shows "Steps (fst s') < Steps (fst s)"
proof -
  obtain b r where s: "s = (b, r)" by (cases s)
  obtain u :: "gerror + rest" and w1 where "(case u of Inr _ \<Rightarrow> ret None | Inl e \<Rightarrow> finalizer_retry E b r e) w1 = (Inr (Some s'), w')"
    using assms(3) unfolding finalizer_body_def s prod.case bindA_eq_Inr by blast
  then have "\<exists>e. finalizer_retry E b r e w1 = (Inr (Some s'), w')" by (cases u) (auto simp: ret_eq_Inr)
  then obtain d v where "backoff_step E b w1 = (Inr (d, fst s'), v)" using finalizer_retry_steps by blast
  then show ?thesis using backoff_step_decreases [OF assms(1)] assms(2) s by simp
qed

text \<open>\<open>bounded Q n m\<close>: \<open>m\<close> ends, and makes at most \<open>n\<close> calls that satisfy \<open>Q\<close>.\<close>

definition bounded :: "(call \<Rightarrow> bool) \<Rightarrow> nat \<Rightarrow> ('c, 'l, 'a) loop \<Rightarrow> bool" where
  "bounded Q n m \<longleftrightarrow> (\<forall>w. \<exists>r v. m w = Some (r, v) \<and> adds Q n w v)"

named_theorems bounded_intros "how many calls an operation makes"

lemma bounded_total [bounded_intros]: "(\<And>L. keeps (grows L (\<lambda>k. \<not> Q k)) m) \<Longrightarrow> bounded Q n (total m)"
  unfolding bounded_def total_def by (metis adds_grows surj_pair)

lemma bounded_write [bounded_intros]:
  assumes "\<And>x L. keeps (grows L (\<lambda>k. \<not> Q k)) (h x)" "0 < n"
  shows "bounded Q n (total (bindA (external k f) h))"
  unfolding bounded_def total_def
proof
  fix w
  obtain x v where eq: "bindA (external k f) h w = (x, v)" by (cases "bindA (external k f) h w")
  have "adds Q (Suc 0) w v'" if "external k f w = (y, v')" for y v'
    using that by (auto simp: external_def adds_def split: prod.splits)
  then have "adds Q n w v"
    by (rule adds_bindA [OF eq, where b = 0]) (use assms adds_grows [OF assms(1)] in auto)
  then show "\<exists>r v. Some (bindA (external k f) h w) = Some (r, v) \<and> adds Q n w v" using eq by simp
qed

lemma bounded_bindL:
  assumes "bounded Q a m" "\<And>x. bounded Q b (f x)" "a + b \<le> n"
  shows "bounded Q n (bindL m f)"
  unfolding bounded_def
proof
  fix w
  obtain r v where m: "m w = Some (r, v)" "adds Q a w v" using assms(1) unfolding bounded_def by blast
  show "\<exists>r v. bindL m f w = Some (r, v) \<and> adds Q n w v"
  proof (cases r)
    case (Inl e)
    then show ?thesis using m adds_mono [OF m(2), of n] assms(3) by (simp add: bindL_def)
  next
    case (Inr x)
    obtain r' u where "f x v = Some (r', u)" "adds Q b v u" using assms(2) unfolding bounded_def by blast
    then show ?thesis using m Inr adds_trans [OF m(2) _ assms(3)] by (auto simp: bindL_def)
  qed
qed

lemma bounded_if: "bounded Q n a \<Longrightarrow> bounded Q n b \<Longrightarrow> bounded Q n (if c then a else b)"
  by simp

lemma bounded_case_option:
  "bounded Q n a \<Longrightarrow> (\<And>x. bounded Q n (b x)) \<Longrightarrow> bounded Q n (case r of None \<Rightarrow> a | Some x \<Rightarrow> b x)"
  by (cases r) auto

lemma status_loop_ends: "steps_decrease E \<Longrightarrow> bounded is_write (Steps (fst s)) (status_loop E su old s)"
  unfolding bounded_def
  by (intro allI status.ends_with [where P = "\<lambda>_. True" and R = "\<lambda>n r w v. adds is_write n w v"])
     (auto dest: status_body_adds status_body_steps intro: adds_mono adds_trans)

lemma finalizer_loop_ends: "steps_decrease E \<Longrightarrow> bounded is_write (Steps (fst s)) (finalizer_loop E s)"
  unfolding bounded_def
  by (intro allI finalizer.ends_with [where P = "\<lambda>_. True" and R = "\<lambda>n r w v. adds is_write n w v"])
     (auto dest: finalizer_body_adds finalizer_body_steps intro: adds_mono adds_trans)

lemma bounded_mono: "bounded Q a m \<Longrightarrow> a \<le> n \<Longrightarrow> bounded Q n m"
  unfolding bounded_def by (meson adds_mono)

lemma updateStatus_bounded:
  assumes "steps_decrease E"
  shows "bounded is_write 10 (updateStatus E r su old)"
proof -
  have step: "bounded is_write 10 (\<lambda>w. case setRestStatus E (addStatusUpdates r su) w of
      (Inl f, w1) \<Rightarrow> Some (Inl f, w1) | (Inr r2, w1) \<Rightarrow> status_loop E su old (initial_backoff, r2) w1)"
  proof -
    have "bounded is_write 10 (bindL (total (setRestStatus E (addStatusUpdates r su))) (\<lambda>r2. status_loop E su old (initial_backoff, r2)))"
      using status_loop_ends [OF assms, of "(initial_backoff, r2)" su old for r2]
      by (intro bounded_bindL [where a = 0 and b = 10] bounded_total) (auto simp: initial_backoff_def)
    then show ?thesis by (simp add: bindL_def total_def)
  qed
  show ?thesis
    using step by (auto simp: updateStatus_def Let_def bounded_def)
qed

lemma removeFinalizers_bounded: "steps_decrease E \<Longrightarrow> bounded is_write 10 (removeFinalizers E r)"
  using finalizer_loop_ends [of E "(initial_backoff, r\<lparr>Finalizers := removeFinalizer r\<rparr>)"]
  by (simp add: initial_backoff_def bounded_def removeFinalizers_def)

section \<open>The calls of Reconcile\<close>

context logging begin

lemma kept_SchemaHasExpired [valid_intros, simp]: "keeps I (SchemaHasExpired E)"
  unfolding SchemaHasExpired_def by (intro valid_intros kept_now)

lemma kept_reset_mapper: "P ResetRestMapper \<Longrightarrow> keeps I (reset_mapper_if_expired E)"
  unfolding reset_mapper_if_expired_def by (intro valid_intros) auto

lemma kept_fetch_rest:
  "P (GetRest (nn_string n)) \<Longrightarrow> keeps I (incRESTFailed (nn_string n)) \<Longrightarrow> keeps I (fetch_rest E n)"
  unfolding fetch_rest_def by (intro valid_intros) auto

lemma kept_count_failure:
  "keeps I m \<Longrightarrow> keeps I inc \<Longrightarrow> keeps I (count_failure inc m)"
  unfolding count_failure_def by (intro valid_intros) auto

lemma kept_incREST:
  assumes "\<And>g. P (IncGauge g n)"
  shows "keeps I (incRESTSuccess n)" "keeps I (incRESTFailed n)"
  unfolding incRESTSuccess_def incRESTFailed_def by (intro valid_intros assms)+

end

text \<open>
  C17. If every step of the backoff uses up one of its steps, \<open>Reconcile\<close> returns for every
  request and every behaviour of the server, and it has tried at most ten updates of objects.
\<close>
theorem Reconcile_terminates:
  fixes E :: "('c, 'l, 'z) rest_env_scheme"
  assumes "steps_decrease E"
  shows "\<exists>res v ks. Reconcile E req w = Some (res, v) \<and> calls v = calls w @ ks \<and> length (filter is_write ks) \<le> 10"
proof -
  have finish: "bounded is_write 10 (bindL (updateStatus E r su old) (\<lambda>_. total (incRESTSuccess (nn_string req))))" for r su old
    by (rule bounded_bindL [where a = 10 and b = 0])
      (auto intro!: updateStatus_bounded assms bounded_total trace.kept_incREST)
  have add: "bounded is_write 10 (total (bindA (external k f) (\<lambda>_. ret ())))" for k and f :: "('c, rest) ext"
    by (rule bounded_write) simp_all
  have "bounded is_write 10 (Reconcile E req)"
    unfolding Reconcile_def reconcile_rest_def Let_def
    by (intro bounded_bindL [where a = 0 and b = 10] bounded_case_option bounded_if finish add bounded_total
          trace.kept_fetch_rest trace.kept_reset_mapper trace.kept_Delete trace.kept_Update trace.kept_count_failure
          trace.kept_incREST removeFinalizers_bounded trace.kept_NewRESTManager assms) auto
  then show ?thesis unfolding bounded_def adds_def by meson
qed

section \<open>The branches of Reconcile\<close>

lemma reset_mapper_if_expired_calls:
  obtains w' ks where "reset_mapper_if_expired E w = (Inr (), w')" "calls w' = calls w @ ks" "ks = [] \<or> ks = [ResetRestMapper]"
proof -
  obtain t c where n: "Now E (cluster w) = (t, c)" by (cases "Now E (cluster w)")
  then have "reset_mapper_if_expired E w = (Inr (), if schemaExpireTimestamp (cache w) < t
      then w\<lparr>cluster := c, calls := calls w @ [ResetRestMapper]\<rparr> else w\<lparr>cluster := c\<rparr>)"
    by (simp add: reset_mapper_if_expired_def SchemaHasExpired_def now_def query_def reads_def bindA_def ret_def record_call_def)
  then show ?thesis using that by (cases "schemaExpireTimestamp (cache w) < t") auto
qed

text \<open>The object as \<open>Reconcile\<close> works on it: its status map is never nil.\<close>

definition with_status :: "rest \<Rightarrow> rest" where
  "with_status r = r\<lparr>rest_Status := Some (the_map (rest_Status r))\<rparr>"

lemma with_status_simps [simp]:
  "DeletionTimestamp (with_status r) = DeletionTimestamp r" "Finalizers (with_status r) = Finalizers r"
  "rest_Spec (with_status r) = rest_Spec r" "Generation (with_status r) = Generation r"
  "rest_Status (with_status r) = Some (the_map (rest_Status r))"
  by (simp_all add: with_status_def)

lemma sameGeneration_with_status: "sameGeneration r \<Longrightarrow> sameGeneration (with_status r)"
  by (cases "rest_Status r") (auto simp: sameGeneration_def status_field_def the_map_def split: sum.splits)

lemma Reconcile_found:
  assumes "srv_GetRest E req (cluster w) = (Inr r, c)"
  obtains w1 ks where "calls w1 = calls w @ GetRest (nn_string req) # ks" "ks = [] \<or> ks = [ResetRestMapper]"
    "Reconcile E req w = reconcile_rest E (nn_string req) (cloneMap (the_map (rest_Status r))) (with_status r) w1"
proof -
  let ?w = "w\<lparr>cluster := c, calls := calls w @ [GetRest (nn_string req)]\<rparr>"
  have f: "fetch_rest E req w = (Inr (Some (with_status r)), ?w)"
    using assms by (simp add: fetch_rest_def external_def attempt_def bindA_def ret_def with_status_def)
  obtain v ks where reset: "reset_mapper_if_expired E ?w = (Inr (), v)" "calls v = calls ?w @ ks" "ks = [] \<or> ks = [ResetRestMapper]"
    by (rule reset_mapper_if_expired_calls)
  obtain x c1 where "GetClientset E (cluster v) = (x, c1)" by (cases "GetClientset E (cluster v)")
  then have "count_failure (incRESTFailed (nn_string req)) (NewRESTManager E) v = (Inr (), v\<lparr>cluster := c1\<rparr>)"
    by (cases x) (simp_all add: count_failure_def NewRESTManager_def attempt_def query_def bindA_def ret_def)
  then show ?thesis
    using that [of "v\<lparr>cluster := c1\<rparr>" ks] f reset by (simp add: Reconcile_def bindL_def total_def the_map_def)
qed

lemma map_eq_cloneMap: "map_wf m \<Longrightarrow> map_eq m (cloneMap m)"
  by (simp add: map_eq_iff cloneMap_def map_of_put_all)

text \<open>
  Reconciling an object whose generation was already sent is idle: no HTTP request is made and
  neither the object nor its status is written; the only calls are the fetch, the reset of the REST
  mapper when the schema has expired, and the count of the success.
\<close>
theorem Reconcile_idle:
  assumes "srv_GetRest E req (cluster w) = (Inr r, c)" "DeletionTimestamp r = None"
    "RESTDeleteFinalizer \<in> set (Finalizers r)" "sameGeneration r" "map_wf (the_map (rest_Status r))"
  shows "\<exists>v ks. Reconcile E req w = Some (Inr (), v) \<and> (ks = [] \<or> ks = [ResetRestMapper]) \<and>
    calls v = calls w @ GetRest (nn_string req) # ks @ [IncGauge RestCount (nn_string req), IncGauge RestSuccess (nn_string req)]"
  using assms(1)
proof (rule Reconcile_found)
  fix w1 ks
  let ?old = "cloneMap (the_map (rest_Status r))"
  assume w1: "calls w1 = calls w @ GetRest (nn_string req) # ks" "ks = [] \<or> ks = [ResetRestMapper]"
    "Reconcile E req w = reconcile_rest E (nn_string req) ?old (with_status r) w1"
  have u: "count_failure (incRESTFailed (nn_string req)) (Update E (with_status r)) w1 = (Inr None, w1)"
    using sameGeneration_with_status [OF assms(4)] by (simp add: Update_def count_failure_def attempt_def ret_def bindA_def)
  have s: "updateStatus E (with_status r) None ?old w1 = Some (Inr (), w1)"
    using map_eq_cloneMap [OF assms(5)] by (simp add: updateStatus_def addStatusUpdates_def the_map_def)
  show ?thesis
    using w1 assms(2,3) u s
    by (auto simp: reconcile_rest_def bindL_def total_def incRESTSuccess_def record_call_def bindA_def)
qed

text \<open>
  An object that is not being deleted and does not carry the finalizer yet only gets it: the
  finalizer is appended in one update, and nothing is sent to the object's URL before that.
\<close>
theorem Reconcile_adds_finalizer:
  assumes "srv_GetRest E req (cluster w) = (Inr r, c)" "DeletionTimestamp r = None"
    "RESTDeleteFinalizer \<notin> set (Finalizers r)"
  shows "\<exists>res v ks. Reconcile E req w = Some (res, v) \<and> (ks = [] \<or> ks = [ResetRestMapper]) \<and>
    calls v = calls w @ GetRest (nn_string req) # ks @
      [UpdateObject ((with_status r)\<lparr>Finalizers := Finalizers r @ [RESTDeleteFinalizer]\<rparr>)]"
  using assms(1)
proof (rule Reconcile_found)
  fix w1 ks
  let ?r = "(with_status r)\<lparr>Finalizers := Finalizers r @ [RESTDeleteFinalizer]\<rparr>"
  assume w1: "calls w1 = calls w @ GetRest (nn_string req) # ks" "ks = [] \<or> ks = [ResetRestMapper]"
    "Reconcile E req w = reconcile_rest E (nn_string req) (cloneMap (the_map (rest_Status r))) (with_status r) w1"
  obtain x c' where "srv_UpdateRest E ?r (cluster w1) = (x, c')" by (cases "srv_UpdateRest E ?r (cluster w1)")
  then show ?thesis
    using w1 assms(2,3)
    by (cases x) (auto simp: reconcile_rest_def Let_def total_def bindA_def external_def ret_def)
qed

section \<open>Deletion\<close>

text \<open>The calls of \<open>removeFinalizers\<close>: the object is only written without the finalizer.\<close>

fun removes_finalizer :: "call \<Rightarrow> bool" where
  "removes_finalizer (UpdateObject r) \<longleftrightarrow> RESTDeleteFinalizer \<notin> set (Finalizers r)"
| "removes_finalizer (GetRest n) \<longleftrightarrow> True"
| "removes_finalizer (Sleep d) \<longleftrightarrow> True"
| "removes_finalizer k \<longleftrightarrow> False"

lemma removeFinalizer_removes [simp]: "RESTDeleteFinalizer \<notin> set (removeFinalizer r)"
  by (simp add: removeFinalizer_def)

lemma finalizer_body_keeps:
  assumes "RESTDeleteFinalizer \<notin> set (Finalizers (snd s))"
  shows "keeps (grows L removes_finalizer) (finalizer_body E s)"
proof -
  obtain b r where s: "s = (b, r)" by (cases s)
  show ?thesis
    unfolding finalizer_body_def s update_call_def prod.case
    by (intro valid_intros trace.kept_finalizer_retry) (use assms s in auto)
qed

lemma finalizer_retry_removes:
  assumes "RESTDeleteFinalizer \<notin> set (Finalizers r)" "finalizer_retry E b r e w = (Inr (Some s'), w')"
  shows "RESTDeleteFinalizer \<notin> set (Finalizers (snd s'))"
  using assms unfolding finalizer_retry_def
  by (auto simp: act_eq_Inr bindA_eq_Inr [of "backoff_step E b"] split: if_splits)

lemma finalizer_body_removes:
  assumes "RESTDeleteFinalizer \<notin> set (Finalizers (snd s))" "finalizer_body E s w = (Inr (Some s'), w')"
  shows "RESTDeleteFinalizer \<notin> set (Finalizers (snd s'))"
proof -
  obtain b r where s: "s = (b, r)" by (cases s)
  obtain u :: "gerror + rest" and w1 where "(case u of Inr _ \<Rightarrow> ret None | Inl e \<Rightarrow> finalizer_retry E b r e) w1 = (Inr (Some s'), w')"
    using assms(2) unfolding finalizer_body_def s prod.case bindA_eq_Inr by blast
  then obtain e where "finalizer_retry E b r e w1 = (Inr (Some s'), w')" by (cases u) (auto simp: ret_eq_Inr)
  then show ?thesis using finalizer_retry_removes assms(1) unfolding s snd_conv by blast
qed

lemma removeFinalizers_calls:
  assumes "steps_decrease E"
  shows "\<exists>res v. removeFinalizers E r w = Some (res, v) \<and> grows (calls w) removes_finalizer v"
proof -
  let ?s = "(initial_backoff, r\<lparr>Finalizers := removeFinalizer r\<rparr>)"
  have "\<exists>res v. finalizer_loop E ?s w = Some (res, v) \<and> grows (calls w) removes_finalizer v"
  proof (rule finalizer.ends_keeping [where P = "\<lambda>s. RESTDeleteFinalizer \<notin> set (Finalizers (snd s))"])
    show "0 < Steps (fst s) \<Longrightarrow> RESTDeleteFinalizer \<notin> set (Finalizers (snd s)) \<Longrightarrow> finalizer_body E s w = (Inr (Some s'), w') \<Longrightarrow>
        Steps (fst s') < Steps (fst s) \<and> RESTDeleteFinalizer \<notin> set (Finalizers (snd s'))" for s w s' w'
      using finalizer_body_steps [OF assms] finalizer_body_removes by blast
  qed (simp_all add: keepsD [OF finalizer_body_keeps])
  then show ?thesis by (simp add: removeFinalizers_def)
qed

fun is_request :: "call \<Rightarrow> bool" where
  "is_request (HttpDo q) \<longleftrightarrow> True"
| "is_request k \<longleftrightarrow> False"

lemma removes_no_request: "list_all removes_finalizer ks \<Longrightarrow> list_all (\<lambda>k. \<not> is_request k) ks"
  by (auto simp: list_all_iff elim!: is_request.elims)

lemma Delete_sent:
  assumes "Delete E r w = (Inr (), w')"
  obtains "no_url E r (RemoveAction (rest_Spec r))" "calls w' = calls w"
  | q a c1 c2 where "action_request E r (RemoveAction (rest_Spec r)) q" "calls w' = calls w @ [HttpDo q]"
      "srv_HttpDo E q c1 = (Inr a, c2)" "200 \<le> StatusCode a" "StatusCode a \<le> 299"
  using assms that by (auto simp: Delete_def Let_def act_eq_Inr elim!: doRequest_action)


section \<open>A status that cannot be written\<close>

lemma setRestStatus_ok:
  assumes "rest_Status r = Some m"
  obtains r' v where "setRestStatus E r w = (Inr r', v)" "rest_Status r' \<noteq> None" "calls v = calls w"
proof -
  obtain t c where "MetaNow E (cluster w) = (t, c)" by (cases "MetaNow E (cluster w)")
  then show ?thesis
    using that assms by (simp add: setRestStatus_def meta_now_def query_def bindA_def ret_def)
qed

text \<open>
  C36. When the server refuses every update of the status with an error that is no conflict,
  \<open>updateStatus\<close> tries, gives up and still returns no error, so that \<open>Reconcile\<close> counts a success:
  the \<open>err\<close> that it returns is not the one that the loop assigns.
\<close>
theorem updateStatus_hides_failure:
  assumes "steps_decrease E"
    and refused: "\<And>r c. \<exists>e c'. srv_UpdateRestStatus E r c = (Inl e, c') \<and> \<not> str_contains (err_text e) objectModifiedError"
    and changed: "\<not> map_eq (the_map (rest_Status (addStatusUpdates r su))) old"
  shows "\<exists>v r'. updateStatus E r su old w = Some (Inr (), v) \<and> UpdateStatus r' \<in> set (calls v)"
proof -
  have body: "\<exists>v b' d. status_body E su old (b, x) u = (Inr (Some (b', x)), v) \<and>
      calls v = calls u @ [UpdateStatus x, Sleep d]" for b x and u :: "('a, 'b) world"
  proof -
    obtain e c1 where e: "srv_UpdateRestStatus E x (cluster u) = (Inl e, c1)" "\<not> str_contains (err_text e) objectModifiedError"
      using refused by blast
    obtain d b' c2 where "BackoffStep E b c1 = ((d, b'), c2)" by (metis surj_pair)
    then show ?thesis
      using e by (simp add: status_body_def update_status_call_def status_retry_def backoff_step_def bindA_def external_def
          attempt_def query_def record_call_def ret_def)
  qed
  have goes_on: "(\<exists>s'. y = Inr (Some s')) \<and> set (calls u) \<subseteq> set (calls u')" if "status_body E su old s u = (y, u')" for s y u u'
    using that body [where b = "fst s" and x = "snd s" and u = u] by auto
  obtain m where "rest_Status (addStatusUpdates r su) = Some m" by (simp add: addStatusUpdates_def)
  then obtain r' v where set: "setRestStatus E (addStatusUpdates r su) w = (Inr r', v)"
    by (rule setRestStatus_ok)
  obtain v1 b1 d where first: "status_body E su old (initial_backoff, r') v = (Inr (Some (b1, r')), v1)"
    "calls v1 = calls v @ [UpdateStatus r', Sleep d]"
    using body by blast
  have "\<exists>res u. status_loop E su old (b1, r') v1 = Some (res, u) \<and> (res = Inr () \<and> set (calls v1) \<subseteq> set (calls u))"
    by (rule status.ends_with [where P = "\<lambda>s. True"
        and R = "\<lambda>n res w v. res = Inr () \<and> set (calls w) \<subseteq> set (calls v)"])
      (use status_body_steps [OF assms(1)] in \<open>auto dest!: goes_on\<close>)
  moreover have "status_loop E su old (initial_backoff, r') v = status_loop E su old (b1, r') v1"
    using first by (intro status.retried) (simp_all add: initial_backoff_def)
  ultimately show ?thesis using changed set first by (auto simp: updateStatus_def)
qed

section \<open>Examples\<close>

definition demo_request :: namespaced_name where
  "demo_request = \<lparr>nn_Namespace = '''', nn_Name = ''hook''\<rparr>"

lemma demo_steps_decrease: "steps_decrease (demo_rest_env ok r)"
  by (simp add: steps_decrease_def demo_rest_simps)

lemma demo_get: "srv_GetRest (demo_rest_env ok r) n c = (Inr r, c)"
  by (simp add: demo_rest_simps)

lemma demo_templateStatus: "templateStatus (demo_rest_env ok r) x resp field w = (Inr field, w)"
  by (simp add: templateStatus_def parse_field_def execute_field_def demo_rest_simps config_map_def
      put_data_def query_def wrapA_def bindA_def liftR_def ret_def)

lemma demo_Update: "\<exists>su v. Update (demo_rest_env ok r) demo_rest w = (Inr (Some su), v)"
proof -
  let ?act = "UpdateAction (rest_Spec demo_rest)"
  obtain q where q: "doRequest (demo_rest_env ok r) demo_rest '''' (Method ?act) (Body ?act) w
      = (Inr ''ok'', w\<lparr>calls := calls w @ [HttpDo q]\<rparr>)" using demo_doRequest by blast
  have "\<not> sameGeneration demo_rest" by (simp add: sameGeneration_def demo_rest_def)
  moreover have "act_URL ?act = ''''" "act_Status ?act = [(''id'', ''1'')]" by (simp_all add: demo_rest_def)
  ultimately show ?thesis
    using q demo_templateStatus by (simp add: Update_def Let_def bindA_def wrapA_def ret_def)
qed

theorem Update_observed_witness:
  "\<exists>su. fst (Update (demo_rest_env True demo_rest) demo_rest demo_world) = Inr (Some su) \<and>
    sameGeneration (addStatusUpdates demo_rest (Some su)) \<and>
    \<not> sameGeneration ((addStatusUpdates demo_rest (Some su))\<lparr>Generation := 4\<rparr>)"
proof -
  obtain su v where run: "Update (demo_rest_env True demo_rest) demo_rest demo_world = (Inr (Some su), v)"
    using demo_Update by blast
  have "Generation demo_rest = 3" by (simp add: demo_rest_def)
  then show ?thesis using Update_observed [OF run, where g = 4] run by simp
qed

theorem Reconcile_terminates_witness:
  "\<exists>res v. Reconcile (demo_rest_env False demo_rest) demo_request demo_world = Some (res, v)"
  using Reconcile_terminates [OF demo_steps_decrease, of False demo_rest demo_request demo_world] by blast

theorem Reconcile_idle_witness:
  "\<exists>v ks. Reconcile (demo_rest_env True (demo_rest\<lparr>rest_Status := Some [(''observedGeneration'', ''3'')]\<rparr>)) demo_request demo_world
      = Some (Inr (), v) \<and> (ks = [] \<or> ks = [ResetRestMapper]) \<and>
    calls v = calls demo_world @ GetRest (nn_string demo_request) # ks @
      [IncGauge RestCount (nn_string demo_request), IncGauge RestSuccess (nn_string demo_request)]"
proof (rule Reconcile_idle)
  let ?r = "demo_rest\<lparr>rest_Status := Some [(''observedGeneration'', ''3'')]\<rparr>"
  show "srv_GetRest (demo_rest_env True ?r) demo_request (cluster demo_world) = (Inr ?r, cluster demo_world)"
    by (rule demo_get)
  have "FormatInt 3 = ''3''" by code_simp
  then have "status_field ?r ''observedGeneration'' = FormatInt 3" by (simp add: status_field_def)
  from sameGeneration_iff [OF this] show "sameGeneration ?r" by (simp add: demo_rest_def)
qed (simp_all add: demo_rest_def RESTDeleteFinalizer_def the_map_def map_wf_def)

theorem Reconcile_adds_finalizer_witness:
  "\<exists>res v ks. Reconcile (demo_rest_env True (demo_rest\<lparr>Finalizers := [''other'']\<rparr>)) demo_request demo_world = Some (res, v) \<and>
    (ks = [] \<or> ks = [ResetRestMapper]) \<and>
    calls v = calls demo_world @ GetRest (nn_string demo_request) # ks @
      [UpdateObject ((with_status (demo_rest\<lparr>Finalizers := [''other'']\<rparr>))
         \<lparr>Finalizers := Finalizers (demo_rest\<lparr>Finalizers := [''other'']\<rparr>) @ [RESTDeleteFinalizer]\<rparr>)]"
  by (rule Reconcile_adds_finalizer [OF demo_get]) (simp_all add: demo_rest_def RESTDeleteFinalizer_def)


theorem updateStatus_hides_failure_witness:
  "\<exists>v r'. updateStatus (demo_rest_env False demo_rest) demo_rest (Some [(''id'', ''1'')]) [] demo_world = Some (Inr (), v) \<and>
    UpdateStatus r' \<in> set (calls v)"
proof (rule updateStatus_hides_failure [OF demo_steps_decrease])
  show "\<exists>e c'. srv_UpdateRestStatus (demo_rest_env False demo_rest) x c = (Inl e, c') \<and>
      \<not> str_contains (err_text e) objectModifiedError" for x and c :: nat
    by (simp add: demo_rest_simps objectModifiedError_def has_prefix_def)
  show "\<not> map_eq (the_map (rest_Status (addStatusUpdates demo_rest (Some [(''id'', ''1'')])))) []"
    by (simp add: demo_rest_def addStatusUpdates_def the_map_def map_eq_def)
qed

end
