(* ===== verification/Controllers.thy ===== *)
theory Controllers
  imports Sources RestController "HOL-Library.Sublist"
begin

text \<open>
  \<open>controllers/client.go\<close>, \<open>controllers/crd_controller.go\<close> and \<open>controllers/template_controller.go\<close>:
  the reconciler of CRDs, which expires the schema cache, and the reconciler of templates with the
  callback that its watches run for single objects. The field \<open>ResourceVersion\<close> of the CRD
  reconciler is the component \<open>crdResourceVersion\<close> of the world.
\<close>

section \<open>Client\<close>

definition CRDV1Version :: string where
  "CRDV1Version = ''v1''"

definition CRDV1Group :: string where
  "CRDV1Group = ''apiextensions.k8s.io''"

text \<open>The answer of the server: for each group the \<open>GroupVersion\<close> of its versions.\<close>

definition HasKind :: "('c, 'l, 'z) rest_env_scheme \<Rightarrow> string \<Rightarrow> string \<Rightarrow> ('c, 'l, bool) wact" where
  "HasKind E groupName version =
     (case ServerGroups E of
        Some f \<Rightarrow>
          bindA (external GetServerGroups f) (\<lambda>groups.
          ret (list_ex (list_ex (\<lambda>groupVersion. groupVersion = groupName @ ''/'' @ version)) groups))
      | None \<Rightarrow> raise (Error ''discovery API is not available''))"

section \<open>CRDs\<close>

definition resetCache :: "('c, 'l, 'z) rest_env_scheme \<Rightarrow> ('c, 'l, unit) wact" where
  "resetCache E = ExpireSchema E"

definition set_resource_version :: "i64 \<Rightarrow> ('c, 'l, unit) wact" where
  "set_resource_version v = (\<lambda>w. (Inr (), w\<lparr>crdResourceVersion := v\<rparr>))"

text \<open>What both versions do with the \<open>ResourceVersion\<close> of the object; \<open>int\<close> has 64 bits.\<close>

definition check_resource_version :: "('c, 'l, 'z) rest_env_scheme \<Rightarrow> string \<Rightarrow> ('c, 'l, unit) wact" where
  "check_resource_version E crdVersion =
     bindA (liftR (of_error (Atoi crdVersion))) (\<lambda>resourceVersion.
     bindA (reads crdResourceVersion) (\<lambda>seen.
     if sint seen < sint resourceVersion then
       bindA (resetCache E) (\<lambda>_. set_resource_version resourceVersion)
     else ret ()))"

definition reconcileV1 :: "('c, 'l, 'z) rest_env_scheme \<Rightarrow> namespaced_name \<Rightarrow> ('c, 'l, unit) wact" where
  "reconcileV1 E req =
     bindA (external (GetCrd (nn_string req)) (srv_GetCrdVersion E req)) (check_resource_version E)"

definition reconcileV1beta1 :: "('c, 'l, 'z) rest_env_scheme \<Rightarrow> namespaced_name \<Rightarrow> ('c, 'l, unit) wact" where
  "reconcileV1beta1 E req =
     bindA (external (GetCrd (nn_string req)) (srv_GetCrdVersionBeta E req)) (check_resource_version E)"

definition CRD_Reconcile :: "('c, 'l, 'z) rest_env_scheme \<Rightarrow> namespaced_name \<Rightarrow> ('c, 'l, unit) wact" where
  "CRD_Reconcile E req =
     bindA (HasKind E CRDV1Group CRDV1Version) (\<lambda>v1.
     if v1 then reconcileV1 E req else reconcileV1beta1 E req)"

section \<open>Templates\<close>

definition incSuccess :: "string \<Rightarrow> ('c, 'l, unit) wact" where
  "incSuccess name = bindA (record_call (IncGauge TemplateCount name)) (\<lambda>_. record_call (IncGauge TemplateSuccess name))"

definition incFailed :: "string \<Rightarrow> ('c, 'l, unit) wact" where
  "incFailed name = bindA (record_call (IncGauge TemplateCount name)) (\<lambda>_. record_call (IncGauge TemplateFailed name))"

definition Template_Reconcile ::
  "('c, 'l, 'z) rest_env_scheme \<Rightarrow> watcher \<Rightarrow> namespaced_name \<Rightarrow> ('c, 'l, ctrl_result) wact" where
  "Template_Reconcile E wt req =
     (let name = nn_string req in
      bindA (attempt (external (GetTemplate name) (srv_GetTemplate E req))) (\<lambda>g.
      (case g of
         Inl e \<Rightarrow>
           if IsNotFound E e then ret no_result
           else bindA (incFailed name) (\<lambda>_. raise e)
       | Inr t \<Rightarrow>
           bindA (reset_mapper_if_expired E) (\<lambda>_.
           bindA (count_failure (incFailed name) (NewTemplateManager E wt)) (\<lambda>tm.
           bindA (count_failure (incFailed name) (Run E tm t)) (\<lambda>result.
           bindA (incSuccess name) (\<lambda>_. ret result)))))))"

text \<open>
  The callback for one object of a watched kind: it does nothing for an object outside the
  namespaces that the template selects.
\<close>

definition selected :: "('c, 'l, 'z) rest_env_scheme \<Rightarrow> string list \<Rightarrow> unstructured \<Rightarrow> bool" where
  "selected E namespaces obj \<longleftrightarrow>
     (if length namespaces \<noteq> 1 \<or> namespaces ! 0 \<noteq> ''''
      then list_ex (\<lambda>n. n = GetNamespace (Meta E) obj) namespaces
      else True)"

definition handle_object ::
  "('c, 'l, 'z) rest_env_scheme \<Rightarrow> watcher \<Rightarrow> string \<Rightarrow> unstructured \<Rightarrow> template \<Rightarrow> ('c, 'l, unit) wact" where
  "handle_object E wt name obj t =
     bindA (reset_mapper_if_expired E) (\<lambda>_.
     bindA (count_failure (incFailed name) (NewTemplateManager E wt)) (\<lambda>tm.
     bindA (count_failure (incFailed name) (GetSourceNamespaces E t)) (\<lambda>namespaces.
     if \<not> selected E namespaces obj then ret ()
     else
       bindA (count_failure (incFailed name) (HandleSource E tm t obj)) (\<lambda>_.
       incSuccess name))))"

definition reconcileObject ::
  "('c, 'l, 'z) rest_env_scheme \<Rightarrow> watcher \<Rightarrow> namespaced_name \<Rightarrow> unstructured \<Rightarrow> ('c, 'l, unit) wact" where
  "reconcileObject E wt req obj =
     (let name = nn_string req in
      bindA (attempt (external (GetTemplate name) (srv_GetTemplate E req))) (\<lambda>g.
      (case g of
         Inl e \<Rightarrow>
           if IsNotFound E e then raise e
           else bindA (incFailed name) (\<lambda>_. raise e)
       | Inr t \<Rightarrow> handle_object E wt name obj t)))"

section \<open>The version of the CRDs\<close>

lemma resetCache_ok:
  "fst (ExpireSchema E w) = Inr () \<and> crdResourceVersion (snd (ExpireSchema E w)) = crdResourceVersion w
     \<and> calls (snd (ExpireSchema E w)) = calls w"
  by (simp add: ExpireSchema_def bindA_def reads_def ret_def now_eq update_cache_def)

lemma check_resource_version_result:
  assumes "check_resource_version E ver w = (Inr x, w')"
  obtains v where "Atoi ver = Inr v"
    "w' = (if sint (crdResourceVersion w) < sint v then (snd (ExpireSchema E w))\<lparr>crdResourceVersion := v\<rparr> else w)"
proof -
  obtain v where v: "Atoi ver = Inr v"
    using assms by (auto simp: check_resource_version_def act_eq_Inr)
  moreover obtain w2 where "ExpireSchema E w = (Inr (), w2)"
    using resetCache_ok [of E w] by (cases "ExpireSchema E w") simp
  ultimately have "w' = (if sint (crdResourceVersion w) < sint v then (snd (ExpireSchema E w))\<lparr>crdResourceVersion := v\<rparr> else w)"
    using assms by (auto simp: check_resource_version_def resetCache_def set_resource_version_def bindA_def [of "ExpireSchema E"]
        ret_def split: if_splits)
  then show ?thesis using that v by blast
qed

lemma HasKind_result:
  assumes "HasKind E g v w = (Inr b, w1)"
  obtains f groups c where "ServerGroups E = Some f" "f (cluster w) = (Inr groups, c)"
    "b \<longleftrightarrow> (\<exists>vs \<in> set groups. g @ ''/'' @ v \<in> set vs)"
    "w1 = w\<lparr>cluster := c, calls := calls w @ [GetServerGroups]\<rparr>"
  using assms that
  by (auto simp: HasKind_def act_eq_Inr external_eq_Inr list_ex_iff split: option.splits)

lemma CRD_Reconcile_result:
  assumes "CRD_Reconcile E req w = (Inr x, w')"
  obtains f groups c v1 ver c' where
    "ServerGroups E = Some f" "f (cluster w) = (Inr groups, c)"
    "v1 \<longleftrightarrow> (\<exists>vs \<in> set groups. ''apiextensions.k8s.io/v1'' \<in> set vs)"
    "(if v1 then srv_GetCrdVersion E req c else srv_GetCrdVersionBeta E req c) = (Inr ver, c')"
    "check_resource_version E ver (w\<lparr>cluster := c', calls := calls w @ [GetServerGroups, GetCrd (nn_string req)]\<rparr>) = (Inr x, w')"
proof -
  obtain v1 w1 where h: "HasKind E CRDV1Group CRDV1Version w = (Inr v1, w1)"
    and r: "(if v1 then reconcileV1 E req else reconcileV1beta1 E req) w1 = (Inr x, w')"
    using assms by (auto simp: CRD_Reconcile_def bindA_eq_Inr)
  from h show ?thesis
  proof (rule HasKind_result)
    fix f groups c
    assume f: "ServerGroups E = Some f" "f (cluster w) = (Inr groups, c)"
      "v1 \<longleftrightarrow> (\<exists>vs \<in> set groups. CRDV1Group @ ''/'' @ CRDV1Version \<in> set vs)"
      "w1 = w\<lparr>cluster := c, calls := calls w @ [GetServerGroups]\<rparr>"
    then obtain ver c' where "(if v1 then srv_GetCrdVersion E req c else srv_GetCrdVersionBeta E req c) = (Inr ver, c')"
      "check_resource_version E ver (w\<lparr>cluster := c', calls := calls w @ [GetServerGroups, GetCrd (nn_string req)]\<rparr>) = (Inr x, w')"
      using r by (cases v1) (auto simp: reconcileV1_def reconcileV1beta1_def bindA_eq_Inr external_eq_Inr)
    then show ?thesis using that f by (simp add: CRDV1Group_def CRDV1Version_def)
  qed
qed

text \<open>
  C32. A successful reconciliation of a CRD reads its resource version, through the API v1 exactly
  when the server lists it; when that is newer than the newest version seen, it is remembered and
  the cached schema and CRDs are expired by any later reading of the clock; otherwise the cache is
  left alone.
\<close>
theorem CRD_Reconcile_expires:
  assumes "CRD_Reconcile E req w = (Inr x, w')" "monotone_clock E time"
  shows "\<exists>f groups c v1 ver c' v.
    ServerGroups E = Some f \<and> f (cluster w) = (Inr groups, c) \<and>
    (v1 \<longleftrightarrow> (\<exists>vs \<in> set groups. ''apiextensions.k8s.io/v1'' \<in> set vs)) \<and>
    (if v1 then srv_GetCrdVersion E req c else srv_GetCrdVersionBeta E req c) = (Inr ver, c') \<and> Atoi ver = Inr v \<and>
    calls w' = calls w @ [GetServerGroups, GetCrd (nn_string req)] \<and>
    (if sint (crdResourceVersion w) < sint v
     then crdResourceVersion w' = v \<and> schemaExpireTimestamp (cache w') \<le> time (cluster w')
       \<and> crdsExpireTimestamp (cache w') \<le> time (cluster w')
     else crdResourceVersion w' = crdResourceVersion w \<and> cache w' = cache w)"
  using assms(1)
proof (rule CRD_Reconcile_result)
  fix f groups c v1 ver c'
  let ?w = "w\<lparr>cluster := c', calls := calls w @ [GetServerGroups, GetCrd (nn_string req)]\<rparr>"
  assume found: "ServerGroups E = Some f" "f (cluster w) = (Inr groups, c)"
    "v1 \<longleftrightarrow> (\<exists>vs \<in> set groups. ''apiextensions.k8s.io/v1'' \<in> set vs)"
    "(if v1 then srv_GetCrdVersion E req c else srv_GetCrdVersionBeta E req c) = (Inr ver, c')"
    and check: "check_resource_version E ver ?w = (Inr x, w')"
  from check show ?thesis
  proof (rule check_resource_version_result)
    fix v
    assume v: "Atoi ver = Inr v"
      "w' = (if sint (crdResourceVersion ?w) < sint v then (snd (ExpireSchema E ?w))\<lparr>crdResourceVersion := v\<rparr> else ?w)"
    moreover have "calls (snd (ExpireSchema E ?w)) = calls ?w" using resetCache_ok by blast
    ultimately show ?thesis
      using found ExpireSchema_stamps [OF assms(2), of ?w] by (intro exI conjI) (assumption | simp)+
  qed
qed

section \<open>The calls of the template reconciler\<close>

lemma selected_iff: "selected E namespaces obj \<longleftrightarrow> namespaces = [''''] \<or> GetNamespace (Meta E) obj \<in> set namespaces"
proof -
  have "length namespaces \<noteq> 1 \<or> namespaces ! 0 \<noteq> '''' \<longleftrightarrow> namespaces \<noteq> ['''']"
    by (cases namespaces) auto
  then show ?thesis by (auto simp: selected_def list_ex_iff)
qed

context logging begin

lemma kept_inc:
  assumes "\<And>g. P (IncGauge g n)"
  shows "keeps I (incSuccess n)" "keeps I (incFailed n)"
  unfolding incSuccess_def incFailed_def by (intro valid_intros assms)+

end

text \<open>The counter of a failure cannot fail itself.\<close>

lemma inc_total:
  "incFailed n w = (Inr (), w\<lparr>calls := calls w @ [IncGauge TemplateCount n, IncGauge TemplateFailed n]\<rparr>)"
  "incSuccess n w = (Inr (), w\<lparr>calls := calls w @ [IncGauge TemplateCount n, IncGauge TemplateSuccess n]\<rparr>)"
  "incRESTFailed n w = (Inr (), w\<lparr>calls := calls w @ [IncGauge RestCount n, IncGauge RestFailed n]\<rparr>)"
  "incRESTSuccess n w = (Inr (), w\<lparr>calls := calls w @ [IncGauge RestCount n, IncGauge RestSuccess n]\<rparr>)"
  by (simp_all add: incFailed_def incSuccess_def incRESTFailed_def incRESTSuccess_def bindA_def record_call_def)

lemma count_failure_eq_Inr: "count_failure (incFailed n) m w = (Inr x, w') \<longleftrightarrow> m w = (Inr x, w')"
  by (cases "m w"; cases "fst (m w)"; cases "projl (fst (m w))")
     (auto simp: count_failure_def bindA_def attempt_def inc_total raise_def ret_def)

lemma count_failure_selected:
  assumes "\<And>nss v v'. m v = (Inr nss, v') \<Longrightarrow> \<not> P nss" "keeps I (count_failure (incFailed n) m)"
  shows "keeps I (bindA (count_failure (incFailed n) m) (\<lambda>nss. if \<not> P nss then ret () else h nss))"
  unfolding keeps_iff
proof (intro allI impI)
  fix v assume "I v"
  obtain r v' where eq: "count_failure (incFailed n) m v = (r, v')" by (cases "count_failure (incFailed n) m v")
  then have "I v'" using keepsD [OF assms(2) \<open>I v\<close>] by simp
  moreover have "\<not> P nss" if "r = Inr nss" for nss
    using assms(1) eq that count_failure_eq_Inr by metis
  ultimately show "I (snd (bindA (count_failure (incFailed n) m) (\<lambda>nss. if \<not> P nss then ret () else h nss) v))"
    using eq by (cases r) (auto simp: bindA_def ret_def)
qed

fun is_apply_call :: "call \<Rightarrow> bool" where
  "is_apply_call (ApplyUnstructured ns u) \<longleftrightarrow> True"
| "is_apply_call (SetCondition u n v) \<longleftrightarrow> True"
| "is_apply_call k \<longleftrightarrow> False"

lemma unselected_object:
  fixes E :: "('c, 'l, 'z) rest_env_scheme"
  assumes "\<And>nss (v :: ('c, 'l) world) v'. GetSourceNamespaces E t v = (Inr nss, v') \<Longrightarrow>
    \<not> (nss = [''''] \<or> GetNamespace (Meta E) obj \<in> set nss)"
  shows "keeps (grows L (\<lambda>k. \<not> is_apply_call k)) (handle_object E wt name obj t)"
  unfolding handle_object_def
  by (intro keeps_bindA trace.kept_reset_mapper trace.kept_count_failure grows.kept_NewTemplateManager count_failure_selected
        grows.kept_GetSourceNamespaces trace.kept_inc) (use assms in \<open>auto simp: selected_iff\<close>)

text \<open>
  C12. The callback of a watch never writes to the cluster (applies no object and sets no condition)
  for an object outside the namespaces that the template selects.
\<close>
theorem reconcileObject_unselected:
  fixes w :: "('c, 'l) world"
  assumes "srv_GetTemplate E req (cluster w) = (Inr t, c)"
    and outside: "\<And>namespaces (w1 :: ('c, 'l) world) w2. GetSourceNamespaces E t w1 = (Inr namespaces, w2) \<Longrightarrow>
      \<not> (namespaces = [''''] \<or> GetNamespace (Meta E) obj \<in> set namespaces)"
  shows "\<exists>ks. calls (snd (reconcileObject E wt req obj w)) = calls w @ ks \<and> list_all (\<lambda>k. \<not> is_apply_call k) ks"
proof -
  let ?w = "w\<lparr>cluster := c, calls := calls w @ [GetTemplate (nn_string req)]\<rparr>"
  have "keeps (grows (calls w) (\<lambda>k. \<not> is_apply_call k)) (handle_object E wt (nn_string req) obj t)"
    using outside by (intro unselected_object) blast
  then have "grows (calls w) (\<lambda>k. \<not> is_apply_call k) (snd (handle_object E wt (nn_string req) obj t ?w))"
    by (rule keepsD) (simp add: grows_def)
  moreover have "reconcileObject E wt req obj w = handle_object E wt (nn_string req) obj t ?w"
    using assms(1) by (simp add: reconcileObject_def Let_def external_def attempt_def bindA_def)
  ultimately show ?thesis by (simp add: grows_def)
qed

section \<open>Counting outcomes\<close>

definition outcome_counted :: "string \<Rightarrow> 'a result \<Rightarrow> call list \<Rightarrow> bool" where
  "outcome_counted name r ks =
     (case r of
        Inr _ \<Rightarrow> suffix [IncGauge TemplateCount name, IncGauge TemplateSuccess name] ks
      | Inl (Fail _) \<Rightarrow> suffix [IncGauge TemplateCount name, IncGauge TemplateFailed name] ks
      | Inl (Panic _) \<Rightarrow> True)"

lemma count_failure_counts:
  "count_failure (incFailed name) m w = (Inl f, w') \<Longrightarrow> outcome_counted name (Inl f) (calls w')"
  by (cases "m w"; cases "fst (m w)"; cases "projl (fst (m w))")
     (auto simp: count_failure_def bindA_def attempt_def inc_total raise_def ret_def outcome_counted_def suffix_def)

text \<open>A panic passes \<open>count_failure\<close>, and the operations of the manager count nothing themselves.\<close>

fun is_gauge :: "call \<Rightarrow> bool" where
  "is_gauge (IncGauge g n) \<longleftrightarrow> True"
| "is_gauge k \<longleftrightarrow> False"

lemma count_failure_panic: "count_failure (incFailed n) m w = (Inl (Panic p), w') \<longleftrightarrow> m w = (Inl (Panic p), w')"
  by (cases "m w"; cases "fst (m w)"; cases "projl (fst (m w))")
     (auto simp: count_failure_def bindA_def attempt_def inc_total raise_def ret_def)

lemma NewTemplateManager_counts_nothing: "keeps (grows L (\<lambda>k. \<not> is_gauge k)) (NewTemplateManager E wt)"
  by (rule grows.kept_NewTemplateManager) simp_all

lemma Run_counts_nothing:
  "uses_manager E tm \<Longrightarrow> keeps (grows L (\<lambda>k. \<not> is_gauge k)) (Run E tm t)"
  by (rule grows.kept_Run) (simp_all add: template_calls_def)

text \<open>
  C37. Every reconciliation of a template that exists counts its outcome with its last calls: a
  success when \<open>Run\<close> succeeded, and a failure when creating the manager or \<open>Run\<close> failed. When either
  panics, nothing is counted.
\<close>
theorem Template_Reconcile_counted:
  assumes "srv_GetTemplate E req (cluster w) = (Inr t, c)"
    and "Template_Reconcile E wt req w = (r, w')"
  shows "outcome_counted (nn_string req) r (calls w') \<and>
    (\<forall>result. r = Inr result \<longrightarrow>
      (\<exists>tm w1 w2 w3. NewTemplateManager E wt w1 = (Inr tm, w2) \<and> Run E tm t w2 = (Inr result, w3))) \<and>
    (\<forall>p. r = Inl (Panic p) \<longrightarrow> (\<exists>ks. calls w' = calls w @ ks \<and> list_all (\<lambda>k. \<not> is_gauge k) ks))"
proof -
  let ?n = "nn_string req" and ?P = "\<lambda>k. \<not> is_gauge k"
  let ?w = "w\<lparr>cluster := c, calls := calls w @ [GetTemplate ?n]\<rparr>"
  obtain w1 ks where reset: "reset_mapper_if_expired E ?w = (Inr (), w1)" "calls w1 = calls ?w @ ks" "ks = [] \<or> ks = [ResetRestMapper]"
    by (rule reset_mapper_if_expired_calls)
  have g1: "grows (calls w) ?P w1" using reset(2,3) by (auto simp: grows_def)
  have run: "Template_Reconcile E wt req w =
      bindA (count_failure (incFailed ?n) (NewTemplateManager E wt)) (\<lambda>tm.
      bindA (count_failure (incFailed ?n) (Run E tm t)) (\<lambda>result. bindA (incSuccess ?n) (\<lambda>_. ret result))) w1"
    using assms(1) reset by (simp add: Template_Reconcile_def Let_def external_def attempt_def bindA_def)
  obtain m w2 where m: "count_failure (incFailed ?n) (NewTemplateManager E wt) w1 = (m, w2)"
    by (cases "count_failure (incFailed ?n) (NewTemplateManager E wt) w1")
  show ?thesis
  proof (cases m)
    case (Inl f)
    then have r: "r = Inl f" "w' = w2" using run m assms(2) by (simp_all add: bindA_def)
    have "grows (calls w) ?P w2" if "f = Panic p" for p
      using keepsD [OF NewTemplateManager_counts_nothing g1, of E wt] m Inl that by (simp add: count_failure_panic)
    then show ?thesis using r count_failure_counts m Inl by (fastforce simp: grows_def)
  next
    case (Inr tm)
    then have tm: "NewTemplateManager E wt w1 = (Inr tm, w2)" using m by (simp add: count_failure_eq_Inr)
    then have g2: "grows (calls w) ?P w2" using keepsD [OF NewTemplateManager_counts_nothing g1, of E wt] by simp
    obtain x w3 where x: "count_failure (incFailed ?n) (Run E tm t) w2 = (x, w3)" by (cases "count_failure (incFailed ?n) (Run E tm t) w2")
    show ?thesis
    proof (cases x)
      case (Inl f)
      then have r: "r = Inl f" "w' = w3" using run m Inr x assms(2) by (simp_all add: bindA_def)
      have "grows (calls w) ?P w3" if "f = Panic p" for p
        using keepsD [OF Run_counts_nothing [OF NewTemplateManager_uses [OF tm]] g2, of t] x Inl that
        by (simp add: count_failure_panic)
      then show ?thesis using r count_failure_counts x Inl by (fastforce simp: grows_def)
    next
      case ok: (Inr result)
      then have "r = Inr result" "calls w' = calls w3 @ [IncGauge TemplateCount ?n, IncGauge TemplateSuccess ?n]"
        using run m Inr x assms(2) by (auto simp: bindA_def inc_total ret_def)
      then show ?thesis using m x Inr ok by (auto simp: count_failure_eq_Inr outcome_counted_def suffix_def)
    qed
  qed
qed

section \<open>Examples\<close>

lemma demo_clock: "monotone_clock (demo_rest_env ok r) (\<lambda>t. t)"
  by (simp add: monotone_clock_def demo_rest_simps)

lemma demo_version: "Atoi ''7'' = Inr 7"
proof -
  have "FormatInt 7 = ''7''" by code_simp
  then show ?thesis using Atoi_FormatInt [of 7] by simp
qed

lemma demo_CRD_Reconcile: "\<exists>w'. CRD_Reconcile (demo_rest_env ok r) req w = (Inr (), w')"
proof -
  have "\<exists>v'. check_resource_version (demo_rest_env ok r) ''7'' v = (Inr (), v')" for v
    using resetCache_ok [of "demo_rest_env ok r" v]
    by (cases "ExpireSchema (demo_rest_env ok r) v")
      (auto simp: check_resource_version_def demo_version resetCache_def set_resource_version_def bindA_def reads_def liftR_def ret_def)
  then show ?thesis
    by (simp add: CRD_Reconcile_def HasKind_def CRDV1Group_def CRDV1Version_def reconcileV1_def demo_rest_simps
        bindA_def external_def ret_def)
qed

theorem CRD_Reconcile_expires_witness:
  "\<exists>w'. CRD_Reconcile (demo_rest_env True demo_rest) demo_request demo_world = (Inr (), w') \<and>
    calls w' = calls demo_world @ [GetServerGroups, GetCrd (nn_string demo_request)]"
proof -
  obtain w' where run: "CRD_Reconcile (demo_rest_env True demo_rest) demo_request demo_world = (Inr (), w')"
    using demo_CRD_Reconcile by blast
  then show ?thesis using CRD_Reconcile_expires [OF run demo_clock] by blast
qed

text \<open>A template for the namespaces with a label; the server lists \<open>blue\<close> and \<open>default\<close>.\<close>

definition labelled_template :: template where
  "labelled_template = demo_template\<lparr>Spec := (Spec demo_template)\<lparr>Source := (Source (Spec demo_template))
     \<lparr>NamespaceSelector := \<lparr>MatchLabels = [(''team'', ''x'')], MatchExpressions = []\<rparr>\<rparr>\<rparr>\<rparr>"

definition labelled_env :: "(nat, schema gmap) rest_env" where
  "labelled_env = (demo_rest_env True demo_rest)\<lparr>srv_GetTemplate := \<lambda>n c. (Inr labelled_template, c)\<rparr>"

lemma labelled_get: "srv_GetTemplate labelled_env n c = (Inr labelled_template, c)"
  by (simp add: labelled_env_def)

theorem reconcileObject_unselected_witness:
  "\<exists>ks. calls (snd (reconcileObject labelled_env NullWatcher demo_request (config_map ''red'' ''x'') demo_world))
      = calls demo_world @ ks \<and> list_all (\<lambda>k. \<not> is_apply_call k) ks"
proof (rule reconcileObject_unselected [OF labelled_get])
  fix namespaces and w1 w2 :: "(nat, schema gmap) world"
  assume "GetSourceNamespaces labelled_env labelled_template w1 = (Inr namespaces, w2)"
  then have "namespaces = [''blue'', ''default'']"
    by (auto simp: GetSourceNamespaces_def labelled_template_def listNamespaces_def labelSelectorToString_def labelled_env_def
        demo_rest_simps act_eq_Inr external_eq_Inr)
  moreover have "GetNamespace (Meta labelled_env) (config_map ''red'' ''x'') = ''red''"
    by (simp add: labelled_env_def demo_rest_simps json_meta_def metadata_def string_field_def config_map_def obj_get_def entries_def)
  ultimately show "\<not> (namespaces = [''''] \<or> GetNamespace (Meta labelled_env) (config_map ''red'' ''x'') \<in> set namespaces)"
    by simp
qed

theorem Template_Reconcile_counted_witness:
  "outcome_counted (nn_string demo_request) (fst (Template_Reconcile labelled_env NullWatcher demo_request demo_world))
    (calls (snd (Template_Reconcile labelled_env NullWatcher demo_request demo_world)))"
proof -
  obtain r w' where "Template_Reconcile labelled_env NullWatcher demo_request demo_world = (r, w')"
    by (cases "Template_Reconcile labelled_env NullWatcher demo_request demo_world")
  then show ?thesis using Template_Reconcile_counted [OF labelled_get] by simp
qed

end
