(* ===== verification/Operator.thy ===== *)
theory Operator
  imports Controllers
begin

text \<open>
  The operator as a whole: its three reconcilers and the callbacks of its watches work on one world
  and share the schema cache, the map of the watcher and the version of the CRDs. A step is one
  reconciliation or a change of the cluster by others; what every step keeps is proved once, for
  any predicate that survives the calls and the methods of the cache.
\<close>

section \<open>What every reconciliation keeps\<close>

text \<open>
  The calls of the reconcilers of REST objects and of CRDs, and those that any reconciliation makes,
  without the counters.
\<close>

definition reconciler_calls :: "(call \<Rightarrow> bool) \<Rightarrow> bool" where
  "reconciler_calls P \<longleftrightarrow> P GetServerGroups \<and> P ResetRestMapper \<and> (\<forall>n. P (GetRest n) \<and> P (GetCrd n)) \<and>
     (\<forall>q. P (HttpDo q)) \<and> (\<forall>r. P (UpdateObject r) \<and> P (UpdateStatus r)) \<and> (\<forall>d. P (Sleep d))"

definition operator_calls :: "(call \<Rightarrow> bool) \<Rightarrow> bool" where
  "operator_calls P \<longleftrightarrow> template_calls P \<and> reconciler_calls P \<and> P GetOpenAPI \<and> P GetServerResources \<and> (\<forall>n. P (GetTemplate n))"

lemma reconciler_callsD:
  "reconciler_calls P \<Longrightarrow> P GetServerGroups" "reconciler_calls P \<Longrightarrow> P ResetRestMapper"
  "reconciler_calls P \<Longrightarrow> P (GetRest n)" "reconciler_calls P \<Longrightarrow> P (GetCrd n)" "reconciler_calls P \<Longrightarrow> P (HttpDo q)"
  "reconciler_calls P \<Longrightarrow> P (UpdateObject r)" "reconciler_calls P \<Longrightarrow> P (UpdateStatus r)" "reconciler_calls P \<Longrightarrow> P (Sleep d)"
  by (simp_all add: reconciler_calls_def)

lemma operator_callsD:
  "operator_calls P \<Longrightarrow> template_calls P" "operator_calls P \<Longrightarrow> reconciler_calls P" "operator_calls P \<Longrightarrow> P GetOpenAPI"
  "operator_calls P \<Longrightarrow> P GetServerResources" "operator_calls P \<Longrightarrow> P (GetTemplate n)"
  "operator_calls P \<Longrightarrow> P ResetRestMapper" "operator_calls P \<Longrightarrow> P (ListNamespaces s)"
  by (simp_all add: operator_calls_def template_calls_def reconciler_calls_def)

text \<open>A predicate on the counters looks at an outcome as a whole: two counters, one after the other.\<close>

definition counts_kept :: "(('c, 'l) world \<Rightarrow> bool) \<Rightarrow> bool" where
  "counts_kept I \<longleftrightarrow> (\<forall>n. keeps I (incSuccess n) \<and> keeps I (incFailed n) \<and> keeps I (incRESTSuccess n) \<and> keeps I (incRESTFailed n))"

lemma counts_keptD:
  assumes "counts_kept I"
  shows "keeps I (incSuccess n)" "keeps I (incFailed n)" "keeps I (incRESTSuccess n)" "keeps I (incRESTFailed n)"
  using assms by (simp_all add: counts_kept_def)

lemma counts_kept_iff: "counts_kept I \<longleftrightarrow>
   (\<forall>w. I w \<longrightarrow> (\<forall>n. I (w\<lparr>calls := calls w @ [IncGauge TemplateCount n, IncGauge TemplateSuccess n]\<rparr>) \<and>
      I (w\<lparr>calls := calls w @ [IncGauge TemplateCount n, IncGauge TemplateFailed n]\<rparr>) \<and>
      I (w\<lparr>calls := calls w @ [IncGauge RestCount n, IncGauge RestSuccess n]\<rparr>) \<and>
      I (w\<lparr>calls := calls w @ [IncGauge RestCount n, IncGauge RestFailed n]\<rparr>)))"
  unfolding counts_kept_def keeps_iff inc_total by auto

definition keepsL :: "(('c, 'l) world \<Rightarrow> bool) \<Rightarrow> ('c, 'l, 'a) loop \<Rightarrow> bool" where
  "keepsL I m \<longleftrightarrow> (\<forall>w r v. I w \<longrightarrow> m w = Some (r, v) \<longrightarrow> I v)"

lemma keepsL_total: "keeps I m \<Longrightarrow> keepsL I (total m)"
  unfolding keepsL_def total_def keeps_iff by (metis option.inject snd_conv)

lemma keepsL_bindL: "keepsL I m \<Longrightarrow> (\<And>x. keepsL I (f x)) \<Longrightarrow> keepsL I (bindL m f)"
  unfolding keepsL_def
proof (intro allI impI)
  fix w r v
  assume m: "\<forall>w r v. I w \<longrightarrow> m w = Some (r, v) \<longrightarrow> I v" and f: "\<And>x. \<forall>w r v. I w \<longrightarrow> f x w = Some (r, v) \<longrightarrow> I v"
    and w: "I w" and v: "bindL m f w = Some (r, v)"
  obtain y u where y: "m w = Some (y, u)" using v by (cases "m w") (auto simp: bindL_def)
  have u: "I u" using m w y by blast
  show "I v"
  proof (cases y)
    case (Inl e)
    then show ?thesis using u y v by (simp add: bindL_def)
  next
    case (Inr x)
    then have "f x u = Some (r, v)" using y v by (simp add: bindL_def)
    then show ?thesis using f u by blast
  qed
qed

lemma keepsL_if: "keepsL I a \<Longrightarrow> keepsL I b \<Longrightarrow> keepsL I (if c then a else b)"
  by simp

lemma keepsL_case_option:
  "keepsL I a \<Longrightarrow> (\<And>x. keepsL I (b x)) \<Longrightarrow> keepsL I (case r of None \<Rightarrow> a | Some x \<Rightarrow> b x)"
  by (cases r) auto

context logging begin

lemma kept_status_body:
  "reconciler_calls P \<Longrightarrow> keeps I (status_body E su old s)"
  by (cases s) (auto simp: status_body_def update_status_call_def reconciler_callsD intro!: valid_intros kept_status_retry)

lemma kept_finalizer_body:
  "reconciler_calls P \<Longrightarrow> keeps I (finalizer_body E s)"
  by (cases s) (auto simp: finalizer_body_def update_call_def reconciler_callsD intro!: valid_intros kept_finalizer_retry)

lemma kept_status_loop:
  assumes "reconciler_calls P" "steps_decrease E"
  shows "keepsL I (status_loop E su old s)"
  unfolding keepsL_def
proof (intro allI impI)
  fix w r v
  assume w: "I w" and v: "status_loop E su old s w = Some (r, v)"
  have "\<exists>r v. status_loop E su old s w = Some (r, v) \<and> I v"
    by (rule status.ends_keeping [where P = "\<lambda>_. True"])
      (use w status_body_steps [OF assms(2)] keepsD [OF kept_status_body [OF assms(1)]] in auto)
  then show "I v" using w v by auto
qed

lemma kept_finalizer_loop:
  assumes "reconciler_calls P" "steps_decrease E"
  shows "keepsL I (finalizer_loop E s)"
  unfolding keepsL_def
proof (intro allI impI)
  fix w r v
  assume w: "I w" and v: "finalizer_loop E s w = Some (r, v)"
  have "\<exists>r v. finalizer_loop E s w = Some (r, v) \<and> I v"
    by (rule finalizer.ends_keeping [where P = "\<lambda>_. True"])
      (use w finalizer_body_steps [OF assms(2)] keepsD [OF kept_finalizer_body [OF assms(1)]] in auto)
  then show "I v" using w v by auto
qed

lemma kept_updateStatus:
  assumes "reconciler_calls P" "steps_decrease E"
  shows "keepsL I (updateStatus E r su old)"
proof -
  have "keepsL I (bindL (total (setRestStatus E (addStatusUpdates r su))) (\<lambda>r2. status_loop E su old (initial_backoff, r2)))"
    by (intro keepsL_bindL keepsL_total kept_setRestStatus kept_status_loop assms)
  then have step: "keepsL I (\<lambda>w. case setRestStatus E (addStatusUpdates r su) w of
      (Inl f, w1) \<Rightarrow> Some (Inl f, w1) | (Inr r2, w1) \<Rightarrow> status_loop E su old (initial_backoff, r2) w1)"
    by (simp add: bindL_def total_def)
  then show ?thesis by (auto simp: updateStatus_def Let_def keepsL_def)
qed

lemma kept_Reconcile:
  assumes "reconciler_calls P" "steps_decrease E" "counts_kept I"
  shows "keepsL I (Reconcile E req)"
proof -
  have "keepsL I (removeFinalizers E r)" for r
    using kept_finalizer_loop [OF assms(1,2)] by (simp add: keepsL_def removeFinalizers_def)
  then show ?thesis
    unfolding Reconcile_def reconcile_rest_def Let_def
    by (intro keepsL_bindL keepsL_case_option keepsL_if keepsL_total kept_updateStatus assms valid_intros
        kept_fetch_rest kept_reset_mapper kept_Delete kept_Update kept_count_failure reconciler_callsD [OF assms(1)]
        counts_keptD [OF assms(3)])
qed

end

section \<open>Invariants of the operator\<close>

text \<open>
  A predicate that also survives the expiry of the schema cache and newer versions of the CRDs is
  kept by all reconcilers.
\<close>

locale operator_invariant = calling I P E
  for I :: "('c, 'l) world \<Rightarrow> bool" and P :: "call \<Rightarrow> bool" and E :: "('c, 'l, 'z) rest_env_scheme" +
  assumes I_ExpireSchema: "keeps I (ExpireSchema E)"
    and I_version: "I w \<Longrightarrow> sint (crdResourceVersion w) < sint v \<Longrightarrow> I (w\<lparr>crdResourceVersion := v\<rparr>)"
    and I_counts: "counts_kept I"
begin

lemmas I_inc = counts_keptD [OF I_counts]

lemma kept_check_resource_version: "keeps I (check_resource_version E ver)"
  unfolding keeps_iff
proof (intro allI impI)
  fix w assume w: "I w"
  show "I (snd (check_resource_version E ver w))"
  proof (cases "Atoi ver")
    case (Inl e)
    then show ?thesis using w by (simp add: check_resource_version_def liftR_def bindA_def)
  next
    case (Inr v)
    obtain w2 where exp: "ExpireSchema E w = (Inr (), w2)" "crdResourceVersion w2 = crdResourceVersion w"
      using resetCache_ok [of E w] by (cases "ExpireSchema E w") simp
    then have "I w2" using keepsD [OF I_ExpireSchema w] by simp
    then show ?thesis
      using w exp Inr I_version [of w2 v]
      by (simp add: check_resource_version_def resetCache_def set_resource_version_def bindA_def reads_def ret_def liftR_def)
  qed
qed

lemma kept_CRD_Reconcile:
  assumes "reconciler_calls P"
  shows "keeps I (CRD_Reconcile E req)"
  unfolding CRD_Reconcile_def HasKind_def reconcileV1_def reconcileV1beta1_def
  by (intro valid_intros kept_check_resource_version reconciler_callsD [OF assms])

lemma kept_Template_Reconcile:
  assumes "operator_calls P"
  shows "keeps I (Template_Reconcile E wt req)"
proof -
  have run: "keeps I (bindA (count_failure (incFailed n) (NewTemplateManager E wt)) (\<lambda>tm.
      bindA (count_failure (incFailed n) (Run E tm t)) (\<lambda>result. bindA (incSuccess n) (\<lambda>_. ret result))))" for n t
    by (intro keeps_bindA_result kept_count_failure kept_NewTemplateManager kept_Run valid_intros I_inc)
      (auto simp: count_failure_eq_Inr operator_callsD [OF assms] dest: NewTemplateManager_uses)
  show ?thesis
    unfolding Template_Reconcile_def Let_def
    by (intro keeps_bindA keeps_attempt keeps_case_sum keeps_if keeps_ret keeps_raise kept_external kept_record_call
        kept_reset_mapper run I_inc operator_callsD [OF assms])
qed

lemma kept_reconcileObject:
  assumes "operator_calls P"
  shows "keeps I (reconcileObject E wt req obj)"
proof -
  have "keeps I (handle_object E wt n obj t)" for n t
    unfolding handle_object_def
    by (intro keeps_bindA [OF kept_reset_mapper] keeps_bindA_result keeps_bindA [OF kept_count_failure [OF kept_GetSourceNamespaces]]
        kept_count_failure kept_NewTemplateManager keeps_if keeps_ret kept_HandleSource kept_record_call I_inc)
      (auto simp: count_failure_eq_Inr operator_callsD [OF assms] dest: NewTemplateManager_uses)
  then show ?thesis
    unfolding reconcileObject_def Let_def
    by (intro keeps_bindA keeps_attempt keeps_case_sum keeps_if keeps_raise kept_external kept_record_call
        I_inc operator_callsD [OF assms])
qed

end

section \<open>Steps\<close>

inductive operator_step :: "('c, 'l, 'z) rest_env_scheme \<Rightarrow> watcher \<Rightarrow> ('c, 'l) world \<Rightarrow> ('c, 'l) world \<Rightarrow> bool"
  for E wt where
  crd: "operator_step E wt w (snd (CRD_Reconcile E req w))"
| template: "operator_step E wt w (snd (Template_Reconcile E wt req w))"
| event: "operator_step E wt w (snd (handle_event E (reconcileObject E wt req) ev w))"
| rest: "Reconcile E req w = Some (r, v) \<Longrightarrow> operator_step E wt w v"
| elsewhere: "operator_step E wt w (w\<lparr>cluster := c\<rparr>)"

inductive_cases operator_stepE: "operator_step E wt w v"

inductive operator_steps :: "('c, 'l, 'z) rest_env_scheme \<Rightarrow> watcher \<Rightarrow> ('c, 'l) world \<Rightarrow> ('c, 'l) world \<Rightarrow> bool"
  for E wt where
  stay: "operator_steps E wt w w"
| move: "operator_steps E wt w v \<Longrightarrow> operator_step E wt v u \<Longrightarrow> operator_steps E wt w u"

context operator_invariant begin

lemma kept_step:
  assumes "operator_calls P" "steps_decrease E"
  shows "operator_step E wt w v \<Longrightarrow> I w \<Longrightarrow> I v"
  by (erule operator_stepE)
    (auto simp: keepsD [OF kept_CRD_Reconcile [OF operator_callsD(2) [OF assms(1)]]] keepsD [OF kept_Template_Reconcile [OF assms(1)]]
      keepsD [OF keeps_handle_event [OF kept_reconcileObject [OF assms(1)]]] I_cluster
      dest: kept_Reconcile [OF operator_callsD(2) [OF assms(1)] assms(2) I_counts, unfolded keepsL_def, rule_format])

lemma kept_steps:
  assumes "operator_steps E wt w v" "I w" "operator_calls P" "steps_decrease E"
  shows "I v"
  using assms(1,2) by (induction rule: operator_steps.induct) (auto intro: kept_step assms(3,4))

end

section \<open>What the operator keeps\<close>

interpretation schema: operator_invariant world_inv "\<lambda>k. k = GetOpenAPI \<longrightarrow> openapi_not_null E" E
  for E :: "('c, 'l, 'z) rest_env_scheme"
  by unfold_locales
    (simp_all add: FetchSchema_inv FetchResources_inv FetchCRD_inv CachedConvertSchema_inv ExpireSchema_inv counts_kept_iff)

locale operator_stable = stable I P
  for I :: "('c, 'l) world \<Rightarrow> bool" and P :: "call \<Rightarrow> bool" +
  assumes I_newer: "I w \<Longrightarrow> sint (crdResourceVersion w) < sint v \<Longrightarrow> I (w\<lparr>crdResourceVersion := v\<rparr>)"
    and I_counted: "counts_kept I"

sublocale operator_stable \<subseteq> operator_invariant I P E for E :: "('c, 'l, 'z) rest_env_scheme"
  by unfold_locales (simp_all add: kept_ExpireSchema I_newer I_counted)

interpretation version: operator_stable "\<lambda>w. n \<le> sint (crdResourceVersion w)" "\<lambda>_. True" for n
  by unfold_locales (simp_all add: counts_kept_iff)

interpretation watching: operator_stable "\<lambda>w. map_of (watched w) k = Some True" "\<lambda>_. True" for k
  by unfold_locales (simp_all add: update_conv' counts_kept_iff)

text \<open>The value of a gauge for a label: how often it was incremented.\<close>

definition gauge_value :: "gauge \<Rightarrow> string \<Rightarrow> ('c, 'l) world \<Rightarrow> nat" where
  "gauge_value g n w = length (filter (\<lambda>k. k = IncGauge g n) (calls w))"

definition balanced :: "('c, 'l) world \<Rightarrow> bool" where
  "balanced w \<longleftrightarrow> (\<forall>n.
     gauge_value TemplateCount n w = gauge_value TemplateSuccess n w + gauge_value TemplateFailed n w \<and>
     gauge_value RestCount n w = gauge_value RestSuccess n w + gauge_value RestFailed n w)"

lemma not_gauge: "\<not> is_gauge k \<Longrightarrow> k \<noteq> IncGauge g n"
  by auto

interpretation balance: operator_stable balanced "\<lambda>k. \<not> is_gauge k"
  by unfold_locales (simp_all add: balanced_def gauge_value_def not_gauge counts_kept_iff)

text \<open>
  C19. The metrics of the operator add up: for every name, the gauge of runs is the sum of the
  gauges of successful and of failed runs, for templates and for REST objects, after any sequence
  of reconciliations, callbacks and changes of the cluster.
\<close>
theorem outcomes_balanced:
  assumes "operator_steps E wt w0 w" "balanced w0" "steps_decrease E"
  shows "gauge_value TemplateCount n w = gauge_value TemplateSuccess n w + gauge_value TemplateFailed n w \<and>
    gauge_value RestCount n w = gauge_value RestSuccess n w + gauge_value RestFailed n w"
proof -
  have "operator_calls (\<lambda>k. \<not> is_gauge k)" by (simp add: operator_calls_def template_calls_def reconciler_calls_def)
  then show ?thesis using balance.kept_steps [OF assms(1,2) _ assms(3)] by (simp add: balanced_def)
qed

section \<open>Examples\<close>

theorem outcomes_balanced_witness:
  "\<exists>w. w = snd (Template_Reconcile labelled_env NullWatcher demo_request demo_world) \<and>
    gauge_value TemplateCount (nn_string demo_request) w =
      gauge_value TemplateSuccess (nn_string demo_request) w + gauge_value TemplateFailed (nn_string demo_request) w"
proof -
  have "operator_steps labelled_env NullWatcher demo_world (snd (Template_Reconcile labelled_env NullWatcher demo_request demo_world))"
    by (rule operator_steps.move [OF operator_steps.stay operator_step.template])
  moreover have "balanced (demo_world :: (nat, schema gmap) world)" by (simp add: balanced_def gauge_value_def demo_world_def world_at_def)
  moreover have "steps_decrease labelled_env" by (simp add: steps_decrease_def labelled_env_def demo_rest_simps)
  ultimately show ?thesis using outcomes_balanced by blast
qed

end
