(* ===== verification/Interleaving.thy ===== *)
theory Interleaving
  imports Operator
begin

text \<open>
  The reconcilers and the callbacks run in goroutines of one process. What they share is guarded:
  every method of the schema cache holds its mutex, \<open>Watch\<close> holds the mutex of the watcher, and
  the version of the CRDs belongs to the one worker of the CRD controller. An atomic step is one such
  section, or any calls that leave the process. The relation is no translation of code but an
  over-approximation of it: it leaves out the order in which a goroutine runs its sections, so that
  its sequences include every interleaving of all goroutines and more. Whole reconciliations are
  such sequences, and the properties of the shared state, which are about operations of the program
  before and after such a sequence, hold for every interleaving.
\<close>

section \<open>Atomic steps\<close>

inductive atomic_step :: "('c, 'l, 'z) rest_env_scheme \<Rightarrow> ('c, 'l) world \<Rightarrow> ('c, 'l) world \<Rightarrow> bool"
  for E where
  outside: "atomic_step E w (w\<lparr>cluster := c, calls := calls w @ ks\<rparr>)"
| fetch_schema: "atomic_step E w (snd (FetchSchema E w))"
| fetch_resources: "atomic_step E w (snd (FetchResources E w))"
| fetch_crd: "atomic_step E w (snd (FetchCRD E w))"
| convert: "atomic_step E w (snd (CachedConvertSchema E g v w))"
| expire: "atomic_step E w (snd (ExpireSchema E w))"
| mark: "atomic_step E w (w\<lparr>watched := AList.update k True (watched w)\<rparr>)"
| newer: "sint (crdResourceVersion w) < sint v \<Longrightarrow> atomic_step E w (w\<lparr>crdResourceVersion := v\<rparr>)"

inductive_cases atomic_stepE: "atomic_step E w v"

abbreviation interleaved :: "('c, 'l, 'z) rest_env_scheme \<Rightarrow> ('c, 'l) world \<Rightarrow> ('c, 'l) world \<Rightarrow> bool" where
  "interleaved E \<equiv> (atomic_step E)\<^sup>*\<^sup>*"

lemma interleaved_step: "interleaved E w v \<Longrightarrow> atomic_step E v u \<Longrightarrow> interleaved E w u"
  by (rule rtranclp.rtrancl_into_rtrancl)

lemmas atomic_steps = atomic_step.intros [THEN interleaved_step [rotated]]

text \<open>What the shared state can become by atomic steps is itself kept by every operation.\<close>

interpretation reached: operator_invariant "interleaved E w0" "\<lambda>_. True" E
  for E :: "('c, 'l, 'z) rest_env_scheme" and w0
proof unfold_locales
  show "interleaved E w0 (w\<lparr>cluster := c\<rparr>)" if "interleaved E w0 w" for w c
    using atomic_steps(1) [OF that, where c = c and ks = "[]"] by simp
  show "counts_kept (interleaved E w0)"
    unfolding counts_kept_iff using atomic_steps(1) [of E w0 w _ "cluster w" for w] by auto
qed (auto simp: keeps_iff intro: atomic_steps)

lemma interleaved_operator_steps: "operator_steps E wt w v \<Longrightarrow> steps_decrease E \<Longrightarrow> interleaved E w v"
  using reached.kept_steps [OF _ rtranclp.rtrancl_refl] by (simp add: operator_calls_def template_calls_def reconciler_calls_def)

text \<open>
  The reconcilers refine the interleaving of atomic sections: whatever a sequence of whole
  reconciliations does to the shared state and to the calls can be done by atomic steps, so that
  whatever holds for every interleaving holds for the operator.
\<close>
theorem operator_steps_interleaved:
  assumes "operator_steps E wt w v" "steps_decrease E"
  shows "interleaved E w v"
  using assms by (rule interleaved_operator_steps)

lemma template_interleaved: "steps_decrease E \<Longrightarrow> interleaved E w (snd (Template_Reconcile E wt req w))"
  by (rule interleaved_operator_steps [OF operator_steps.move [OF operator_steps.stay operator_step.template]])

context operator_invariant begin

lemma kept_calls: "(\<And>k. P k) \<Longrightarrow> I w \<Longrightarrow> I (w\<lparr>cluster := c, calls := calls w @ ks\<rparr>)"
proof (induction ks rule: rev_induct)
  case Nil
  then show ?case using I_cluster [of w c] by simp
next
  case (snoc k ks)
  then show ?case using I_call [of "w\<lparr>cluster := c, calls := calls w @ ks\<rparr>" k c] by simp
qed

lemma kept_atomic: "(\<And>k. P k) \<Longrightarrow> atomic_step E w v \<Longrightarrow> I w \<Longrightarrow> I v"
  by (erule atomic_stepE)
    (auto simp: kept_calls I_watched I_version keepsD [OF I_FetchSchema] keepsD [OF I_FetchResources] keepsD [OF I_FetchCRD]
      keepsD [OF I_CachedConvertSchema] keepsD [OF I_ExpireSchema])

lemma kept_interleaved: "interleaved E w v \<Longrightarrow> (\<And>k. P k) \<Longrightarrow> I w \<Longrightarrow> I v"
  by (induction rule: rtranclp_induct) (auto intro: kept_atomic)

end

section \<open>What every interleaving keeps\<close>

lemma reachable_has_schema:
  assumes "openapi_not_null E" "\<And>c. 0 < fst (Now E c)"
    and "cache w0 = NewSchemaCache E d" "interleaved E w0 w"
    and "NewTemplateManager E wt' w = (Inr tm, w')"
  shows "sm_swagger (SchemaMgr tm) \<noteq> None"
proof -
  have "world_inv w0" using assms(3) by (simp add: NewSchemaCache_def cache_inv_def)
  then have inv: "world_inv w" using schema.kept_interleaved [OF assms(4)] assms(1) by blast
  obtain w1 w2 where sm: "NewSchemaManagerWithCache E w1 = (Inr (SchemaMgr tm), w2)" and "cache w1 = cache w"
  proof -
    obtain x1 v1 u v2 w1 where "attempt (query (GetClientset E)) w = (Inr x1, v1)" "query (GetRESTConfig E) v1 = (Inr u, v2)"
      "query (NewCrdClient E) v2 = (Inr u, w1)" "NewSchemaManagerWithCache E w1 = (Inr (SchemaMgr tm), w')"
      using assms(5) by (auto simp: NewTemplateManager_def act_eq_Inr)
    moreover from this have "cache w1 = cache w"
      by (auto simp: query_eq_Inr attempt_def query_def split: prod.splits sum.splits failure.splits)
    ultimately show ?thesis using that by blast
  qed
  obtain w3 where "FetchSchema E w1 = (Inr (sm_swagger (SchemaMgr tm)), w3)"
    using sm by (auto simp: NewSchemaManagerWithCache_def act_eq_Inr)
  then show ?thesis
    using FetchSchema_Some [OF assms(1) _ assms(2)] inv \<open>cache w1 = cache w\<close> by metis
qed

lemma watch_marks:
  "map_of (watched (snd (WatchObject E Watcher obj t w))) (getCacheKey E obj t) = Some True"
  using Watch_step [of E obj t w] by (auto simp: update_conv' split: if_splits)

text \<open>
  C27. A kind is watched at most once for a template in the life of the operator: after a call of
  \<open>Watch\<close>, whether it succeeded or failed, and any interleaving of reconciliations, a call for an object of
  the same kind and a template of the same name returns nil and does nothing. A watch that failed
  to start is never tried again.
\<close>
theorem Watch_never_retried:
  assumes "WatchObject E Watcher obj t w = (r, w1)" "interleaved E w1 w2"
    and "getCacheKey E obj' t' = getCacheKey E obj t"
  shows "WatchObject E Watcher obj' t' w2 = (Inr (), w2)"
proof -
  have "map_of (watched w1) (getCacheKey E obj t) = Some True" using watch_marks [of E obj t w] assms(1) by simp
  then have "map_of (watched w2) (getCacheKey E obj t) = Some True"
    using watching.kept_interleaved [OF assms(2)] by simp
  then show ?thesis using assms(3) by (simp add: WatchObject_marked)
qed

text \<open>
  C11. A CRD whose resource version does not change expires the cache at most once: after one
  successful reconciliation of it, and any interleaving of other steps, another one leaves the
  cache and the version seen as they are.
\<close>
theorem CRD_Reconcile_once:
  assumes unchanged: "\<And>c. fst (srv_GetCrdVersion E req c) = Inr ver" "\<And>c. fst (srv_GetCrdVersionBeta E req c) = Inr ver"
    and first: "CRD_Reconcile E req w = (Inr x, w1)"
    and between: "interleaved E w1 w2"
    and again: "CRD_Reconcile E req w2 = (Inr y, w3)"
  shows "cache w3 = cache w2 \<and> crdResourceVersion w3 = crdResourceVersion w2"
proof -
  have version: "ver' = ver" if "(if v1 then srv_GetCrdVersion E req c else srv_GetCrdVersionBeta E req c) = (Inr ver', c')" for v1 c ver' c'
    using that unchanged [of c] by (cases v1) auto
  obtain v where v: "Atoi ver = Inr v" "sint v \<le> sint (crdResourceVersion w1)"
    using first
  proof (rule CRD_Reconcile_result)
    fix f groups c v1 ver' c'
    assume "(if v1 then srv_GetCrdVersion E req c else srv_GetCrdVersionBeta E req c) = (Inr ver', c')"
      "check_resource_version E ver' (w\<lparr>cluster := c', calls := calls w @ [GetServerGroups, GetCrd (nn_string req)]\<rparr>) = (Inr x, w1)"
    then show ?thesis using version that by (auto elim!: check_resource_version_result split: if_splits)
  qed
  then have seen: "sint v \<le> sint (crdResourceVersion w2)"
    using version.kept_interleaved [OF between] by simp
  from again show ?thesis
  proof (rule CRD_Reconcile_result)
    fix f groups c v1 ver' c'
    let ?w = "w2\<lparr>cluster := c', calls := calls w2 @ [GetServerGroups, GetCrd (nn_string req)]\<rparr>"
    assume "(if v1 then srv_GetCrdVersion E req c else srv_GetCrdVersionBeta E req c) = (Inr ver', c')"
      "check_resource_version E ver' ?w = (Inr y, w3)"
    then show ?thesis using version v(1) seen by (auto elim!: check_resource_version_result)
  qed
qed

section \<open>Examples\<close>

definition offline_env :: "(nat, schema gmap) rest_env" where
  "offline_env = (demo_rest_env True demo_rest)\<lparr>GetDynamicClient := (\<lambda>c. (Inl (Error ''down''), c))\<rparr>"

theorem Watch_never_retried_witness:
  "\<exists>w1 w2. isl (fst (WatchObject offline_env Watcher (config_map ''default'' ''a'') demo_template demo_world)) \<and>
    w1 = snd (WatchObject offline_env Watcher (config_map ''default'' ''a'') demo_template demo_world) \<and>
    w2 = snd (Template_Reconcile offline_env Watcher demo_request w1) \<and>
    WatchObject offline_env Watcher (config_map ''default'' ''b'') demo_template w2 = (Inr (), w2)"
proof -
  obtain r w1 where run: "WatchObject offline_env Watcher (config_map ''default'' ''a'') demo_template demo_world = (r, w1)"
    by (cases "WatchObject offline_env Watcher (config_map ''default'' ''a'') demo_template demo_world")
  have "isl (fst (WatchObject offline_env Watcher (config_map ''default'' ''a'') demo_template demo_world))"
    by (simp add: WatchObject.simps(2) demo_world_def world_at_def bindA_mark_watched)
       (simp add: bindA_def wrapA_def getDynamicClient_def query_def offline_env_def)
  moreover have "getCacheKey offline_env (config_map ''default'' ''b'') demo_template
      = getCacheKey offline_env (config_map ''default'' ''a'') demo_template"
    by (simp add: getCacheKey_def offline_env_def demo_rest_simps json_meta_def config_map_def entries_def string_field_def)
  moreover have "interleaved offline_env w1 (snd (Template_Reconcile offline_env Watcher demo_request w1))"
    by (rule template_interleaved) (simp add: steps_decrease_def offline_env_def demo_rest_simps)
  ultimately show ?thesis using Watch_never_retried [OF run] run by auto
qed

theorem CRD_Reconcile_once_witness:
  "\<exists>w1 w2 w3. CRD_Reconcile (demo_rest_env True demo_rest) demo_request demo_world = (Inr (), w1) \<and>
    w2 = snd (Template_Reconcile (demo_rest_env True demo_rest) NullWatcher demo_request w1) \<and>
    CRD_Reconcile (demo_rest_env True demo_rest) demo_request w2 = (Inr (), w3) \<and> cache w3 = cache w2"
proof -
  let ?E = "demo_rest_env True demo_rest"
  obtain w1 where run: "CRD_Reconcile ?E demo_request demo_world = (Inr (), w1)"
    using demo_CRD_Reconcile by blast
  let ?w2 = "snd (Template_Reconcile ?E NullWatcher demo_request w1)"
  obtain w3 where again: "CRD_Reconcile ?E demo_request ?w2 = (Inr (), w3)"
    using demo_CRD_Reconcile by blast
  have unchanged: "fst (srv_GetCrdVersion ?E demo_request c) = Inr ''7''" "fst (srv_GetCrdVersionBeta ?E demo_request c) = Inr ''7''" for c
    by (simp_all add: demo_rest_simps)
  have "interleaved ?E w1 ?w2"
    by (rule template_interleaved) (rule demo_steps_decrease)
  from CRD_Reconcile_once [OF unchanged run this again] show ?thesis using run again by blast
qed

theorem operator_steps_interleaved_witness:
  "interleaved (demo_rest_env True demo_rest) demo_world
     (snd (CRD_Reconcile (demo_rest_env True demo_rest) demo_request
       (snd (Template_Reconcile (demo_rest_env True demo_rest) NullWatcher demo_request demo_world))))"
  by (rule operator_steps_interleaved [OF operator_steps.move [OF operator_steps.move [OF operator_steps.stay
        operator_step.template [of _ NullWatcher]] operator_step.crd] demo_steps_decrease])

end
