(* ===== verification/Startup.thy ===== *)
theory Startup
  imports Interleaving
begin

text \<open>
  \<open>main.go\<close> and the \<open>SetupWithManager\<close> functions of \<open>controllers/\<close>: how the operator comes into the
  state from which its steps run. A failure stands for the log entry and \<open>os.Exit(1)\<close>, and nothing
  runs after it. The settings come from the command line (Flags); the logger has no part in the state.
\<close>

record startup_flags =
  syncPeriod :: i64
  expire_flag :: i64
  metricsAddr :: string
  enableLeaderElection :: bool

definition default_flags :: startup_flags where
  "default_flags = \<lparr>syncPeriod = 5 * of_nat minute, expire_flag = 15 * of_nat minute, metricsAddr = '':8080'', enableLeaderElection = False\<rparr>"

text \<open>
  What controller-runtime does for the program: \<open>BuildController\<close> is \<open>NewControllerManagedBy(mgr).For(..).Complete(r)\<close>
  for a kind, \<open>WatchCrds\<close> is \<open>c.Watch\<close> on the CRDs of the API v1 or v1beta1.
\<close>

datatype crd_api = CrdV1 | CrdV1beta1

record ('c, 'l) startup_env = "('c, 'l) rest_env" +
  NewManager :: "startup_flags \<Rightarrow> ('c, unit) ext"
  BuildController :: "string \<Rightarrow> ('c, unit) ext"
  NewController :: "string \<Rightarrow> ('c, unit) ext"
  GetConfig :: "('c, unit) ext"
  NewDiscoveryClient :: "('c, unit) ext"
  WatchCrds :: "crd_api \<Rightarrow> ('c, unit) ext"
  StartManager :: "('c, unit) ext"

section \<open>Controllers\<close>

definition Template_SetupWithManager :: "('c, 'l, 'z) startup_env_scheme \<Rightarrow> ('c, 'l, unit) wact" where
  "Template_SetupWithManager E = query (BuildController E ''Template'')"

definition REST_SetupWithManager :: "('c, 'l, 'z) startup_env_scheme \<Rightarrow> ('c, 'l, unit) wact" where
  "REST_SetupWithManager E = query (BuildController E ''REST'')"

definition CRD_SetupWithManager :: "('c, 'l, 'z) startup_env_scheme \<Rightarrow> ('c, 'l, unit) wact" where
  "CRD_SetupWithManager E =
     bindA (query (NewController E ''crd-monitor'')) (\<lambda>_.
     bindA (query (GetConfig E)) (\<lambda>_.
     bindA (query (NewDiscoveryClient E)) (\<lambda>_.
     bindA (HasKind E CRDV1Group CRDV1Version) (\<lambda>v1.
     if v1 then query (WatchCrds E CrdV1) else query (WatchCrds E CrdV1beta1)))))"

section \<open>main\<close>

text \<open>The cache and the CRD reconciler are new values; both are shared by nothing before.\<close>

definition new_cache :: "('c, 'l, 'z) startup_env_scheme \<Rightarrow> i64 \<Rightarrow> ('c, 'l, unit) wact" where
  "new_cache E expiry = update_cache (\<lambda>_. NewSchemaCache E expiry)"

definition startup :: "('c, 'l, 'z) startup_env_scheme \<Rightarrow> startup_flags \<Rightarrow> ('c, 'l, watcher) wact" where
  "startup E fl =
     bindA (wrapA ''unable to start manager'' (query (NewManager E fl))) (\<lambda>_.
     bindA (wrapA ''failed to get clientset'' (query (GetClientset E))) (\<lambda>_.
     bindA (wrapA ''failed to get rest config'' (query (GetRESTConfig E))) (\<lambda>_.
     bindA (wrapA ''failed to get crd client'' (query (NewCrdClient E))) (\<lambda>_.
     bindA (new_cache E (expire_flag fl)) (\<lambda>_.
     bindA (wrapA ''failed to setup watcher'' (NewWatcher E)) (\<lambda>wt.
     bindA (wrapA ''unable to create controller'' (Template_SetupWithManager E)) (\<lambda>_.
     bindA (set_resource_version 0) (\<lambda>_.
     bindA (wrapA ''unable to create controller'' (CRD_SetupWithManager E)) (\<lambda>_.
     bindA (wrapA ''unable to create controller'' (REST_SetupWithManager E)) (\<lambda>_.
     ret wt))))))))))"

text \<open>\<open>mgr.Start\<close> runs the reconcilers until the process is told to stop.\<close>

definition main_program :: "('c, 'l, 'z) startup_env_scheme \<Rightarrow> startup_flags \<Rightarrow> ('c, 'l, unit) wact" where
  "main_program E fl =
     bindA (startup E fl) (\<lambda>_. wrapA ''problem running manager'' (query (StartManager E)))"

section \<open>The state after startup\<close>

text \<open>What leaves the operator's own state alone.\<close>

definition same_state :: "('c, 'l) world \<Rightarrow> ('c, 'l) world \<Rightarrow> bool" where
  "same_state v w \<longleftrightarrow> cache w = cache v \<and> watched w = watched v \<and> crdResourceVersion w = crdResourceVersion v"

interpretation same: logging "same_state v" "\<lambda>_. True" for v
  by unfold_locales (simp_all add: same_state_def)

lemma same_state_run:
  assumes "\<And>v. keeps (same_state v) m" "m w = (r, w')"
  shows "same_state w w'"
  using keepsD [OF assms(1), of w w] assms(2) by (simp add: same_state_def)

lemma CRD_SetupWithManager_keeps: "keeps (same_state v) (CRD_SetupWithManager E)"
  unfolding CRD_SetupWithManager_def HasKind_def by (intro valid_intros) simp_all

lemma query_keeps_state: "keeps (same_state v) (query f)"
  by simp

lemma startup_result:
  assumes "startup E fl w = (Inr wt, w')"
  shows "cache w' = NewSchemaCache E (expire_flag fl) \<and> watched w' = [] \<and> crdResourceVersion w' = 0 \<and> wt = Watcher \<and>
    calls w' = calls w @ [GetServerGroups]"
proof -
  obtain w1 w2 w3 w4 w5 w6 w7 where
    q: "query (NewManager E fl) w = (Inr (), w1)" "query (GetClientset E) w1 = (Inr (), w2)"
      "query (GetRESTConfig E) w2 = (Inr (), w3)" "query (NewCrdClient E) w3 = (Inr (), w4)"
    and nw: "NewWatcher E (w4\<lparr>cache := NewSchemaCache E (expire_flag fl)\<rparr>) = (Inr wt, w5)"
    and t: "Template_SetupWithManager E w5 = (Inr (), w6)"
    and c: "CRD_SetupWithManager E (w6\<lparr>crdResourceVersion := 0\<rparr>) = (Inr (), w7)"
    and r: "REST_SetupWithManager E w7 = (Inr (), w')"
    using assms
    by (auto simp: startup_def new_cache_def bindA_eq_Inr wrapA_eq_Inr ret_eq_Inr set_resource_version_def update_cache_def)
  have calls4: "calls w4 = calls w" using q by (auto simp: query_eq_Inr)
  have w5: "cache w5 = NewSchemaCache E (expire_flag fl)" "watched w5 = []" "wt = Watcher" "calls w5 = calls w"
    using nw calls4 by (auto simp: NewWatcher_def bindA_eq_Inr wrapA_eq_Inr query_eq_Inr)
  have w6: "same_state w5 w6" "calls w6 = calls w5"
    using t by (auto simp: Template_SetupWithManager_def query_eq_Inr same_state_def)
  have w7: "same_state (w6\<lparr>crdResourceVersion := 0\<rparr>) w7"
    by (rule same_state_run [OF CRD_SetupWithManager_keeps c])
  have c7: "calls w7 = calls w6 @ [GetServerGroups]"
    using c by (auto simp: CRD_SetupWithManager_def bindA_eq_Inr query_eq_Inr elim!: HasKind_result split: if_splits)
  have "same_state w7 w'" "calls w' = calls w7"
    using r by (auto simp: REST_SetupWithManager_def query_eq_Inr same_state_def)
  then show ?thesis using w5 w6 w7 c7 by (simp add: same_state_def)
qed

lemma startup_cache: "startup E fl w = (Inr wt, w') \<Longrightarrow> cache w' = NewSchemaCache E (expire_flag fl)"
  using startup_result by blast

text \<open>
  C4. From a successful setup on, through any interleaving of reconciliations, callbacks and changes
  of the cluster, a template manager that is created has the schema of the server, never a
  nil one, provided the server's OpenAPI document is never the value \<open>null\<close> and the clock reads a
  time after the zero time.
\<close>
theorem operator_has_schema:
  assumes "openapi_not_null E" "\<And>c. 0 < fst (Now E c)"
    and "startup E fl w = (Inr wt, w0)" "interleaved E w0 w1"
    and "NewTemplateManager E wt w1 = (Inr tm, w2)"
  shows "sm_swagger (SchemaMgr tm) \<noteq> None"
  using reachable_has_schema [OF assms(1,2) _ assms(4,5)] startup_cache [OF assms(3)] by simp

section \<open>Examples\<close>

definition ticking_env :: "(nat, schema gmap) startup_env" where
  "ticking_env = rest_env.extend (demo_rest_env True demo_rest) (startup_env.fields
     (\<lambda>fl c. (Inr (), c)) (\<lambda>k c. (Inr (), c)) (\<lambda>n c. (Inr (), c)) (\<lambda>c. (Inr (), c)) (\<lambda>c. (Inr (), c))
     (\<lambda>a c. (Inr (), c)) (\<lambda>c. (Inr (), c)))\<lparr>Now := \<lambda>t. (Suc t, Suc t)\<rparr>"

lemmas ticking_simps = ticking_env_def rest_env.defs startup_env.defs demo_rest_simps

lemma ticking_NewTemplateManager: "\<exists>tm w'. NewTemplateManager ticking_env wt w = (Inr tm, w')"
proof -
  have "\<exists>s w'. FetchSchema ticking_env w = (Inr s, w')" for w
    by (cases "resources (cache w)")
      (simp_all add: FetchSchema_def fetchAndSetSchema_def ticking_simps bindA_def reads_def ret_def now_def query_def
        wrapA_def external_def liftR_def update_cache_def)
  moreover have "\<exists>s w'. FetchResources ticking_env w = (Inr s, w')" for w
    by (cases "resources (cache w)")
      (simp_all add: FetchResources_def fetchAndSetResources_def ticking_simps bindA_def reads_def ret_def now_def query_def
        wrapA_def external_def liftR_def update_cache_def)
  ultimately obtain s w1 rs w2 where "FetchSchema ticking_env w = (Inr s, w1)" "FetchResources ticking_env w1 = (Inr rs, w2)"
    by metis
  then obtain sm w' where "NewSchemaManagerWithCache ticking_env w = (Inr sm, w')"
    by (simp add: NewSchemaManagerWithCache_def bindA_def wrapA_def ret_def)
  moreover have "GetClientset ticking_env = (\<lambda>c. (Inr (), c))" "GetRESTConfig ticking_env = (\<lambda>c. (Inr (), c))"
    "NewCrdClient ticking_env = (\<lambda>c. (Inr (), c))"
    by (simp_all add: ticking_simps)
  ultimately show ?thesis by (simp add: NewTemplateManager_def NewPatchApplier_def bindA_def attempt_def wrapA_def query_def ret_def)
qed

lemma ticking_steps: "steps_decrease ticking_env"
  by (simp add: steps_decrease_def ticking_simps)

lemma ticking_path:
  "operator_steps ticking_env Watcher w (snd (Template_Reconcile ticking_env Watcher req (snd (CRD_Reconcile ticking_env req w))))"
  by (rule operator_steps.move [OF operator_steps.move [OF operator_steps.stay operator_step.crd] operator_step.template])

lemma ticking_interleaved:
  "interleaved ticking_env w (snd (Template_Reconcile ticking_env Watcher req (snd (CRD_Reconcile ticking_env req w))))"
  by (rule interleaved_operator_steps [OF ticking_path ticking_steps])

lemma ticking_startup: "\<exists>w'. startup ticking_env default_flags w = (Inr Watcher, w')"
  by (simp add: startup_def Template_SetupWithManager_def REST_SetupWithManager_def CRD_SetupWithManager_def HasKind_def
      new_cache_def NewWatcher_def set_resource_version_def CRDV1Group_def CRDV1Version_def ticking_simps bindA_def wrapA_def
      query_def external_def update_cache_def ret_def)

theorem operator_has_schema_witness:
  "\<exists>w0 w1 tm w2. startup ticking_env default_flags demo_world = (Inr Watcher, w0) \<and>
    w1 = snd (Template_Reconcile ticking_env Watcher demo_request (snd (CRD_Reconcile ticking_env demo_request w0))) \<and>
    NewTemplateManager ticking_env Watcher w1 = (Inr tm, w2) \<and> sm_swagger (SchemaMgr tm) \<noteq> None"
proof -
  obtain w0 where start: "startup ticking_env default_flags demo_world = (Inr Watcher, w0)"
    using ticking_startup by blast
  let ?w = "snd (Template_Reconcile ticking_env Watcher demo_request (snd (CRD_Reconcile ticking_env demo_request w0)))"
  obtain tm w2 where run: "NewTemplateManager ticking_env Watcher ?w = (Inr tm, w2)"
    using ticking_NewTemplateManager by blast
  have "sm_swagger (SchemaMgr tm) \<noteq> None"
  proof (rule operator_has_schema [OF _ _ start ticking_interleaved run])
    show "openapi_not_null ticking_env" by (simp add: openapi_not_null_def ticking_simps)
  qed (simp add: ticking_simps)
  then show ?thesis using start run by blast
qed

end
