(* ===== verification/Registration.thy ===== *)
theory Registration
  imports Startup
begin

text \<open>
  The \<open>init\<close> functions, which run before \<open>main\<close>: the types of \<open>api/v1\<close> are registered with the
  scheme of the manager, and the gauges of the controllers with the registry of controller-runtime.
  Scheme and registry belong to other packages; two locales state what the program needs of them.
\<close>

section \<open>The scheme\<close>

definition ApiVersion :: string where
  "ApiVersion = ''templating.flanksource.com/v1''"

definition GroupVersion :: "string \<times> string" where
  "GroupVersion = (''templating.flanksource.com'', ''v1'')"

text \<open>The Go types that are registered, by their names.\<close>

definition init_rest_types :: "string list" where
  "init_rest_types = [''REST'', ''RESTList'']"

definition init_template_types :: "string list" where
  "init_template_types = [''Template'', ''TemplateList'']"

text \<open>
  \<open>AddTypes\<close> is \<open>AddToScheme\<close> of the \<open>SchemeBuilder\<close> with a group version and the types registered with
  it; the others are the functions of that name of client-go and of the API extensions.
\<close>

record 's scheme_env =
  NewScheme :: 's
  AddTypes :: "string \<times> string \<Rightarrow> string list \<Rightarrow> 's \<Rightarrow> 's"
  AddClientGo :: "'s \<Rightarrow> 's"
  AddApiextV1 :: "'s \<Rightarrow> 's"
  AddApiextV1beta1 :: "'s \<Rightarrow> 's"

definition AddToScheme :: "('s, 'z) scheme_env_scheme \<Rightarrow> 's \<Rightarrow> 's" where
  "AddToScheme E = AddTypes E GroupVersion (init_rest_types @ init_template_types)"

definition init_scheme :: "('s, 'z) scheme_env_scheme \<Rightarrow> 's" where
  "init_scheme E = AddApiextV1beta1 E (AddApiextV1 E (AddToScheme E (AddClientGo E (NewScheme E))))"

locale scheme_laws =
  fixes E :: "('s, 'z) scheme_env_scheme" and kinds :: "'s \<Rightarrow> string \<Rightarrow> (string \<times> string) set"
  assumes added: "t \<in> set ts \<Longrightarrow> gv \<in> kinds (AddTypes E gv ts s) t"
    and kept: "gv \<in> kinds s t \<Longrightarrow> gv \<in> kinds (AddApiextV1 E s) t" "gv \<in> kinds s t \<Longrightarrow> gv \<in> kinds (AddApiextV1beta1 E s) t"
begin

text \<open>Every type that a controller is built for, and its list, is known under the group version of the API.\<close>

lemma recognized:
  "t \<in> {''Template'', ''TemplateList'', ''REST'', ''RESTList''} \<Longrightarrow> GroupVersion \<in> kinds (init_scheme E) t"
  unfolding init_scheme_def AddToScheme_def
  by (intro kept added) (auto simp: init_rest_types_def init_template_types_def)

end

text \<open>A scheme as the list of its known types.\<close>

definition list_scheme :: "((string \<times> string) \<times> string) list scheme_env" where
  "list_scheme = \<lparr>NewScheme = [], AddTypes = (\<lambda>gv ts s. map (Pair gv) ts @ s), AddClientGo = (\<lambda>s. ((''apps'', ''v1''), ''Deployment'') # s),
     AddApiextV1 = (\<lambda>s. ((''apiextensions.k8s.io'', ''v1''), ''CustomResourceDefinition'') # s),
     AddApiextV1beta1 = (\<lambda>s. ((''apiextensions.k8s.io'', ''v1beta1''), ''CustomResourceDefinition'') # s)\<rparr>"

interpretation list_scheme: scheme_laws list_scheme "\<lambda>s t. {gv. (gv, t) \<in> set s}"
  by unfold_locales (auto simp: list_scheme_def)

section \<open>The gauges\<close>

record gauge_vec =
  gv_Name :: string
  gv_Help :: string
  gv_Labels :: "string list"

definition template_gauges :: "gauge_vec list" where
  "template_gauges =
     [\<lparr>gv_Name = ''template_operator_template_count'', gv_Help = ''Total template runs count'', gv_Labels = [''template'']\<rparr>,
      \<lparr>gv_Name = ''template_operator_template_success'', gv_Help = ''Total successful template runs count'', gv_Labels = [''template'']\<rparr>,
      \<lparr>gv_Name = ''template_operator_template_failed'', gv_Help = ''Total failed template runs count'', gv_Labels = [''template'']\<rparr>]"

definition rest_gauges :: "gauge_vec list" where
  "rest_gauges =
     [\<lparr>gv_Name = ''template_operator_rest_count'', gv_Help = ''Total rest runs count'', gv_Labels = [''rest'']\<rparr>,
      \<lparr>gv_Name = ''template_operator_rest_success'', gv_Help = ''Total successful rest runs count'', gv_Labels = [''rest'']\<rparr>,
      \<lparr>gv_Name = ''template_operator_rest_failed'', gv_Help = ''Total failed rest runs count'', gv_Labels = [''test'']\<rparr>]"

text \<open>\<open>metrics.Registry.MustRegister(...)\<close>: one after the other, a panic for the first that is refused.\<close>

fun must_register :: "('r \<Rightarrow> gauge_vec \<Rightarrow> gerror + 'r) \<Rightarrow> gauge_vec list \<Rightarrow> 'r \<Rightarrow> 'r result" where
  "must_register register [] r = Inr r"
| "must_register register (g # gs) r =
     (case register r g of Inl e \<Rightarrow> Inl (Panic (err_text e)) | Inr r' \<Rightarrow> must_register register gs r')"

definition init_metrics :: "('r \<Rightarrow> gauge_vec \<Rightarrow> gerror + 'r) \<Rightarrow> 'r \<Rightarrow> 'r result" where
  "init_metrics register r =
     bindR (must_register register rest_gauges r) (must_register register template_gauges)"

lemma gauge_names:
  "distinct (map gv_Name rest_gauges)" "distinct (map gv_Name template_gauges)"
  "set (map gv_Name template_gauges) \<inter> set (map gv_Name rest_gauges) = {}"
  by code_simp+

text \<open>
  The vector behind each counter that the controllers increment, and how \<open>WithLabelValues\<close> takes
  the values of its labels: as many as the vector has labels, else it panics.
\<close>

instantiation gauge :: enum
begin

definition enum_gauge :: "gauge list" where
  "enum_gauge = [TemplateCount, TemplateSuccess, TemplateFailed, RestCount, RestSuccess, RestFailed]"

definition enum_all_gauge :: "(gauge \<Rightarrow> bool) \<Rightarrow> bool" where
  "enum_all_gauge P = list_all P enum_class.enum"

definition enum_ex_gauge :: "(gauge \<Rightarrow> bool) \<Rightarrow> bool" where
  "enum_ex_gauge P = list_ex P enum_class.enum"

instance
proof
  have all: "g \<in> set enum_class.enum" for g :: gauge by (cases g) (simp_all add: enum_gauge_def)
  show "(UNIV :: gauge set) = set enum_class.enum" using all by blast
  show "distinct (enum_class.enum :: gauge list)" by (simp add: enum_gauge_def)
  show "enum_class.enum_all P = Ball UNIV P" for P :: "gauge \<Rightarrow> bool"
    using all by (auto simp: enum_all_gauge_def list_all_iff)
  show "enum_class.enum_ex P = Bex UNIV P" for P :: "gauge \<Rightarrow> bool"
    using all by (auto simp: enum_ex_gauge_def list_ex_iff)
qed

end

fun gauge_vec_of :: "gauge \<Rightarrow> gauge_vec" where
  "gauge_vec_of TemplateCount = template_gauges ! 0"
| "gauge_vec_of TemplateSuccess = template_gauges ! 1"
| "gauge_vec_of TemplateFailed = template_gauges ! 2"
| "gauge_vec_of RestCount = rest_gauges ! 0"
| "gauge_vec_of RestSuccess = rest_gauges ! 1"
| "gauge_vec_of RestFailed = rest_gauges ! 2"

definition WithLabelValues :: "gauge \<Rightarrow> string list \<Rightarrow> (gauge \<times> string list) result" where
  "WithLabelValues g values =
     (if length values = length (gv_Labels (gauge_vec_of g)) then Inr (g, values)
      else Inl (Panic ''inconsistent label cardinality''))"

lemma gauges_registered: "\<forall>g. gauge_vec_of g \<in> set (rest_gauges @ template_gauges) \<and> length (gv_Labels (gauge_vec_of g)) = 1"
  by code_simp

text \<open>Counting never panics: every counter is a registered vector of one label, and gets one value.\<close>

lemma counting_succeeds: "WithLabelValues g [name] = Inr (g, [name])"
  using gauges_registered by (simp add: WithLabelValues_def)

locale gauge_registry =
  fixes register :: "'r \<Rightarrow> gauge_vec \<Rightarrow> gerror + 'r" and names :: "'r \<Rightarrow> string set"
  assumes new_name: "gv_Name g \<notin> names r \<Longrightarrow> \<exists>r'. register r g = Inr r' \<and> names r' = insert (gv_Name g) (names r)"
begin

lemma registers:
  "distinct (map gv_Name gs) \<Longrightarrow> set (map gv_Name gs) \<inter> names r = {} \<Longrightarrow>
    \<exists>r'. must_register register gs r = Inr r' \<and> names r' = set (map gv_Name gs) \<union> names r"
proof (induction gs arbitrary: r)
  case (Cons g gs)
  then have "gv_Name g \<notin> names r" by simp
  then obtain r1 where r1: "register r g = Inr r1" "names r1 = insert (gv_Name g) (names r)"
    using new_name by blast
  then have "set (map gv_Name gs) \<inter> names r1 = {}" "distinct (map gv_Name gs)" using Cons.prems by auto
  then obtain r2 where "must_register register gs r1 = Inr r2" "names r2 = set (map gv_Name gs) \<union> names r1"
    using Cons.IH by blast
  then show ?case using r1 by auto
qed simp

text \<open>The \<open>init\<close> functions do not panic: the six gauges have different names.\<close>

lemma init_succeeds:
  assumes "set (map gv_Name (rest_gauges @ template_gauges)) \<inter> names r = {}"
  shows "\<exists>r'. init_metrics register r = Inr r'"
proof -
  note d = gauge_names
  obtain r1 where r1: "must_register register rest_gauges r = Inr r1" "names r1 = set (map gv_Name rest_gauges) \<union> names r"
    using registers [OF d(1), of r] assms by auto
  have "set (map gv_Name template_gauges) \<inter> names r1 = {}" using d(3) assms r1(2) by auto
  then obtain r2 where "must_register register template_gauges r1 = Inr r2"
    using registers [OF d(2)] by blast
  then show ?thesis using r1(1) by (simp add: init_metrics_def)
qed

end

definition list_register :: "gauge_vec list \<Rightarrow> gauge_vec \<Rightarrow> gerror + gauge_vec list" where
  "list_register r g = (if gv_Name g \<in> gv_Name ` set r then Inl (Error ''duplicate metrics collector registration attempted'') else Inr (g # r))"

interpretation list_registry: gauge_registry list_register "\<lambda>r. gv_Name ` set r"
  by unfold_locales (auto simp: list_register_def)

end
