(* ===== verification/Memory.thy ===== *)
theory Memory
  imports Prelude
begin

text \<open>
  An explicit store for the parts of the program where Go's pointers, slices and maps matter:
  the generated deep copies and the status map that the REST controller updates in place. A store
  is a list of cells, an address is a position in it, allocating appends a cell. Nil is None. A
  computation is None when it follows an address that holds no cell of its type, which Go's type
  safety excludes.

  The locale \<open>copying\<close> is the contract of a deep copy: what the value reads as, which cells it
  occupies, and that copying allocates only new cells for a value that reads the same. Products,
  references and lists of copied things are copied again.
\<close>

section \<open>Computations on a store\<close>

type_synonym addr = nat
type_synonym 'c store = "'c list"
type_synonym ('c, 'a) mem = "'c store \<Rightarrow> ('a \<times> 'c store) option"

definition retM :: "'a \<Rightarrow> ('c, 'a) mem" where
  "retM x = (\<lambda>h. Some (x, h))"

definition bindM :: "('c, 'a) mem \<Rightarrow> ('a \<Rightarrow> ('c, 'b) mem) \<Rightarrow> ('c, 'b) mem" where
  "bindM m f = (\<lambda>h. case m h of None \<Rightarrow> None | Some (x, h') \<Rightarrow> f x h')"

text \<open>\<open>fetch\<close> reads the cell at an address by the selector of its type.\<close>

definition fetch :: "('c \<Rightarrow> 's option) \<Rightarrow> 'c store \<Rightarrow> addr \<Rightarrow> 's option" where
  "fetch sel h a = (if a < length h then sel (h ! a) else None)"

definition load :: "('c \<Rightarrow> 's option) \<Rightarrow> addr \<Rightarrow> ('c, 's) mem" where
  "load sel a = (\<lambda>h. case fetch sel h a of None \<Rightarrow> None | Some s \<Rightarrow> Some (s, h))"

definition alloc :: "'c \<Rightarrow> ('c, addr) mem" where
  "alloc c = (\<lambda>h. Some (length h, h @ [c]))"

definition assign :: "addr \<Rightarrow> 'c \<Rightarrow> ('c, unit) mem" where
  "assign a c = (\<lambda>h. if a < length h then Some ((), h[a := c]) else None)"

lemma retM_apply [simp]: "retM x h = Some (x, h)"
  by (simp add: retM_def)

lemma bindM_ret [simp]: "bindM (retM x) f = f x"
  by (simp add: bindM_def retM_def)

lemma bindM_ret_right [simp]: "bindM m retM = m"
  by (simp add: bindM_def retM_def fun_eq_iff split: option.split)

lemma bindM_assoc [simp]: "bindM (bindM m f) g = bindM m (\<lambda>x. bindM (f x) g)"
  by (simp add: bindM_def fun_eq_iff split: option.split)

lemma bindM_Some: "m h = Some (x, h') \<Longrightarrow> bindM m f h = f x h'"
  by (simp add: bindM_def)

lemma bindM_eq_Some: "bindM m f h = Some (y, k) \<longleftrightarrow> (\<exists>x h'. m h = Some (x, h') \<and> f x h' = Some (y, k))"
  by (auto simp: bindM_def split: option.splits)

lemma load_eq_Some [simp]: "load sel a h = Some (s, h') \<longleftrightarrow> fetch sel h a = Some s \<and> h' = h"
  by (auto simp: load_def split: option.split)

lemma alloc_apply [simp]: "alloc c h = Some (length h, h @ [c])"
  by (simp add: alloc_def)

lemma fetch_append: "fetch sel h a = Some s \<Longrightarrow> fetch sel (h @ ys) a = Some s"
  by (simp add: fetch_def nth_append split: if_splits)

lemma fetch_new [simp]: "fetch sel (h @ [c]) (length h) = sel c"
  by (simp add: fetch_def)

lemma fetch_less: "fetch sel h a = Some s \<Longrightarrow> a < length h"
  by (simp add: fetch_def split: if_splits)

lemma fetch_same: "fetch sel h a = Some s \<Longrightarrow> a < length k \<Longrightarrow> k ! a = h ! a \<Longrightarrow> fetch sel k a = Some s"
  by (simp add: fetch_def split: if_splits)

text \<open>Two stores agree on a set of cells.\<close>

definition agree :: "addr set \<Rightarrow> 'c store \<Rightarrow> 'c store \<Rightarrow> bool" where
  "agree A h k \<longleftrightarrow> (\<forall>a \<in> A. a < length h \<and> a < length k \<and> k ! a = h ! a)"

lemma agree_Un [simp]: "agree (A \<union> B) h k \<longleftrightarrow> agree A h k \<and> agree B h k"
  by (auto simp: agree_def)

lemma agree_insert: "agree (insert a A) h k \<longleftrightarrow> a < length h \<and> a < length k \<and> k ! a = h ! a \<and> agree A h k"
  by (auto simp: agree_def)

lemma agree_append: "(\<And>a. a \<in> A \<Longrightarrow> a < length h) \<Longrightarrow> agree A h (h @ ys)"
  by (auto simp: agree_def nth_append trans_less_add1)

lemma agree_update: "(\<And>a. a \<in> A \<Longrightarrow> a < length h) \<Longrightarrow> b \<notin> A \<Longrightarrow> agree A h (h[b := c])"
  unfolding agree_def by (metis length_list_update nth_list_update_neq)

section \<open>The contract of a deep copy\<close>

text \<open>
  \<open>view h x\<close> is what \<open>x\<close> reads as in the store \<open>h\<close>, None when it does not read; \<open>cells h x\<close> are
  the addresses that can be reached from \<open>x\<close>.
\<close>

locale copying =
  fixes view :: "'c store \<Rightarrow> 'a \<Rightarrow> 'v option"
    and cells :: "'c store \<Rightarrow> 'a \<Rightarrow> addr set"
    and copy :: "'a \<Rightarrow> ('c, 'a) mem"
  assumes allocated: "view h x = Some v \<Longrightarrow> a \<in> cells h x \<Longrightarrow> a < length h"
    and local_view: "view h x = Some v \<Longrightarrow> agree (cells h x) h k \<Longrightarrow> view k x = Some v"
    and local_cells: "view h x = Some v \<Longrightarrow> agree (cells h x) h k \<Longrightarrow> cells k x = cells h x"
    and copied: "view h x = Some v \<Longrightarrow>
      \<exists>y ys. copy x h = Some (y, h @ ys) \<and> view (h @ ys) y = Some v \<and> (\<forall>a \<in> cells (h @ ys) y. length h \<le> a)"
begin

lemma grown:
  assumes "view h x = Some v"
  shows "view (h @ ys) x = Some v" "cells (h @ ys) x = cells h x"
  using local_view local_cells agree_append allocated assms by metis+

lemma copyE:
  assumes "view h x = Some v"
  obtains y ys where "copy x h = Some (y, h @ ys)" "view (h @ ys) y = Some v" "\<And>a. a \<in> cells (h @ ys) y \<Longrightarrow> length h \<le> a"
  using copied [OF assms] by blast

text \<open>
  The copy and its original share no cell, so whatever is written to the cells of one of them,
  however often, the other still reads the same.
\<close>

lemma separate:
  assumes "view h x = Some v"
  obtains y k where "copy x h = Some (y, k)" "view k y = Some v" "view k x = Some v" "cells k x = cells h x"
    "cells k x \<inter> cells k y = {}"
    "\<And>k'. agree (cells k y) k k' \<Longrightarrow> view k' y = Some v" "\<And>k'. agree (cells k x) k k' \<Longrightarrow> view k' x = Some v"
proof -
  obtain y ys where c: "copy x h = Some (y, h @ ys)" "view (h @ ys) y = Some v"
    "\<And>a. a \<in> cells (h @ ys) y \<Longrightarrow> length h \<le> a"
    using copyE [OF assms] by blast
  moreover have "cells (h @ ys) x \<inter> cells (h @ ys) y = {}"
    using c(3) allocated [OF assms] grown [OF assms] by fastforce
  ultimately show ?thesis
    using that grown [OF assms, of ys] local_view by blast
qed

end

section \<open>Copying by parts\<close>

text \<open>A value without references is copied by assignment.\<close>

definition no_cells :: "'c store \<Rightarrow> 'a \<Rightarrow> addr set" where
  "no_cells h x = {}"

definition plain_view :: "'c store \<Rightarrow> 'a \<Rightarrow> 'a option" where
  "plain_view h x = Some x"

interpretation plain: copying plain_view no_cells retM
  by unfold_locales (auto simp: no_cells_def plain_view_def intro: exI [of _ "[]"])

definition pair_view :: "('c store \<Rightarrow> 'a \<Rightarrow> 'v option) \<Rightarrow> ('c store \<Rightarrow> 'b \<Rightarrow> 'w option) \<Rightarrow> 'c store \<Rightarrow> 'a \<times> 'b \<Rightarrow> ('v \<times> 'w) option" where
  "pair_view V W h p = (case V h (fst p) of None \<Rightarrow> None | Some v \<Rightarrow> map_option (Pair v) (W h (snd p)))"

definition pair_cells :: "('c store \<Rightarrow> 'a \<Rightarrow> addr set) \<Rightarrow> ('c store \<Rightarrow> 'b \<Rightarrow> addr set) \<Rightarrow> 'c store \<Rightarrow> 'a \<times> 'b \<Rightarrow> addr set" where
  "pair_cells F G h p = F h (fst p) \<union> G h (snd p)"

definition pair_copy :: "('a \<Rightarrow> ('c, 'a) mem) \<Rightarrow> ('b \<Rightarrow> ('c, 'b) mem) \<Rightarrow> 'a \<times> 'b \<Rightarrow> ('c, 'a \<times> 'b) mem" where
  "pair_copy C D p = bindM (C (fst p)) (\<lambda>a. bindM (D (snd p)) (\<lambda>b. retM (a, b)))"

lemma pair_view_eq_Some [simp]:
  "pair_view V W h p = Some vw \<longleftrightarrow> V h (fst p) = Some (fst vw) \<and> W h (snd p) = Some (snd vw)"
  by (auto simp: pair_view_def split: option.splits)

lemma copying_pair:
  assumes C: "copying V F C" and D: "copying W G D"
  shows "copying (pair_view V W) (pair_cells F G) (pair_copy C D)"
proof
  fix h k :: "'a store" and p vw
  assume v: "pair_view V W h p = Some vw"
  show "a < length h" if "a \<in> pair_cells F G h p" for a
    using v that by (auto simp: pair_cells_def dest: copying.allocated [OF C] copying.allocated [OF D])
  show "pair_view V W k p = Some vw" if "agree (pair_cells F G h p) h k"
    using v that by (auto simp: pair_cells_def dest: copying.local_view [OF C] copying.local_view [OF D])
  show "pair_cells F G k p = pair_cells F G h p" if "agree (pair_cells F G h p) h k"
    using v that copying.local_cells [OF C] copying.local_cells [OF D]
    by (metis agree_Un pair_cells_def pair_view_eq_Some)
  obtain y ys where y: "C (fst p) h = Some (y, h @ ys)" "V (h @ ys) y = Some (fst vw)"
    "\<And>a. a \<in> F (h @ ys) y \<Longrightarrow> length h \<le> a"
    using v copying.copyE [OF C] by (metis pair_view_eq_Some)
  have "W (h @ ys) (snd p) = Some (snd vw)"
    using v copying.grown(1) [OF D] by simp
  then obtain z zs where z: "D (snd p) (h @ ys) = Some (z, (h @ ys) @ zs)" "W ((h @ ys) @ zs) z = Some (snd vw)"
    "\<And>a. a \<in> G ((h @ ys) @ zs) z \<Longrightarrow> length (h @ ys) \<le> a"
    using copying.copyE [OF D] by metis
  have le: "length h \<le> a" if "a \<in> G ((h @ ys) @ zs) z" for a
    using z(3) [OF that] by simp
  have "V ((h @ ys) @ zs) y = Some (fst vw)" "F ((h @ ys) @ zs) y = F (h @ ys) y"
    using copying.grown [OF C y(2)] by blast+
  then show "\<exists>q ys. pair_copy C D p h = Some (q, h @ ys) \<and> pair_view V W (h @ ys) q = Some vw
      \<and> (\<forall>a \<in> pair_cells F G (h @ ys) q. length h \<le> a)"
    using y(1,3) z(1,2) le by (intro exI [of _ "(y, z)"] exI [of _ "ys @ zs"]) (auto simp: pair_copy_def pair_cells_def bindM_def)
qed

text \<open>
  A struct is copied by its parts: \<open>parts\<close> selects the parts with references, \<open>build\<close> puts the copies
  into the shallow copy \<open>*out = *in\<close>, and \<open>mk\<close> builds what the struct reads as.
\<close>

lemma copying_struct:
  assumes C: "copying V F C" and "\<And>s t. parts (build s t) = t" "\<And>s t. mk (build s t) = mk s"
  shows "copying (\<lambda>h s. map_option (mk s) (V h (parts s))) (\<lambda>h s. F h (parts s)) (\<lambda>s. bindM (C (parts s)) (\<lambda>t. retM (build s t)))"
proof
  fix h k :: "'a store" and s v
  assume "map_option (mk s) (V h (parts s)) = Some v"
  then obtain w where w: "V h (parts s) = Some w" "mk s w = v" by auto
  show "a < length h" if "a \<in> F h (parts s)" for a
    using copying.allocated [OF C w(1) that] .
  show "map_option (mk s) (V k (parts s)) = Some v" if "agree (F h (parts s)) h k"
    using copying.local_view [OF C w(1) that] w(2) by simp
  show "F k (parts s) = F h (parts s)" if "agree (F h (parts s)) h k"
    using copying.local_cells [OF C w(1) that] .
  obtain y ys where "C (parts s) h = Some (y, h @ ys)" "V (h @ ys) y = Some w" "\<And>a. a \<in> F (h @ ys) y \<Longrightarrow> length h \<le> a"
    using copying.copyE [OF C w(1)] by metis
  then show "\<exists>y ys. bindM (C (parts s)) (\<lambda>t. retM (build s t)) h = Some (y, h @ ys)
      \<and> map_option (mk y) (V (h @ ys) (parts y)) = Some v \<and> (\<forall>a \<in> F (h @ ys) (parts y). length h \<le> a)"
    using w(2) assms(2,3) by (intro exI [of _ "build s y"] exI [of _ ys]) (auto simp: bindM_def)
qed

text \<open>A pointer, a slice or a map: nil, or the address of a cell.\<close>

definition ref_view :: "('c \<Rightarrow> 's option) \<Rightarrow> ('c store \<Rightarrow> 's \<Rightarrow> 'v option) \<Rightarrow> 'c store \<Rightarrow> addr option \<Rightarrow> 'v option option" where
  "ref_view sel V h p =
     (case p of
        None \<Rightarrow> Some None
      | Some a \<Rightarrow> (case fetch sel h a of None \<Rightarrow> None | Some s \<Rightarrow> map_option Some (V h s)))"

definition ref_cells :: "('c \<Rightarrow> 's option) \<Rightarrow> ('c store \<Rightarrow> 's \<Rightarrow> addr set) \<Rightarrow> 'c store \<Rightarrow> addr option \<Rightarrow> addr set" where
  "ref_cells sel F h p =
     (case p of
        None \<Rightarrow> {}
      | Some a \<Rightarrow> insert a (case fetch sel h a of None \<Rightarrow> {} | Some s \<Rightarrow> F h s))"

text \<open>
  The generated code for such a field: nil is kept; otherwise a new object is made and the content
  is copied into it. The new object is known to nobody else until the function returns, so it is
  allocated here together with its content.
\<close>

definition copy_ref :: "('c \<Rightarrow> 's option) \<Rightarrow> ('s \<Rightarrow> 'c) \<Rightarrow> ('s \<Rightarrow> ('c, 's) mem) \<Rightarrow> addr option \<Rightarrow> ('c, addr option) mem" where
  "copy_ref sel mk C p =
     (case p of
        None \<Rightarrow> retM None
      | Some a \<Rightarrow> bindM (load sel a) (\<lambda>s. bindM (C s) (\<lambda>t. bindM (alloc (mk t)) (\<lambda>b. retM (Some b)))))"

lemma copying_ref:
  assumes C: "copying V F C" and sel: "\<And>t. sel (mk t) = Some t"
  shows "copying (ref_view sel V) (ref_cells sel F) (copy_ref sel mk C)"
proof
  fix h k :: "'a store" and p v
  assume v: "ref_view sel V h p = Some v"
  show "a < length h" if "a \<in> ref_cells sel F h p" for a
    using v that
    by (auto simp: ref_view_def ref_cells_def fetch_less split: option.splits dest: copying.allocated [OF C])
  have same: "ref_view sel V k p = Some v \<and> ref_cells sel F k p = ref_cells sel F h p" if g: "agree (ref_cells sel F h p) h k"
  proof (cases p)
    case None
    then show ?thesis using v by (simp add: ref_view_def ref_cells_def)
  next
    case (Some a)
    then obtain s w where s: "fetch sel h a = Some s" "V h s = Some w" "v = Some w"
      using v by (auto simp: ref_view_def split: option.splits)
    have "a < length k" "k ! a = h ! a" "agree (F h s) h k"
      using g Some s(1) by (simp_all add: ref_cells_def agree_insert)
    then have "fetch sel k a = Some s" "V k s = Some w" "F k s = F h s"
      using s fetch_same copying.local_view [OF C] copying.local_cells [OF C] by metis+
    then show ?thesis using Some s by (simp add: ref_view_def ref_cells_def)
  qed
  then show "agree (ref_cells sel F h p) h k \<Longrightarrow> ref_view sel V k p = Some v"
    "agree (ref_cells sel F h p) h k \<Longrightarrow> ref_cells sel F k p = ref_cells sel F h p" by blast+
  show "\<exists>y ys. copy_ref sel mk C p h = Some (y, h @ ys) \<and> ref_view sel V (h @ ys) y = Some v
      \<and> (\<forall>a \<in> ref_cells sel F (h @ ys) y. length h \<le> a)"
  proof (cases p)
    case None
    then show ?thesis using v
      by (intro exI [of _ None] exI [of _ "[]"]) (simp add: copy_ref_def ref_view_def ref_cells_def)
  next
    case (Some a)
    then obtain s w where s: "fetch sel h a = Some s" "V h s = Some w" and vw: "v = Some w"
      using v by (auto simp: ref_view_def split: option.splits)
    obtain t ts where t: "C s h = Some (t, h @ ts)" "V (h @ ts) t = Some w" "\<And>a. a \<in> F (h @ ts) t \<Longrightarrow> length h \<le> a"
      using copying.copyE [OF C s(2)] by metis
    let ?k = "(h @ ts) @ [mk t]" and ?b = "length (h @ ts)"
    have "V ?k t = Some w" "F ?k t = F (h @ ts) t"
      using copying.grown [OF C t(2)] by blast+
    moreover have "fetch sel ?k ?b = Some t" by (simp only: fetch_new sel)
    moreover have "copy_ref sel mk C p h = Some (Some ?b, ?k)"
      using Some s(1) t(1) by (simp add: copy_ref_def bindM_def load_def)
    ultimately show ?thesis using t(3) vw
      by (intro exI [of _ "Some ?b"] exI [of _ "ts @ [mk t]"]) (auto simp: ref_view_def ref_cells_def)
  qed
qed

text \<open>The elements of a slice, one after the other: \<open>for i := range *in { (*in)[i].DeepCopyInto(&(*out)[i]) }\<close>.\<close>

fun list_view :: "('c store \<Rightarrow> 's \<Rightarrow> 'v option) \<Rightarrow> 'c store \<Rightarrow> 's list \<Rightarrow> 'v list option" where
  "list_view V h [] = Some []"
| "list_view V h (s # ss) = (case V h s of None \<Rightarrow> None | Some v \<Rightarrow> map_option (Cons v) (list_view V h ss))"

definition list_cells :: "('c store \<Rightarrow> 's \<Rightarrow> addr set) \<Rightarrow> 'c store \<Rightarrow> 's list \<Rightarrow> addr set" where
  "list_cells F h ss = (\<Union>s \<in> set ss. F h s)"

fun copy_list :: "('s \<Rightarrow> ('c, 's) mem) \<Rightarrow> 's list \<Rightarrow> ('c, 's list) mem" where
  "copy_list C [] = retM []"
| "copy_list C (s # ss) = bindM (C s) (\<lambda>t. bindM (copy_list C ss) (\<lambda>ts. retM (t # ts)))"

lemma list_cells_simps [simp]: "list_cells F h [] = {}" "list_cells F h (s # ss) = F h s \<union> list_cells F h ss"
  by (auto simp: list_cells_def)

lemma copying_list:
  assumes C: "copying V F C"
  shows "copying (list_view V) (list_cells F) (copy_list C)"
proof
  note view_splits = option.splits
  show "a < length h" if "list_view V h ss = Some v" "a \<in> list_cells F h ss" for h ss v a
    using that by (induction ss arbitrary: v) (auto split: view_splits dest: copying.allocated [OF C])
  show "list_view V k ss = Some v" if "list_view V h ss = Some v" "agree (list_cells F h ss) h k" for h k ss v
    using that by (induction ss arbitrary: v) (auto split: view_splits dest: copying.local_view [OF C])
  show same: "list_cells F k ss = list_cells F h ss"
    if "list_view V h ss = Some v" "agree (list_cells F h ss) h k" for h k ss v
    using that
  proof (induction ss arbitrary: v)
    case (Cons s ss)
    then obtain w ws where "V h s = Some w" "list_view V h ss = Some ws" by (auto split: view_splits)
    then show ?case using Cons copying.local_cells [OF C] by (metis agree_Un list_cells_simps(2))
  qed simp
  show "\<exists>y ys. copy_list C ss h = Some (y, h @ ys) \<and> list_view V (h @ ys) y = Some v
      \<and> (\<forall>a \<in> list_cells F (h @ ys) y. length h \<le> a)" if "list_view V h ss = Some v" for h ss v
    using that
  proof (induction ss arbitrary: h v)
    case Nil
    then show ?case by (intro exI [of _ "[]"]) simp
  next
    case (Cons s ss)
    then obtain w ws where w: "V h s = Some w" "list_view V h ss = Some ws" "v = w # ws"
      by (auto split: view_splits)
    obtain t ts where t: "C s h = Some (t, h @ ts)" "V (h @ ts) t = Some w" "\<And>a. a \<in> F (h @ ts) t \<Longrightarrow> length h \<le> a"
      using copying.copyE [OF C w(1)] by metis
    have "list_view V (h @ ts) ss = Some ws"
      using w(2)
    proof (induction ss arbitrary: ws)
      case (Cons a as)
      then show ?case by (auto split: view_splits simp: copying.grown [OF C])
    qed simp
    then obtain us zs where u: "copy_list C ss (h @ ts) = Some (us, (h @ ts) @ zs)" "list_view V ((h @ ts) @ zs) us = Some ws"
      "\<And>a. a \<in> list_cells F ((h @ ts) @ zs) us \<Longrightarrow> length (h @ ts) \<le> a"
      using Cons.IH by metis
    have le: "length h \<le> a" if "a \<in> list_cells F ((h @ ts) @ zs) us" for a
      using u(3) [OF that] by simp
    have "V ((h @ ts) @ zs) t = Some w" "F ((h @ ts) @ zs) t = F (h @ ts) t"
      using copying.grown [OF C t(2)] by blast+
    then show ?case
      using w(3) t(1,3) u(1,2) le by (intro exI [of _ "t # us"] exI [of _ "ts @ zs"]) (auto simp: bindM_def)
  qed
qed

text \<open>A \<open>map[string]string\<close>: the entries are put into a new map, one after the other.\<close>

lemma map_put_all_append: "map_wf (acc @ m) \<Longrightarrow> map_put_all acc m = acc @ m"
proof (induction acc m rule: map_put_all.induct)
  case (2 acc k v us)
  then have "k \<notin> fst ` set acc" by (auto simp: map_wf_def)
  then have "AList.update k v acc = acc @ [(k, v)]"
    by (induction acc) auto
  then show ?case using 2 by simp
qed simp

lemma map_put_all_new [simp]: "map_wf m \<Longrightarrow> map_put_all [] m = m"
  using map_put_all_append [of "[]" m] by simp

definition entries_view :: "'c store \<Rightarrow> string gmap \<Rightarrow> string gmap option" where
  "entries_view h m = (if map_wf m then Some m else None)"

definition copy_entries :: "string gmap \<Rightarrow> ('c, string gmap) mem" where
  "copy_entries m = retM (map_put_all [] m)"

interpretation entries: copying entries_view no_cells copy_entries
  by unfold_locales
    (auto simp: no_cells_def entries_view_def copy_entries_def split: if_splits intro: exI [of _ "[]"])

end
