(* ===== verification/DeepCopy.thy ===== *)
theory DeepCopy
  imports Memory Types
begin

text \<open>
  \<open>api/v1/zz_generated.deepcopy.go\<close>: the deep copies of the API types, over an explicit store. The
  structs are records over the representation of their references: in the store an address or
  nil (\<open>addr option\<close>), in what a struct reads as the thing behind it. A slice is the address of
  its backing array, which no other slice shares in part.

  The types of other packages (\<open>ObjectMeta\<close>, \<open>ListMeta\<close>, \<open>LabelSelector\<close>, \<open>kommons.EnvVarSource\<close>,
  \<open>runtime.RawExtension\<close>) are values of a type \<open>'x\<close>; their \<open>DeepCopyInto\<close> functions are fields of
  \<open>externals\<close>, and the locale \<open>external_copies\<close> asks that they are deep copies themselves.
\<close>

section \<open>Structs\<close>

type_synonym type_meta = "string \<times> string" \<comment> \<open>kind and API version\<close>

record ('strings, 'selector) copy_to_namespaces_of =
  of_Namespaces :: 'strings
  of_NamespaceSelector :: 'selector

record object_selector =
  os_Kind :: string
  os_APIVersion :: string

record ('git, 'x, 'map) resource_selector_of =
  of_GitRepository :: 'git
  of_LabelSelector :: 'x
  of_SelNamespaceSelector :: 'x
  of_AnnotationSelector :: 'map
  of_FieldSelector :: string
  of_APIVersion :: string
  of_Kind :: string

record ('selector, 'raws, 'strings, 'jsons, 'copyto) template_spec_of =
  of_Source :: 'selector
  of_PatchTarget :: 'selector
  of_Resources :: 'raws
  of_ResourcesTemplate :: string
  of_Patches :: 'strings
  of_JsonPatches :: 'jsons
  of_CopyToNamespaces :: 'copyto
  of_Onceoff :: bool

text \<open>\<open>TemplateStatus\<close> has no fields.\<close>

record ('x, 'spec) template_of =
  of_TemplateType :: type_meta
  of_TemplateMeta :: 'x
  of_TemplateSpec :: 'spec
  of_TemplateStatus :: unit

record 'map rest_action_of =
  of_Method :: string
  of_ActionURL :: string
  of_Body :: string
  of_ActionStatus :: 'map

record 'x rest_auth_of =
  of_Username :: 'x
  of_Password :: 'x
  of_AuthNamespace :: string

record ('auth, 'map, 'action) rest_spec_of =
  of_URL :: string
  of_Auth :: 'auth
  of_Headers :: 'map
  of_Update :: 'action
  of_Remove :: 'action

record ('x, 'spec, 'map) rest_of =
  of_RestType :: type_meta
  of_RestMeta :: 'x
  of_RestSpec :: 'spec
  of_RestStatus :: 'map

record ('x, 'items) object_list_of =
  of_ListType :: type_meta
  of_ListMeta :: 'x
  of_Items :: 'items

text \<open>The structs as they lie in the store.\<close>

type_synonym copy_to_namespaces_st = "(addr option, addr option) copy_to_namespaces_of"
type_synonym 'x resource_selector_st = "(addr option, 'x, addr option) resource_selector_of"
type_synonym 'x template_spec_st = "('x resource_selector_st, addr option, addr option, addr option, addr option) template_spec_of"
type_synonym 'x template_st = "('x, 'x template_spec_st) template_of"
type_synonym rest_action_st = "addr option rest_action_of"
type_synonym rest_spec_st = "(addr option, addr option, rest_action_st) rest_spec_of"
type_synonym 'x rest_st = "('x, rest_spec_st, addr option) rest_of"
type_synonym 'x object_list_st = "('x, addr option) object_list_of"

text \<open>What a cell holds: one variable of a type, the array of a slice, or a map.\<close>

datatype 'x cell =
    is_Strings: StringsCell (strings_of: "string list")
  | is_StringMap: StringMapCell (map_of_cell: "string gmap")
  | is_Selector: SelectorCell (selector_of: 'x)
  | is_Raws: RawsCell (raws_of: "'x list")
  | is_JsonPatches: JsonPatchesCell (json_patches_of: "json_patch list")
  | is_CopyTo: CopyToCell (copy_to_of: copy_to_namespaces_st)
  | is_Git: GitCell (git_of: git_repository)
  | is_JsonPatch: JsonPatchCell (json_patch_of: json_patch)
  | is_ObjectSelector: ObjectSelectorCell (object_selector_of: object_selector)
  | is_ResourceSelector: ResourceSelectorCell (resource_selector_of: "'x resource_selector_st")
  | is_TemplateSpec: TemplateSpecCell (template_spec_of: "'x template_spec_st")
  | is_TemplateStatus: TemplateStatusCell (template_status_of: unit)
  | is_Template: TemplateCell (template_of: "'x template_st")
  | is_Templates: TemplatesCell (templates_of: "'x template_st list")
  | is_TemplateList: TemplateListCell (template_list_of: "'x object_list_st")
  | is_Action: ActionCell (action_of: rest_action_st)
  | is_Auth: AuthCell (auth_of: "'x rest_auth_of")
  | is_RestSpec: RestSpecCell (rest_spec_of: rest_spec_st)
  | is_Rest: RestCell (rest_of: "'x rest_st")
  | is_Rests: RestsCell (rests_of: "'x rest_st list")
  | is_RestList: RestListCell (rest_list_of: "'x object_list_st")

definition typed :: "('c \<Rightarrow> bool) \<Rightarrow> ('c \<Rightarrow> 's) \<Rightarrow> 'c \<Rightarrow> 's option" where
  "typed is sel c = (if is c then Some (sel c) else None)"

section \<open>The generated functions\<close>

record 'x externals =
  ObjectMeta_DeepCopyInto :: "'x \<Rightarrow> ('x cell, 'x) mem"
  ListMeta_DeepCopyInto :: "'x \<Rightarrow> ('x cell, 'x) mem"
  LabelSelector_DeepCopyInto :: "'x \<Rightarrow> ('x cell, 'x) mem"
  EnvVarSource_DeepCopyInto :: "'x \<Rightarrow> ('x cell, 'x) mem"
  RawExtension_DeepCopyInto :: "'x \<Rightarrow> ('x cell, 'x) mem"

text \<open>
  The two blocks that the generator repeats: a \<open>[]string\<close> by \<open>make\<close> and \<open>copy\<close>, a
  \<open>map[string]string\<close> by \<open>make\<close> and a loop.
\<close>

definition copy_strings :: "addr option \<Rightarrow> ('x cell, addr option) mem" where
  "copy_strings = copy_ref (typed is_Strings strings_of) StringsCell retM"

definition copy_string_map :: "addr option \<Rightarrow> ('x cell, addr option) mem" where
  "copy_string_map = copy_ref (typed is_StringMap map_of_cell) StringMapCell copy_entries"

text \<open>
  \<open>T_DeepCopyInto\<close> takes the struct \<open>*in\<close> and returns the struct \<open>*out\<close>: the update of \<open>in\<close> stands for
  the assignment \<open>*out = *in\<close> and those after it, so a field that no assignment names keeps the
  reference of \<open>in\<close>. \<open>T_DeepCopy\<close> takes and returns a pointer.
\<close>

definition CopyToNamespaces_DeepCopyInto :: "'x externals \<Rightarrow> copy_to_namespaces_st \<Rightarrow> ('x cell, copy_to_namespaces_st) mem" where
  "CopyToNamespaces_DeepCopyInto X i =
     bindM (copy_strings (of_Namespaces i)) (\<lambda>namespaces.
     bindM (copy_ref (typed is_Selector selector_of) SelectorCell (LabelSelector_DeepCopyInto X) (of_NamespaceSelector i)) (\<lambda>selector.
     retM (i\<lparr>of_Namespaces := namespaces, of_NamespaceSelector := selector\<rparr>)))"

definition CopyToNamespaces_DeepCopy :: "'x externals \<Rightarrow> addr option \<Rightarrow> ('x cell, addr option) mem" where
  "CopyToNamespaces_DeepCopy X = copy_ref (typed is_CopyTo copy_to_of) CopyToCell (CopyToNamespaces_DeepCopyInto X)"

definition GitRepository_DeepCopyInto :: "git_repository \<Rightarrow> ('x cell, git_repository) mem" where
  "GitRepository_DeepCopyInto i = retM i"

definition GitRepository_DeepCopy :: "addr option \<Rightarrow> ('x cell, addr option) mem" where
  "GitRepository_DeepCopy = copy_ref (typed is_Git git_of) GitCell GitRepository_DeepCopyInto"

definition JsonPatch_DeepCopyInto :: "json_patch \<Rightarrow> ('x cell, json_patch) mem" where
  "JsonPatch_DeepCopyInto i = retM (i\<lparr>patch_Object := patch_Object i\<rparr>)"

definition JsonPatch_DeepCopy :: "addr option \<Rightarrow> ('x cell, addr option) mem" where
  "JsonPatch_DeepCopy = copy_ref (typed is_JsonPatch json_patch_of) JsonPatchCell JsonPatch_DeepCopyInto"

definition ObjectSelector_DeepCopyInto :: "object_selector \<Rightarrow> ('x cell, object_selector) mem" where
  "ObjectSelector_DeepCopyInto i = retM i"

definition ObjectSelector_DeepCopy :: "addr option \<Rightarrow> ('x cell, addr option) mem" where
  "ObjectSelector_DeepCopy = copy_ref (typed is_ObjectSelector object_selector_of) ObjectSelectorCell ObjectSelector_DeepCopyInto"

definition RESTAction_DeepCopyInto :: "rest_action_st \<Rightarrow> ('x cell, rest_action_st) mem" where
  "RESTAction_DeepCopyInto i =
     bindM (copy_string_map (of_ActionStatus i)) (\<lambda>status. retM (i\<lparr>of_ActionStatus := status\<rparr>))"

definition RESTAction_DeepCopy :: "addr option \<Rightarrow> ('x cell, addr option) mem" where
  "RESTAction_DeepCopy = copy_ref (typed is_Action action_of) ActionCell RESTAction_DeepCopyInto"

definition RESTAuth_DeepCopyInto :: "'x externals \<Rightarrow> 'x rest_auth_of \<Rightarrow> ('x cell, 'x rest_auth_of) mem" where
  "RESTAuth_DeepCopyInto X i =
     bindM (EnvVarSource_DeepCopyInto X (of_Username i)) (\<lambda>username.
     bindM (EnvVarSource_DeepCopyInto X (of_Password i)) (\<lambda>password.
     retM (i\<lparr>of_Username := username, of_Password := password\<rparr>)))"

definition RESTAuth_DeepCopy :: "'x externals \<Rightarrow> addr option \<Rightarrow> ('x cell, addr option) mem" where
  "RESTAuth_DeepCopy X = copy_ref (typed is_Auth auth_of) AuthCell (RESTAuth_DeepCopyInto X)"

definition RESTSpec_DeepCopyInto :: "'x externals \<Rightarrow> rest_spec_st \<Rightarrow> ('x cell, rest_spec_st) mem" where
  "RESTSpec_DeepCopyInto X i =
     bindM (copy_ref (typed is_Auth auth_of) AuthCell (RESTAuth_DeepCopyInto X) (of_Auth i)) (\<lambda>auth.
     bindM (copy_string_map (of_Headers i)) (\<lambda>headers.
     bindM (RESTAction_DeepCopyInto (of_Update i)) (\<lambda>update.
     bindM (RESTAction_DeepCopyInto (of_Remove i)) (\<lambda>remove.
     retM (i\<lparr>of_Auth := auth, of_Headers := headers, of_Update := update, of_Remove := remove\<rparr>)))))"

definition RESTSpec_DeepCopy :: "'x externals \<Rightarrow> addr option \<Rightarrow> ('x cell, addr option) mem" where
  "RESTSpec_DeepCopy X = copy_ref (typed is_RestSpec rest_spec_of) RestSpecCell (RESTSpec_DeepCopyInto X)"

definition REST_DeepCopyInto :: "'x externals \<Rightarrow> 'x rest_st \<Rightarrow> ('x cell, 'x rest_st) mem" where
  "REST_DeepCopyInto X i =
     bindM (ObjectMeta_DeepCopyInto X (of_RestMeta i)) (\<lambda>meta.
     bindM (RESTSpec_DeepCopyInto X (of_RestSpec i)) (\<lambda>spec.
     bindM (copy_string_map (of_RestStatus i)) (\<lambda>status.
     retM (i\<lparr>of_RestType := of_RestType i, of_RestMeta := meta, of_RestSpec := spec, of_RestStatus := status\<rparr>))))"

definition REST_DeepCopy :: "'x externals \<Rightarrow> addr option \<Rightarrow> ('x cell, addr option) mem" where
  "REST_DeepCopy X = copy_ref (typed is_Rest rest_of) RestCell (REST_DeepCopyInto X)"

definition RESTList_DeepCopyInto :: "'x externals \<Rightarrow> 'x object_list_st \<Rightarrow> ('x cell, 'x object_list_st) mem" where
  "RESTList_DeepCopyInto X i =
     bindM (ListMeta_DeepCopyInto X (of_ListMeta i)) (\<lambda>meta.
     bindM (copy_ref (typed is_Rests rests_of) RestsCell (copy_list (REST_DeepCopyInto X)) (of_Items i)) (\<lambda>items.
     retM (i\<lparr>of_ListType := of_ListType i, of_ListMeta := meta, of_Items := items\<rparr>)))"

definition RESTList_DeepCopy :: "'x externals \<Rightarrow> addr option \<Rightarrow> ('x cell, addr option) mem" where
  "RESTList_DeepCopy X = copy_ref (typed is_RestList rest_list_of) RestListCell (RESTList_DeepCopyInto X)"

definition ResourceSelector_DeepCopyInto :: "'x externals \<Rightarrow> 'x resource_selector_st \<Rightarrow> ('x cell, 'x resource_selector_st) mem" where
  "ResourceSelector_DeepCopyInto X i =
     bindM (copy_ref (typed is_Git git_of) GitCell retM (of_GitRepository i)) (\<lambda>git.
     bindM (LabelSelector_DeepCopyInto X (of_LabelSelector i)) (\<lambda>labels.
     bindM (LabelSelector_DeepCopyInto X (of_SelNamespaceSelector i)) (\<lambda>namespaces.
     bindM (copy_string_map (of_AnnotationSelector i)) (\<lambda>annotations.
     retM (i\<lparr>of_GitRepository := git, of_LabelSelector := labels, of_SelNamespaceSelector := namespaces,
             of_AnnotationSelector := annotations\<rparr>)))))"

definition ResourceSelector_DeepCopy :: "'x externals \<Rightarrow> addr option \<Rightarrow> ('x cell, addr option) mem" where
  "ResourceSelector_DeepCopy X =
     copy_ref (typed is_ResourceSelector resource_selector_of) ResourceSelectorCell (ResourceSelector_DeepCopyInto X)"

definition TemplateSpec_DeepCopyInto :: "'x externals \<Rightarrow> 'x template_spec_st \<Rightarrow> ('x cell, 'x template_spec_st) mem" where
  "TemplateSpec_DeepCopyInto X i =
     bindM (ResourceSelector_DeepCopyInto X (of_Source i)) (\<lambda>source.
     bindM (ResourceSelector_DeepCopyInto X (of_PatchTarget i)) (\<lambda>target.
     bindM (copy_ref (typed is_Raws raws_of) RawsCell (copy_list (RawExtension_DeepCopyInto X)) (of_Resources i)) (\<lambda>raws.
     bindM (copy_strings (of_Patches i)) (\<lambda>patches.
     bindM (copy_ref (typed is_JsonPatches json_patches_of) JsonPatchesCell retM (of_JsonPatches i)) (\<lambda>jsons.
     bindM (copy_ref (typed is_CopyTo copy_to_of) CopyToCell (CopyToNamespaces_DeepCopyInto X) (of_CopyToNamespaces i)) (\<lambda>copyto.
     retM (i\<lparr>of_Source := source, of_PatchTarget := target, of_Resources := raws, of_Patches := patches,
             of_JsonPatches := jsons, of_CopyToNamespaces := copyto\<rparr>)))))))"

definition TemplateSpec_DeepCopy :: "'x externals \<Rightarrow> addr option \<Rightarrow> ('x cell, addr option) mem" where
  "TemplateSpec_DeepCopy X = copy_ref (typed is_TemplateSpec template_spec_of) TemplateSpecCell (TemplateSpec_DeepCopyInto X)"

definition TemplateStatus_DeepCopyInto :: "unit \<Rightarrow> ('x cell, unit) mem" where
  "TemplateStatus_DeepCopyInto i = retM i"

definition TemplateStatus_DeepCopy :: "addr option \<Rightarrow> ('x cell, addr option) mem" where
  "TemplateStatus_DeepCopy = copy_ref (typed is_TemplateStatus template_status_of) TemplateStatusCell TemplateStatus_DeepCopyInto"

definition Template_DeepCopyInto :: "'x externals \<Rightarrow> 'x template_st \<Rightarrow> ('x cell, 'x template_st) mem" where
  "Template_DeepCopyInto X i =
     bindM (ObjectMeta_DeepCopyInto X (of_TemplateMeta i)) (\<lambda>meta.
     bindM (TemplateSpec_DeepCopyInto X (of_TemplateSpec i)) (\<lambda>spec.
     retM (i\<lparr>of_TemplateType := of_TemplateType i, of_TemplateMeta := meta, of_TemplateSpec := spec,
             of_TemplateStatus := of_TemplateStatus i\<rparr>)))"

definition Template_DeepCopy :: "'x externals \<Rightarrow> addr option \<Rightarrow> ('x cell, addr option) mem" where
  "Template_DeepCopy X = copy_ref (typed is_Template template_of) TemplateCell (Template_DeepCopyInto X)"

definition TemplateList_DeepCopyInto :: "'x externals \<Rightarrow> 'x object_list_st \<Rightarrow> ('x cell, 'x object_list_st) mem" where
  "TemplateList_DeepCopyInto X i =
     bindM (ListMeta_DeepCopyInto X (of_ListMeta i)) (\<lambda>meta.
     bindM (copy_ref (typed is_Templates templates_of) TemplatesCell (copy_list (Template_DeepCopyInto X)) (of_Items i)) (\<lambda>items.
     retM (i\<lparr>of_ListType := of_ListType i, of_ListMeta := meta, of_Items := items\<rparr>)))"

definition TemplateList_DeepCopy :: "'x externals \<Rightarrow> addr option \<Rightarrow> ('x cell, addr option) mem" where
  "TemplateList_DeepCopy X = copy_ref (typed is_TemplateList template_list_of) TemplateListCell (TemplateList_DeepCopyInto X)"

text \<open>
  \<open>DeepCopyObject\<close> returns an interface: its test keeps a nil pointer from becoming an interface
  that holds a nil pointer and is not nil itself.
\<close>

datatype runtime_object = RestObject addr | RestListObject addr | TemplateObject addr | TemplateListObject addr

definition as_object :: "(addr \<Rightarrow> runtime_object) \<Rightarrow> addr option \<Rightarrow> ('c, runtime_object option) mem" where
  "as_object ob c = (case c of None \<Rightarrow> retM None | Some a \<Rightarrow> retM (Some (ob a)))"

definition REST_DeepCopyObject :: "'x externals \<Rightarrow> addr option \<Rightarrow> ('x cell, runtime_object option) mem" where
  "REST_DeepCopyObject X i = bindM (REST_DeepCopy X i) (as_object RestObject)"

definition RESTList_DeepCopyObject :: "'x externals \<Rightarrow> addr option \<Rightarrow> ('x cell, runtime_object option) mem" where
  "RESTList_DeepCopyObject X i = bindM (RESTList_DeepCopy X i) (as_object RestListObject)"

definition Template_DeepCopyObject :: "'x externals \<Rightarrow> addr option \<Rightarrow> ('x cell, runtime_object option) mem" where
  "Template_DeepCopyObject X i = bindM (Template_DeepCopy X i) (as_object TemplateObject)"

definition TemplateList_DeepCopyObject :: "'x externals \<Rightarrow> addr option \<Rightarrow> ('x cell, runtime_object option) mem" where
  "TemplateList_DeepCopyObject X i = bindM (TemplateList_DeepCopy X i) (as_object TemplateListObject)"

section \<open>What the structs read as\<close>

definition strings_view :: "'x cell store \<Rightarrow> addr option \<Rightarrow> string list option option" where
  "strings_view = ref_view (typed is_Strings strings_of) plain_view"

definition strings_cells :: "'x cell store \<Rightarrow> addr option \<Rightarrow> addr set" where
  "strings_cells = ref_cells (typed is_Strings strings_of) no_cells"

definition string_map_view :: "'x cell store \<Rightarrow> addr option \<Rightarrow> string gmap option option" where
  "string_map_view = ref_view (typed is_StringMap map_of_cell) entries_view"

definition string_map_cells :: "'x cell store \<Rightarrow> addr option \<Rightarrow> addr set" where
  "string_map_cells = ref_cells (typed is_StringMap map_of_cell) no_cells"

type_synonym ('x, 'v) viewer = "'x cell store \<Rightarrow> 'x \<Rightarrow> 'v option" \<comment> \<open>of the types of other packages\<close>
type_synonym 'x footprint = "'x cell store \<Rightarrow> 'x \<Rightarrow> addr set"

type_synonym 'v copy_to_namespaces_val = "(string list option, 'v option) copy_to_namespaces_of"
type_synonym 'v resource_selector_val = "(git_repository option, 'v, string gmap option) resource_selector_of"
type_synonym 'v template_spec_val =
  "('v resource_selector_val, 'v list option, string list option, json_patch list option, 'v copy_to_namespaces_val option) template_spec_of"
type_synonym rest_action_val = "string gmap option rest_action_of"
type_synonym 'v rest_spec_val = "('v rest_auth_of option, string gmap option, rest_action_val) rest_spec_of"
type_synonym 'v rest_val = "('v, 'v rest_spec_val, string gmap option) rest_of"
type_synonym 'v template_val = "('v, 'v template_spec_val) template_of"

definition copy_to_view :: "('x, 'v) viewer \<Rightarrow> 'x cell store \<Rightarrow> copy_to_namespaces_st \<Rightarrow> 'v copy_to_namespaces_val option" where
  "copy_to_view V h i = map_option (\<lambda>t. \<lparr>of_Namespaces = fst t, of_NamespaceSelector = snd t\<rparr>)
     (pair_view strings_view (ref_view (typed is_Selector selector_of) V) h (of_Namespaces i, of_NamespaceSelector i))"

definition copy_to_cells :: "'x footprint \<Rightarrow> 'x cell store \<Rightarrow> copy_to_namespaces_st \<Rightarrow> addr set" where
  "copy_to_cells F h i =
     pair_cells strings_cells (ref_cells (typed is_Selector selector_of) F) h (of_Namespaces i, of_NamespaceSelector i)"

definition action_view :: "'x cell store \<Rightarrow> rest_action_st \<Rightarrow> rest_action_val option" where
  "action_view h i = map_option
     (\<lambda>m. \<lparr>of_Method = of_Method i, of_ActionURL = of_ActionURL i, of_Body = of_Body i, of_ActionStatus = m\<rparr>)
     (string_map_view h (of_ActionStatus i))"

definition action_cells :: "'x cell store \<Rightarrow> rest_action_st \<Rightarrow> addr set" where
  "action_cells h i = string_map_cells h (of_ActionStatus i)"

definition auth_view :: "('x, 'v) viewer \<Rightarrow> 'x cell store \<Rightarrow> 'x rest_auth_of \<Rightarrow> 'v rest_auth_of option" where
  "auth_view V h i = map_option
     (\<lambda>t. \<lparr>of_Username = fst t, of_Password = snd t, of_AuthNamespace = of_AuthNamespace i\<rparr>)
     (pair_view V V h (of_Username i, of_Password i))"

definition auth_cells :: "'x footprint \<Rightarrow> 'x cell store \<Rightarrow> 'x rest_auth_of \<Rightarrow> addr set" where
  "auth_cells F h i = pair_cells F F h (of_Username i, of_Password i)"

definition rest_spec_view :: "('x, 'v) viewer \<Rightarrow> 'x cell store \<Rightarrow> rest_spec_st \<Rightarrow> 'v rest_spec_val option" where
  "rest_spec_view V h i = map_option
     (\<lambda>(auth, headers, update, remove).
        \<lparr>of_URL = of_URL i, of_Auth = auth, of_Headers = headers, of_Update = update, of_Remove = remove\<rparr>)
     (pair_view (ref_view (typed is_Auth auth_of) (auth_view V)) (pair_view string_map_view (pair_view action_view action_view)) h
        (of_Auth i, of_Headers i, of_Update i, of_Remove i))"

definition rest_spec_cells :: "'x footprint \<Rightarrow> 'x cell store \<Rightarrow> rest_spec_st \<Rightarrow> addr set" where
  "rest_spec_cells F h i =
     pair_cells (ref_cells (typed is_Auth auth_of) (auth_cells F)) (pair_cells string_map_cells (pair_cells action_cells action_cells)) h
       (of_Auth i, of_Headers i, of_Update i, of_Remove i)"

definition rest_view :: "('x, 'v) viewer \<Rightarrow> 'x cell store \<Rightarrow> 'x rest_st \<Rightarrow> 'v rest_val option" where
  "rest_view V h i = map_option
     (\<lambda>(meta, spec, status). \<lparr>of_RestType = of_RestType i, of_RestMeta = meta, of_RestSpec = spec, of_RestStatus = status\<rparr>)
     (pair_view V (pair_view (rest_spec_view V) string_map_view) h (of_RestMeta i, of_RestSpec i, of_RestStatus i))"

definition rest_cells :: "'x footprint \<Rightarrow> 'x cell store \<Rightarrow> 'x rest_st \<Rightarrow> addr set" where
  "rest_cells F h i =
     pair_cells F (pair_cells (rest_spec_cells F) string_map_cells) h (of_RestMeta i, of_RestSpec i, of_RestStatus i)"

definition selector_view :: "('x, 'v) viewer \<Rightarrow> 'x cell store \<Rightarrow> 'x resource_selector_st \<Rightarrow> 'v resource_selector_val option" where
  "selector_view V h i = map_option
     (\<lambda>(git, labels, namespaces, annotations).
        \<lparr>of_GitRepository = git, of_LabelSelector = labels, of_SelNamespaceSelector = namespaces,
         of_AnnotationSelector = annotations, of_FieldSelector = of_FieldSelector i, of_APIVersion = of_APIVersion i,
         of_Kind = of_Kind i\<rparr>)
     (pair_view (ref_view (typed is_Git git_of) plain_view) (pair_view V (pair_view V string_map_view)) h
        (of_GitRepository i, of_LabelSelector i, of_SelNamespaceSelector i, of_AnnotationSelector i))"

definition selector_cells :: "'x footprint \<Rightarrow> 'x cell store \<Rightarrow> 'x resource_selector_st \<Rightarrow> addr set" where
  "selector_cells F h i =
     pair_cells (ref_cells (typed is_Git git_of) no_cells) (pair_cells F (pair_cells F string_map_cells)) h
       (of_GitRepository i, of_LabelSelector i, of_SelNamespaceSelector i, of_AnnotationSelector i)"

definition template_spec_view :: "('x, 'v) viewer \<Rightarrow> 'x cell store \<Rightarrow> 'x template_spec_st \<Rightarrow> 'v template_spec_val option" where
  "template_spec_view V h i = map_option
     (\<lambda>(source, target, raws, patches, jsons, copyto).
        \<lparr>of_Source = source, of_PatchTarget = target, of_Resources = raws, of_ResourcesTemplate = of_ResourcesTemplate i,
         of_Patches = patches, of_JsonPatches = jsons, of_CopyToNamespaces = copyto, of_Onceoff = of_Onceoff i\<rparr>)
     (pair_view (selector_view V) (pair_view (selector_view V) (pair_view (ref_view (typed is_Raws raws_of) (list_view V))
        (pair_view strings_view (pair_view (ref_view (typed is_JsonPatches json_patches_of) plain_view)
        (ref_view (typed is_CopyTo copy_to_of) (copy_to_view V)))))) h
        (of_Source i, of_PatchTarget i, of_Resources i, of_Patches i, of_JsonPatches i, of_CopyToNamespaces i))"

definition template_spec_cells :: "'x footprint \<Rightarrow> 'x cell store \<Rightarrow> 'x template_spec_st \<Rightarrow> addr set" where
  "template_spec_cells F h i =
     pair_cells (selector_cells F) (pair_cells (selector_cells F) (pair_cells (ref_cells (typed is_Raws raws_of) (list_cells F))
       (pair_cells strings_cells (pair_cells (ref_cells (typed is_JsonPatches json_patches_of) no_cells)
       (ref_cells (typed is_CopyTo copy_to_of) (copy_to_cells F)))))) h
       (of_Source i, of_PatchTarget i, of_Resources i, of_Patches i, of_JsonPatches i, of_CopyToNamespaces i)"

definition template_view :: "('x, 'v) viewer \<Rightarrow> 'x cell store \<Rightarrow> 'x template_st \<Rightarrow> 'v template_val option" where
  "template_view V h i = map_option
     (\<lambda>(meta, spec). \<lparr>of_TemplateType = of_TemplateType i, of_TemplateMeta = meta, of_TemplateSpec = spec,
                      of_TemplateStatus = of_TemplateStatus i\<rparr>)
     (pair_view V (template_spec_view V) h (of_TemplateMeta i, of_TemplateSpec i))"

definition template_cells :: "'x footprint \<Rightarrow> 'x cell store \<Rightarrow> 'x template_st \<Rightarrow> addr set" where
  "template_cells F h i = pair_cells F (template_spec_cells F) h (of_TemplateMeta i, of_TemplateSpec i)"

text \<open>The two kinds of lists; \<open>W\<close>, \<open>G\<close> are for the elements, found in a cell by \<open>sel\<close>.\<close>

definition object_list_view ::
  "('x, 'v) viewer \<Rightarrow> ('x cell \<Rightarrow> 's list option) \<Rightarrow> ('x cell store \<Rightarrow> 's \<Rightarrow> 'w option) \<Rightarrow> 'x cell store
    \<Rightarrow> 'x object_list_st \<Rightarrow> ('v, 'w list option) object_list_of option" where
  "object_list_view V sel W h i = map_option
     (\<lambda>t. \<lparr>of_ListType = of_ListType i, of_ListMeta = fst t, of_Items = snd t\<rparr>)
     (pair_view V (ref_view sel (list_view W)) h (of_ListMeta i, of_Items i))"

definition object_list_cells ::
  "'x footprint \<Rightarrow> ('x cell \<Rightarrow> 's list option) \<Rightarrow> ('x cell store \<Rightarrow> 's \<Rightarrow> addr set) \<Rightarrow> 'x cell store \<Rightarrow> 'x object_list_st \<Rightarrow> addr set" where
  "object_list_cells F sel G h i = pair_cells F (ref_cells sel (list_cells G)) h (of_ListMeta i, of_Items i)"

section \<open>Every copy is deep\<close>

lemma typed_mk: "is (mk t) \<Longrightarrow> sel (mk t) = t \<Longrightarrow> typed is sel (mk t) = Some t"
  by (simp add: typed_def)

lemma copying_strings: "copying strings_view strings_cells copy_strings"
  unfolding strings_view_def strings_cells_def copy_strings_def
  by (intro copying_ref plain.copying_axioms typed_mk) simp_all

lemma copying_string_map: "copying string_map_view string_map_cells copy_string_map"
  unfolding string_map_view_def string_map_cells_def copy_string_map_def
  by (intro copying_ref entries.copying_axioms typed_mk) simp_all

text \<open>A copy written out by statements is the copy of its parts.\<close>

lemma struct_copy:
  assumes "copying V F C" "view = (\<lambda>h s. map_option (mk s) (V h (parts s)))" "cells = (\<lambda>h s. F h (parts s))"
    and "copy = (\<lambda>s. bindM (C (parts s)) (\<lambda>t. retM (build s t)))"
    and "\<And>s t. parts (build s t) = t" "\<And>s t. mk (build s t) = mk s"
  shows "copying view cells copy"
  using copying_struct [OF assms(1,5,6)] assms(2-4) by simp

lemma copying_action: "copying action_view action_cells RESTAction_DeepCopyInto"
  by (rule struct_copy [OF copying_string_map, where parts = of_ActionStatus and build = "\<lambda>i m. i\<lparr>of_ActionStatus := m\<rparr>"
        and mk = "\<lambda>i m. \<lparr>of_Method = of_Method i, of_ActionURL = of_ActionURL i, of_Body = of_Body i, of_ActionStatus = m\<rparr>"])
    (simp_all add: fun_eq_iff action_view_def action_cells_def RESTAction_DeepCopyInto_def)

lemma set_no_status [simp]: "i\<lparr>of_TemplateStatus := u\<rparr> = (i :: ('x, 's) template_of)"
  by (cases i) simp

locale external_copies =
  fixes X :: "'x externals" and V :: "('x, 'v) viewer" and F :: "'x footprint"
  assumes ObjectMeta_copies: "copying V F (ObjectMeta_DeepCopyInto X)"
    and ListMeta_copies: "copying V F (ListMeta_DeepCopyInto X)"
    and LabelSelector_copies: "copying V F (LabelSelector_DeepCopyInto X)"
    and EnvVarSource_copies: "copying V F (EnvVarSource_DeepCopyInto X)"
    and RawExtension_copies: "copying V F (RawExtension_DeepCopyInto X)"
begin

lemma copying_CopyToNamespaces: "copying (copy_to_view V) (copy_to_cells F) (CopyToNamespaces_DeepCopyInto X)"
  by (rule struct_copy [OF copying_pair [OF copying_strings
        copying_ref [where sel = "typed is_Selector selector_of" and mk = SelectorCell, OF LabelSelector_copies]],
      where parts = "\<lambda>i. (of_Namespaces i, of_NamespaceSelector i)"
        and build = "\<lambda>i t. i\<lparr>of_Namespaces := fst t, of_NamespaceSelector := snd t\<rparr>"
        and mk = "\<lambda>i t. \<lparr>of_Namespaces = fst t, of_NamespaceSelector = snd t\<rparr>"])
    (simp_all add: fun_eq_iff typed_def copy_to_view_def copy_to_cells_def CopyToNamespaces_DeepCopyInto_def pair_copy_def del: retM_apply)

lemma copying_auth: "copying (auth_view V) (auth_cells F) (RESTAuth_DeepCopyInto X)"
  by (rule struct_copy [OF copying_pair [OF EnvVarSource_copies EnvVarSource_copies],
      where parts = "\<lambda>i. (of_Username i, of_Password i)"
        and build = "\<lambda>i t. i\<lparr>of_Username := fst t, of_Password := snd t\<rparr>"
        and mk = "\<lambda>i t. \<lparr>of_Username = fst t, of_Password = snd t, of_AuthNamespace = of_AuthNamespace i\<rparr>"])
    (simp_all add: fun_eq_iff auth_view_def auth_cells_def RESTAuth_DeepCopyInto_def pair_copy_def del: retM_apply)

lemma copying_rest_spec: "copying (rest_spec_view V) (rest_spec_cells F) (RESTSpec_DeepCopyInto X)"
  by (rule struct_copy [OF copying_pair [OF copying_ref [where sel = "typed is_Auth auth_of" and mk = AuthCell, OF copying_auth]
        copying_pair [OF copying_string_map copying_pair [OF copying_action copying_action]]],
      where parts = "\<lambda>i. (of_Auth i, of_Headers i, of_Update i, of_Remove i)"
        and build = "\<lambda>i (auth, headers, update, remove).
          i\<lparr>of_Auth := auth, of_Headers := headers, of_Update := update, of_Remove := remove\<rparr>"
        and mk = "\<lambda>i (auth, headers, update, remove).
          \<lparr>of_URL = of_URL i, of_Auth = auth, of_Headers = headers, of_Update = update, of_Remove = remove\<rparr>"])
    (simp_all add: fun_eq_iff typed_def rest_spec_view_def rest_spec_cells_def RESTSpec_DeepCopyInto_def pair_copy_def
      split: prod.split del: retM_apply)

lemma copying_rest: "copying (rest_view V) (rest_cells F) (REST_DeepCopyInto X)"
  by (rule struct_copy [OF copying_pair [OF ObjectMeta_copies copying_pair [OF copying_rest_spec copying_string_map]],
      where parts = "\<lambda>i. (of_RestMeta i, of_RestSpec i, of_RestStatus i)"
        and build = "\<lambda>i (meta, spec, status). i\<lparr>of_RestMeta := meta, of_RestSpec := spec, of_RestStatus := status\<rparr>"
        and mk = "\<lambda>i (meta, spec, status).
          \<lparr>of_RestType = of_RestType i, of_RestMeta = meta, of_RestSpec = spec, of_RestStatus = status\<rparr>"])
    (simp_all add: fun_eq_iff rest_view_def rest_cells_def REST_DeepCopyInto_def pair_copy_def split: prod.split del: retM_apply)

lemma copying_selector: "copying (selector_view V) (selector_cells F) (ResourceSelector_DeepCopyInto X)"
  by (rule struct_copy [OF copying_pair [OF copying_ref [where sel = "typed is_Git git_of" and mk = GitCell, OF plain.copying_axioms]
        copying_pair [OF LabelSelector_copies copying_pair [OF LabelSelector_copies copying_string_map]]],
      where parts = "\<lambda>i. (of_GitRepository i, of_LabelSelector i, of_SelNamespaceSelector i, of_AnnotationSelector i)"
        and build = "\<lambda>i (git, labels, namespaces, annotations).
          i\<lparr>of_GitRepository := git, of_LabelSelector := labels, of_SelNamespaceSelector := namespaces,
            of_AnnotationSelector := annotations\<rparr>"
        and mk = "\<lambda>i (git, labels, namespaces, annotations).
          \<lparr>of_GitRepository = git, of_LabelSelector = labels, of_SelNamespaceSelector = namespaces,
           of_AnnotationSelector = annotations, of_FieldSelector = of_FieldSelector i, of_APIVersion = of_APIVersion i,
           of_Kind = of_Kind i\<rparr>"])
    (simp_all add: fun_eq_iff typed_def selector_view_def selector_cells_def ResourceSelector_DeepCopyInto_def pair_copy_def
      split: prod.split del: retM_apply)

lemma copying_template_spec: "copying (template_spec_view V) (template_spec_cells F) (TemplateSpec_DeepCopyInto X)"
  by (rule struct_copy [OF copying_pair [OF copying_selector copying_pair [OF copying_selector
        copying_pair [OF copying_ref [where sel = "typed is_Raws raws_of" and mk = RawsCell, OF copying_list [OF RawExtension_copies]]
        copying_pair [OF copying_strings copying_pair [OF
          copying_ref [where sel = "typed is_JsonPatches json_patches_of" and mk = JsonPatchesCell, OF plain.copying_axioms]
          copying_ref [where sel = "typed is_CopyTo copy_to_of" and mk = CopyToCell, OF copying_CopyToNamespaces]]]]]],
      where parts = "\<lambda>i. (of_Source i, of_PatchTarget i, of_Resources i, of_Patches i, of_JsonPatches i, of_CopyToNamespaces i)"
        and build = "\<lambda>i (source, target, raws, patches, jsons, copyto).
          i\<lparr>of_Source := source, of_PatchTarget := target, of_Resources := raws, of_Patches := patches,
            of_JsonPatches := jsons, of_CopyToNamespaces := copyto\<rparr>"
        and mk = "\<lambda>i (source, target, raws, patches, jsons, copyto).
          \<lparr>of_Source = source, of_PatchTarget = target, of_Resources = raws, of_ResourcesTemplate = of_ResourcesTemplate i,
           of_Patches = patches, of_JsonPatches = jsons, of_CopyToNamespaces = copyto, of_Onceoff = of_Onceoff i\<rparr>"])
    (simp_all add: fun_eq_iff typed_def template_spec_view_def template_spec_cells_def TemplateSpec_DeepCopyInto_def pair_copy_def
      split: prod.split del: retM_apply)

lemma copying_template: "copying (template_view V) (template_cells F) (Template_DeepCopyInto X)"
  by (rule struct_copy [OF copying_pair [OF ObjectMeta_copies copying_template_spec],
      where parts = "\<lambda>i. (of_TemplateMeta i, of_TemplateSpec i)"
        and build = "\<lambda>i (meta, spec). i\<lparr>of_TemplateMeta := meta, of_TemplateSpec := spec\<rparr>"
        and mk = "\<lambda>i (meta, spec). \<lparr>of_TemplateType = of_TemplateType i, of_TemplateMeta = meta, of_TemplateSpec = spec,
                      of_TemplateStatus = of_TemplateStatus i\<rparr>"])
    (simp_all add: fun_eq_iff template_view_def template_cells_def Template_DeepCopyInto_def pair_copy_def split: prod.split del: retM_apply)

lemma copying_object_list:
  assumes "copying W G D" "\<And>t. sel (mk t) = Some t"
    and "\<And>i. copy i = bindM (ListMeta_DeepCopyInto X (of_ListMeta i)) (\<lambda>meta.
       bindM (copy_ref sel mk (copy_list D) (of_Items i)) (\<lambda>items. retM (i\<lparr>of_ListMeta := meta, of_Items := items\<rparr>)))"
  shows "copying (object_list_view V sel W) (object_list_cells F sel G) copy"
  by (rule struct_copy [OF copying_pair [OF ListMeta_copies copying_ref [where sel = sel and mk = mk, OF copying_list [OF assms(1)] assms(2)]],
      where parts = "\<lambda>i. (of_ListMeta i, of_Items i)"
        and build = "\<lambda>i t. i\<lparr>of_ListMeta := fst t, of_Items := snd t\<rparr>"
        and mk = "\<lambda>i t. \<lparr>of_ListType = of_ListType i, of_ListMeta = fst t, of_Items = snd t\<rparr>"])
    (simp_all add: fun_eq_iff object_list_view_def object_list_cells_def assms(3) pair_copy_def del: retM_apply)

end

text \<open>The pointers to the four kinds of objects that implement \<open>runtime.Object\<close>.\<close>

definition rest_ptr_view :: "('x, 'v) viewer \<Rightarrow> 'x cell store \<Rightarrow> addr option \<Rightarrow> 'v rest_val option option" where
  "rest_ptr_view V = ref_view (typed is_Rest rest_of) (rest_view V)"

definition rest_ptr_cells :: "'x footprint \<Rightarrow> 'x cell store \<Rightarrow> addr option \<Rightarrow> addr set" where
  "rest_ptr_cells F = ref_cells (typed is_Rest rest_of) (rest_cells F)"

definition template_ptr_view :: "('x, 'v) viewer \<Rightarrow> 'x cell store \<Rightarrow> addr option \<Rightarrow> 'v template_val option option" where
  "template_ptr_view V = ref_view (typed is_Template template_of) (template_view V)"

definition template_ptr_cells :: "'x footprint \<Rightarrow> 'x cell store \<Rightarrow> addr option \<Rightarrow> addr set" where
  "template_ptr_cells F = ref_cells (typed is_Template template_of) (template_cells F)"

definition rest_list_ptr_view ::
  "('x, 'v) viewer \<Rightarrow> 'x cell store \<Rightarrow> addr option \<Rightarrow> ('v, 'v rest_val list option) object_list_of option option" where
  "rest_list_ptr_view V = ref_view (typed is_RestList rest_list_of) (object_list_view V (typed is_Rests rests_of) (rest_view V))"

definition rest_list_ptr_cells :: "'x footprint \<Rightarrow> 'x cell store \<Rightarrow> addr option \<Rightarrow> addr set" where
  "rest_list_ptr_cells F = ref_cells (typed is_RestList rest_list_of) (object_list_cells F (typed is_Rests rests_of) (rest_cells F))"

definition template_list_ptr_view ::
  "('x, 'v) viewer \<Rightarrow> 'x cell store \<Rightarrow> addr option \<Rightarrow> ('v, 'v template_val list option) object_list_of option option" where
  "template_list_ptr_view V =
     ref_view (typed is_TemplateList template_list_of) (object_list_view V (typed is_Templates templates_of) (template_view V))"

definition template_list_ptr_cells :: "'x footprint \<Rightarrow> 'x cell store \<Rightarrow> addr option \<Rightarrow> addr set" where
  "template_list_ptr_cells F =
     ref_cells (typed is_TemplateList template_list_of) (object_list_cells F (typed is_Templates templates_of) (template_cells F))"

context external_copies begin

lemma copying_rest_ptr: "copying (rest_ptr_view V) (rest_ptr_cells F) (REST_DeepCopy X)"
  unfolding rest_ptr_view_def rest_ptr_cells_def REST_DeepCopy_def
  by (intro copying_ref copying_rest typed_mk) simp_all

lemma copying_template_ptr: "copying (template_ptr_view V) (template_ptr_cells F) (Template_DeepCopy X)"
  unfolding template_ptr_view_def template_ptr_cells_def Template_DeepCopy_def
  by (intro copying_ref copying_template typed_mk) simp_all

lemma copying_rest_list_ptr: "copying (rest_list_ptr_view V) (rest_list_ptr_cells F) (RESTList_DeepCopy X)"
  unfolding rest_list_ptr_view_def rest_list_ptr_cells_def RESTList_DeepCopy_def
  by (intro copying_ref copying_object_list [where mk = RestsCell, OF copying_rest] typed_mk)
    (simp_all add: typed_def RESTList_DeepCopyInto_def)

lemma copying_template_list_ptr: "copying (template_list_ptr_view V) (template_list_ptr_cells F) (TemplateList_DeepCopy X)"
  unfolding template_list_ptr_view_def template_list_ptr_cells_def TemplateList_DeepCopy_def
  by (intro copying_ref copying_object_list [where mk = TemplatesCell, OF copying_template] typed_mk)
    (simp_all add: typed_def TemplateList_DeepCopyInto_def)

end

sublocale external_copies \<subseteq> rest: copying "rest_ptr_view V" "rest_ptr_cells F" "REST_DeepCopy X"
  by (rule copying_rest_ptr)

sublocale external_copies \<subseteq> template: copying "template_ptr_view V" "template_ptr_cells F" "Template_DeepCopy X"
  by (rule copying_template_ptr)

sublocale external_copies \<subseteq> rest_list: copying "rest_list_ptr_view V" "rest_list_ptr_cells F" "RESTList_DeepCopy X"
  by (rule copying_rest_list_ptr)

sublocale external_copies \<subseteq> template_list: copying "template_list_ptr_view V" "template_list_ptr_cells F" "TemplateList_DeepCopy X"
  by (rule copying_template_list_ptr)

text \<open>
  C13. The deep copy of a Template is deep: it succeeds for every template that reads, the copy
  reads the same, field by field, nil references staying nil; the two share no cell, so after any
  writes that leave the cells of one of them alone that one still reads the same. A nil pointer
  gives the nil interface.
\<close>
theorem Template_DeepCopyObject_separate:
  assumes "external_copies X V F" and "template_ptr_view V h (Some a) = Some v"
  shows "(\<exists>b k. Template_DeepCopyObject X (Some a) h = Some (Some (TemplateObject b), k) \<and>
      template_ptr_view V k (Some b) = Some v \<and> template_ptr_view V k (Some a) = Some v \<and>
      template_ptr_cells F k (Some a) \<inter> template_ptr_cells F k (Some b) = {} \<and>
      (\<forall>k'. agree (template_ptr_cells F k (Some a)) k k' \<longrightarrow> template_ptr_view V k' (Some a) = Some v) \<and>
      (\<forall>k'. agree (template_ptr_cells F k (Some b)) k k' \<longrightarrow> template_ptr_view V k' (Some b) = Some v)) \<and>
    Template_DeepCopyObject X None h = Some (None, h)"
proof -
  obtain y k where c: "Template_DeepCopy X (Some a) h = Some (y, k)" "template_ptr_view V k y = Some v"
    "template_ptr_view V k (Some a) = Some v" "template_ptr_cells F k (Some a) \<inter> template_ptr_cells F k y = {}"
    "\<And>k'. agree (template_ptr_cells F k y) k k' \<Longrightarrow> template_ptr_view V k' y = Some v"
    "\<And>k'. agree (template_ptr_cells F k (Some a)) k k' \<Longrightarrow> template_ptr_view V k' (Some a) = Some v"
    by (rule copying.separate [OF external_copies.copying_template_ptr [OF assms(1)] assms(2)]) blast
  from c(1) obtain b where "y = Some b"
    by (auto simp: Template_DeepCopy_def copy_ref_def bindM_eq_Some)
  moreover have "Template_DeepCopyObject X (Some a) h = Some (Some (TemplateObject b), k)"
    using c(1) \<open>y = Some b\<close> by (simp add: Template_DeepCopyObject_def as_object_def bindM_def)
  moreover have "Template_DeepCopyObject X None h = Some (None, h)"
    by (simp add: Template_DeepCopyObject_def Template_DeepCopy_def copy_ref_def as_object_def)
  ultimately show ?thesis using c(2-) by blast
qed

section \<open>Examples\<close>

text \<open>The external types as structs with one reference, to a map.\<close>

definition demo_externals :: "addr option externals" where
  "demo_externals = \<lparr>ObjectMeta_DeepCopyInto = copy_string_map, ListMeta_DeepCopyInto = copy_string_map,
     LabelSelector_DeepCopyInto = copy_string_map, EnvVarSource_DeepCopyInto = copy_string_map,
     RawExtension_DeepCopyInto = copy_string_map\<rparr>"

interpretation demo: external_copies demo_externals string_map_view string_map_cells
  by (rule external_copies.intro) (simp_all add: demo_externals_def copying_string_map)

definition demo_selector_st :: "addr option resource_selector_st" where
  "demo_selector_st = \<lparr>of_GitRepository = None, of_LabelSelector = Some 0, of_SelNamespaceSelector = None,
     of_AnnotationSelector = Some 0, of_FieldSelector = '''', of_APIVersion = ''v1'', of_Kind = ''ConfigMap''\<rparr>"

definition demo_store :: "addr option cell store" where
  "demo_store = [StringMapCell [(''app'', ''web'')], StringsCell [''red'', ''blue''],
     CopyToCell \<lparr>of_Namespaces = Some 1, of_NamespaceSelector = None\<rparr>,
     TemplateCell \<lparr>of_TemplateType = (''Template'', ''v1''), of_TemplateMeta = Some 0,
       of_TemplateSpec = \<lparr>of_Source = demo_selector_st, of_PatchTarget = demo_selector_st, of_Resources = None,
         of_ResourcesTemplate = '''', of_Patches = Some 1, of_JsonPatches = None, of_CopyToNamespaces = Some 2, of_Onceoff = True\<rparr>,
       of_TemplateStatus = ()\<rparr>,
     RestCell \<lparr>of_RestType = (''REST'', ''v1''), of_RestMeta = Some 0,
       of_RestSpec = \<lparr>of_URL = ''http://web'', of_Auth = None, of_Headers = Some 0,
         of_Update = \<lparr>of_Method = ''POST'', of_ActionURL = '''', of_Body = '''', of_ActionStatus = None\<rparr>,
         of_Remove = \<lparr>of_Method = ''DELETE'', of_ActionURL = '''', of_Body = '''', of_ActionStatus = None\<rparr>\<rparr>,
       of_RestStatus = Some 0\<rparr>]"

lemmas view_defs = ref_view_def pair_view_def strings_view_def string_map_view_def copy_to_view_def selector_view_def
  template_spec_view_def template_view_def template_ptr_view_def action_view_def auth_view_def rest_spec_view_def rest_view_def
  rest_ptr_view_def plain_view_def entries_view_def fetch_def typed_def

lemma demo_template_reads: "\<exists>v. template_ptr_view string_map_view demo_store (Some 3) = Some v"
  by (simp add: view_defs demo_store_def demo_selector_st_def map_wf_def)

lemma demo_rest_reads: "\<exists>v. rest_ptr_view string_map_view demo_store (Some 4) = Some (Some v)"
  by (simp add: view_defs demo_store_def map_wf_def)

theorem Template_DeepCopyObject_separate_witness:
  "\<exists>b k v. Template_DeepCopyObject demo_externals (Some 3) demo_store = Some (Some (TemplateObject b), k) \<and>
     template_ptr_view string_map_view k (Some b) = Some v \<and> template_ptr_view string_map_view demo_store (Some 3) = Some v"
proof -
  obtain v where v: "template_ptr_view string_map_view demo_store (Some 3) = Some v"
    using demo_template_reads by blast
  then show ?thesis using Template_DeepCopyObject_separate [OF demo.external_copies_axioms v] by blast
qed

end
