(* ===== verification/StatusMap.thy ===== *)
theory StatusMap
  imports DeepCopy RestController
begin

text \<open>
  How \<open>controllers/rest_controller.go\<close> updates the status: the map \<open>rest.Status\<close> is changed in place,
  while \<open>oldStatus\<close> is a clone that must keep the old entries for the comparison. RestController
  models both as values; here the same statements run on the explicit store, and the two agree.
  Together with the deep copy that controller-runtime hands out, the object in the cache of the
  client is never touched.
\<close>

section \<open>The statements on the store\<close>

definition load_rest :: "addr \<Rightarrow> ('x cell, 'x rest_st) mem" where
  "load_rest a = load (typed is_Rest rest_of) a"

definition load_map :: "addr \<Rightarrow> ('x cell, string gmap) mem" where
  "load_map m = load (typed is_StringMap map_of_cell) m"

text \<open>\<open>m[k] = v\<close> and \<open>for k, v := range updates { m[k] = v }\<close>\<close>

definition put_entry :: "addr \<Rightarrow> string \<Rightarrow> string \<Rightarrow> ('x cell, unit) mem" where
  "put_entry m k v = bindM (load_map m) (\<lambda>es. assign m (StringMapCell (AList.update k v es)))"

fun put_entries :: "addr \<Rightarrow> string gmap \<Rightarrow> ('x cell, unit) mem" where
  "put_entries m [] = retM ()"
| "put_entries m ((k, v) # us) = bindM (put_entry m k v) (\<lambda>_. put_entries m us)"

text \<open>\<open>if rest.Status == nil { rest.Status = map[string]string{} }\<close>, and the address of the map.\<close>

definition init_status :: "addr \<Rightarrow> ('x cell, addr) mem" where
  "init_status a =
     bindM (load_rest a) (\<lambda>s.
     (case of_RestStatus s of
        Some m \<Rightarrow> retM m
      | None \<Rightarrow>
          bindM (alloc (StringMapCell [])) (\<lambda>m.
          bindM (assign a (RestCell (s\<lparr>of_RestStatus := Some m\<rparr>))) (\<lambda>_. retM m))))"

definition cloneMap_mem :: "addr \<Rightarrow> ('x cell, addr) mem" where
  "cloneMap_mem m =
     bindM (alloc (StringMapCell [])) (\<lambda>x.
     bindM (load_map m) (\<lambda>es.
     bindM (put_entries x es) (\<lambda>_. retM x)))"

definition addStatusUpdates_mem :: "addr \<Rightarrow> string gmap \<Rightarrow> ('x cell, unit) mem" where
  "addStatusUpdates_mem a updates = bindM (init_status a) (\<lambda>m. put_entries m updates)"

text \<open>Writing to a nil map panics.\<close>

definition setRestStatus_mem :: "addr \<Rightarrow> string \<Rightarrow> ('x cell, unit) mem" where
  "setRestStatus_mem a stamp =
     bindM (load_rest a) (\<lambda>s.
     (case of_RestStatus s of None \<Rightarrow> (\<lambda>_. None) | Some m \<Rightarrow> put_entry m ''lastUpdated'' stamp))"

text \<open>\<open>reflect.DeepEqual(rest.Status, oldStatus)\<close>; a nil map is not equal to a map that is not nil.\<close>

definition status_equal :: "addr \<Rightarrow> addr \<Rightarrow> ('x cell, bool) mem" where
  "status_equal a oldStatus =
     bindM (load_rest a) (\<lambda>s.
     (case of_RestStatus s of
        None \<Rightarrow> retM False
      | Some m \<Rightarrow> bindM (load_map m) (\<lambda>es. bindM (load_map oldStatus) (\<lambda>fs. retM (map_eq es fs)))))"

text \<open>
  From the fetched object to the first attempt to write it: \<open>Reconcile\<close> makes the map and clones
  it, \<open>updateStatus\<close> adds the updates, compares and stamps. The result says whether the status changed.
\<close>

definition update_in_place :: "addr \<Rightarrow> string gmap \<Rightarrow> string \<Rightarrow> ('x cell, bool) mem" where
  "update_in_place a updates stamp =
     bindM (init_status a) (\<lambda>m.
     bindM (cloneMap_mem m) (\<lambda>oldStatus.
     bindM (addStatusUpdates_mem a updates) (\<lambda>_.
     bindM (status_equal a oldStatus) (\<lambda>same.
     if same then retM False else bindM (setRestStatus_mem a stamp) (\<lambda>_. retM True)))))"

section \<open>What they write\<close>

abbreviation rest_at :: "'x cell store \<Rightarrow> addr \<Rightarrow> 'x rest_st \<Rightarrow> bool" where
  "rest_at h a s \<equiv> fetch (typed is_Rest rest_of) h a = Some s"

abbreviation map_at :: "'x cell store \<Rightarrow> addr \<Rightarrow> string gmap \<Rightarrow> bool" where
  "map_at h m es \<equiv> fetch (typed is_StringMap map_of_cell) h m = Some es"

definition writes_only :: "addr set \<Rightarrow> 'c store \<Rightarrow> 'c store \<Rightarrow> bool" where
  "writes_only A h k \<longleftrightarrow> length h \<le> length k \<and> (\<forall>i < length h. i \<notin> A \<longrightarrow> k ! i = h ! i)"

lemma writes_only_refl [simp]: "writes_only A h h"
  by (simp add: writes_only_def)

lemma writes_only_trans: "writes_only A h k \<Longrightarrow> writes_only A k l \<Longrightarrow> writes_only A h l"
  unfolding writes_only_def by (metis order.strict_trans2 order_trans)

lemma writes_only_mono: "writes_only A h k \<Longrightarrow> A \<subseteq> B \<Longrightarrow> writes_only B h k"
  by (auto simp: writes_only_def)

lemma writes_only_append [simp]: "writes_only A h (h @ ys)"
  by (simp add: writes_only_def nth_append)

lemma writes_only_assign: "writes_only {a} h (h[a := c])"
  by (simp add: writes_only_def)

lemma writes_only_fetch: "writes_only A h k \<Longrightarrow> a \<notin> A \<Longrightarrow> fetch sel h a = Some s \<Longrightarrow> fetch sel k a = Some s"
  by (simp add: writes_only_def fetch_def split: if_splits)

lemma writes_only_agree: "writes_only A h k \<Longrightarrow> A \<inter> B = {} \<Longrightarrow> (\<And>b. b \<in> B \<Longrightarrow> b < length h) \<Longrightarrow> agree B h k"
  unfolding writes_only_def agree_def by (metis disjoint_iff order.strict_trans2)

lemma fetch_assigned: "a < length h \<Longrightarrow> fetch sel (h[a := c]) a = sel c"
  by (simp add: fetch_def)

lemma typed_cells [simp]:
  "typed is_Rest rest_of (RestCell s) = Some s" "typed is_StringMap map_of_cell (StringMapCell es) = Some es"
  by (simp_all add: typed_def)

lemma rest_not_map: "rest_at h a s \<Longrightarrow> map_at h m es \<Longrightarrow> a \<noteq> m"
  by (auto simp: fetch_def typed_def split: if_splits)

lemma put_entry_effect:
  "map_at h m es \<Longrightarrow> put_entry m k v h = Some ((), h[m := StringMapCell (AList.update k v es)])"
  by (simp add: put_entry_def load_map_def bindM_def load_def assign_def fetch_less)

lemma put_entries_effect:
  "map_at h m es \<Longrightarrow> \<exists>k. put_entries m us h = Some ((), k) \<and> map_at k m (map_put_all es us) \<and> writes_only {m} h k \<and> length k = length h"
proof (induction us arbitrary: es h)
  case (Cons u us)
  obtain x y where u: "u = (x, y)" by (cases u)
  let ?h = "h[m := StringMapCell (AList.update x y es)]"
  have "map_at ?h m (AList.update x y es)"
    using fetch_less [OF Cons.prems] by (simp add: fetch_assigned)
  then obtain k where "put_entries m us ?h = Some ((), k)" "map_at k m (map_put_all (AList.update x y es) us)"
    "writes_only {m} ?h k" "length k = length ?h"
    using Cons.IH by blast
  then show ?case
    using writes_only_trans [OF writes_only_assign] put_entry_effect [OF Cons.prems, of x y]
    by (simp add: u bindM_Some)
qed simp

lemma status_view_eq:
  "string_map_view h p = Some st \<longleftrightarrow>
     (case p of None \<Rightarrow> st = None | Some m \<Rightarrow> \<exists>es. map_at h m es \<and> map_wf es \<and> st = Some es)"
  by (auto simp: string_map_view_def ref_view_def entries_view_def split: option.splits if_splits)

lemma init_status_effect:
  assumes "rest_at h a s" "string_map_view h (of_RestStatus s) = Some st"
  obtains m k where "init_status a h = Some (m, k)" "rest_at k a (s\<lparr>of_RestStatus := Some m\<rparr>)" "map_at k m (the_map st)"
    "writes_only {a} h k" "m \<in> string_map_cells h (of_RestStatus s) \<or> length h \<le> m"
proof (cases "of_RestStatus s")
  case None
  let ?s = "s\<lparr>of_RestStatus := Some (length h)\<rparr>"
  let ?k = "(h @ [StringMapCell []])[a := RestCell ?s]"
  have a: "a < length h" using assms(1) by (rule fetch_less)
  have "init_status a h = Some (length h, ?k)"
    using assms(1) None a by (simp add: init_status_def load_rest_def bindM_def load_def assign_def)
  moreover have "rest_at ?k a ?s" using a by (simp add: fetch_assigned)
  moreover have "map_at ?k (length h) (the_map st)"
    using a assms(2) None by (simp add: fetch_def status_view_eq the_map_def)
  moreover have "writes_only {a} h ?k" by (rule writes_only_trans [OF writes_only_append writes_only_assign])
  ultimately show ?thesis using that by blast
next
  case (Some m)
  then have "init_status a h = Some (m, h)"
    using assms(1) by (simp add: init_status_def load_rest_def bindM_def load_def)
  moreover have "s\<lparr>of_RestStatus := Some m\<rparr> = s" using Some by simp
  moreover have "map_at h m (the_map st)" using assms(2) Some by (auto simp: status_view_eq the_map_def)
  ultimately show ?thesis using that [of m h] assms(1) Some by (simp add: string_map_cells_def ref_cells_def)
qed

lemma cloneMap_effect:
  assumes "map_at h m es"
  obtains k where "cloneMap_mem m h = Some (length h, k)" "map_at k (length h) (cloneMap es)" "writes_only {} h k"
proof -
  let ?h = "h @ [StringMapCell []]"
  have "map_at ?h (length h) []" by simp
  then obtain k where k: "put_entries (length h) es ?h = Some ((), k)" "map_at k (length h) (map_put_all [] es)"
    "writes_only {length h} ?h k"
    using put_entries_effect by blast
  moreover have "cloneMap_mem m h = Some (length h, k)"
    using k(1) fetch_append [OF assms, of "[StringMapCell []]"]
    by (simp add: cloneMap_mem_def load_map_def bindM_def load_def)
  moreover have "writes_only {} h k" using k(3) by (auto simp: writes_only_def nth_append)
  ultimately show ?thesis using that by (simp add: cloneMap_def)
qed

section \<open>The store agrees with the values\<close>

text \<open>
  The value that the reconciler works with: the status once its map exists, and after the updates.
\<close>

lemma update_in_place_effect:
  fixes us :: "string gmap"
  assumes h: "rest_at h a s" "string_map_view h (of_RestStatus s) = Some st"
  defines "old \<equiv> the_map st"
  defines "new \<equiv> map_put_all old us"
  shows "\<exists>m k. update_in_place a us stamp h = Some (\<not> map_eq new (cloneMap old), k) \<and> rest_at k a (s\<lparr>of_RestStatus := Some m\<rparr>) \<and>
    map_at k m (if map_eq new (cloneMap old) then new else AList.update ''lastUpdated'' stamp new) \<and>
    writes_only (insert a (string_map_cells h (of_RestStatus s))) h k \<and>
    (m \<in> string_map_cells h (of_RestStatus s) \<or> length h \<le> m)"
proof -
  let ?A = "insert a (string_map_cells h (of_RestStatus s))"
  obtain m h1 where 1: "init_status a h = Some (m, h1)" "rest_at h1 a (s\<lparr>of_RestStatus := Some m\<rparr>)" "map_at h1 m old"
    "writes_only {a} h h1" "m \<in> string_map_cells h (of_RestStatus s) \<or> length h \<le> m"
    using init_status_effect [OF h] unfolding old_def by metis
  obtain h2 where 2: "cloneMap_mem m h1 = Some (length h1, h2)" "map_at h2 (length h1) (cloneMap old)" "writes_only {} h1 h2"
    using cloneMap_effect [OF 1(3)] by blast
  have am: "a \<noteq> m" using rest_not_map 1(2,3) by blast
  have m1: "m < length h1" using 1(3) by (rule fetch_less)
  have 3: "rest_at h2 a (s\<lparr>of_RestStatus := Some m\<rparr>)" "map_at h2 m old"
    using 1(2,3) by (auto intro: writes_only_fetch [OF 2(3)])
  obtain h3 where 4: "put_entries m us h2 = Some ((), h3)" "map_at h3 m new" "writes_only {m} h2 h3"
    using put_entries_effect [OF 3(2)] unfolding new_def by blast
  have 5: "rest_at h3 a (s\<lparr>of_RestStatus := Some m\<rparr>)" "map_at h3 (length h1) (cloneMap old)"
    using 3(1) 2(2) am m1 by (auto intro!: writes_only_fetch [OF 4(3)])
  have w3: "writes_only (insert m ?A) h h3"
    by (rule writes_only_trans [OF writes_only_mono [OF 1(4)] writes_only_trans [OF writes_only_mono [OF 2(3)] writes_only_mono [OF 4(3)]]]) auto
  have run: "update_in_place a us stamp h =
      (if map_eq new (cloneMap old) then Some (False, h3) else bindM (put_entry m ''lastUpdated'' stamp) (\<lambda>_. retM True) h3)"
    using 1(1) 2(1) 3(1) 4(1,2) 5
    by (simp add: update_in_place_def addStatusUpdates_mem_def init_status_def [of a, THEN fun_cong, of h2] load_rest_def load_map_def
        status_equal_def setRestStatus_mem_def bindM_def load_def)
  let ?k = "if map_eq new (cloneMap old) then h3 else h3[m := StringMapCell (AList.update ''lastUpdated'' stamp new)]"
  have "update_in_place a us stamp h = Some (\<not> map_eq new (cloneMap old), ?k)"
    using put_entry_effect [OF 4(2)] by (simp add: run bindM_def)
  moreover have "rest_at ?k a (s\<lparr>of_RestStatus := Some m\<rparr>)"
    using 5(1) writes_only_fetch [OF writes_only_assign, of a m] am by auto
  moreover have "map_at ?k m (if map_eq new (cloneMap old) then new else AList.update ''lastUpdated'' stamp new)"
    using 4(2) fetch_less [OF 4(2)] by (simp add: fetch_assigned)
  moreover have "writes_only ?A h ?k"
  proof -
    have "writes_only (insert m ?A) h (h3[m := c])" for c
      by (rule writes_only_trans [OF w3 writes_only_mono [OF writes_only_assign]]) simp
    then have "writes_only (insert m ?A) h ?k" using w3 by simp
    then show ?thesis using 1(5) by (auto simp: writes_only_def)
  qed
  ultimately show ?thesis using 1(5) by blast
qed

text \<open>
  C20. The in-place updates of the status on Go's memory do what the value model of the reconciler
  says: \<open>oldStatus\<close>, being a clone, still holds the old entries when it is compared, so the
  comparison answers as it does on values; the map that the object refers to in the end is the
  updated one, stamped exactly when the status changed; and nothing but the object and its status
  map is written.
\<close>
theorem status_update_refines:
  fixes us :: "string gmap"
  assumes "rest_at h a s" and "string_map_view h (of_RestStatus s) = Some (rest_Status r)"
  defines "r0 \<equiv> r\<lparr>rest_Status := Some (the_map (rest_Status r))\<rparr>"
  defines "r1 \<equiv> addStatusUpdates r0 (Some us)"
  defines "changed \<equiv> \<not> map_eq (the_map (rest_Status r1)) (cloneMap (the_map (rest_Status r0)))"
  shows "\<exists>m k. update_in_place a us stamp h = Some (changed, k) \<and> rest_at k a (s\<lparr>of_RestStatus := Some m\<rparr>) \<and>
    map_at k m (if changed then AList.update ''lastUpdated'' stamp (the_map (rest_Status r1)) else the_map (rest_Status r1)) \<and>
    writes_only (insert a (string_map_cells h (of_RestStatus s))) h k"
proof -
  have "the_map (rest_Status r1) = map_put_all (the_map (rest_Status r)) us" "the_map (rest_Status r0) = the_map (rest_Status r)"
    by (simp_all add: r1_def r0_def addStatusUpdates_def the_map_def)
  then show ?thesis
    using update_in_place_effect [OF assms(1,2), of us stamp] by (auto simp: changed_def)
qed

text \<open>
  C21. controller-runtime hands the reconciler a deep copy of the object in its cache. When the
  reconciler then updates the status in place, the object in the cache still reads as before,
  although object and status map are reached through pointers: the copy shares none of them.
\<close>
theorem cached_object_untouched:
  assumes "external_copies X V F" and "rest_ptr_view V h (Some p) = Some (Some v)"
  shows "\<exists>b k changed m l. REST_DeepCopyObject X (Some p) h = Some (Some (RestObject b), k) \<and>
    rest_ptr_view V k (Some b) = Some (Some v) \<and>
    update_in_place b us stamp k = Some (changed, l) \<and> rest_ptr_view V l (Some p) = Some (Some v) \<and>
    map_at l m (let new = map_put_all (the_map (of_RestStatus v)) us
                in if changed then AList.update ''lastUpdated'' stamp new else new)"
proof -
  obtain y k where k: "REST_DeepCopy X (Some p) h = Some (y, k)" "rest_ptr_view V k y = Some (Some v)"
    "rest_ptr_view V k (Some p) = Some (Some v)" "rest_ptr_cells F k (Some p) \<inter> rest_ptr_cells F k y = {}"
    using copying.separate [OF external_copies.copying_rest_ptr [OF assms(1)] assms(2)] by metis
  then obtain b s where b: "y = Some b" "rest_at k b s" "rest_view V k s = Some v"
    by (auto simp: rest_ptr_view_def ref_view_def split: option.splits)
  then have st: "string_map_view k (of_RestStatus s) = Some (of_RestStatus v)"
    by (auto simp: rest_view_def split: prod.splits)
  obtain m l where l: "update_in_place b us stamp k =
      Some (\<not> map_eq (map_put_all (the_map (of_RestStatus v)) us) (cloneMap (the_map (of_RestStatus v))), l)"
    "map_at l m (if map_eq (map_put_all (the_map (of_RestStatus v)) us) (cloneMap (the_map (of_RestStatus v)))
       then map_put_all (the_map (of_RestStatus v)) us
       else AList.update ''lastUpdated'' stamp (map_put_all (the_map (of_RestStatus v)) us))"
    "writes_only (insert b (string_map_cells k (of_RestStatus s))) k l"
    using update_in_place_effect [OF b(2) st, of us stamp] by blast
  have "insert b (string_map_cells k (of_RestStatus s)) \<subseteq> rest_ptr_cells F k y"
    using b by (auto simp: rest_ptr_cells_def ref_cells_def rest_cells_def pair_cells_def)
  then have "agree (rest_ptr_cells F k (Some p)) k l"
    using k(3,4) copying.allocated [OF external_copies.copying_rest_ptr [OF assms(1)]]
    by (intro writes_only_agree [OF l(3)]) blast+
  then have "rest_ptr_view V l (Some p) = Some (Some v)"
    using copying.local_view [OF external_copies.copying_rest_ptr [OF assms(1)] k(3)] by blast
  moreover have "REST_DeepCopyObject X (Some p) h = Some (Some (RestObject b), k)"
    using k(1) b(1) by (simp add: REST_DeepCopyObject_def as_object_def bindM_def)
  ultimately show ?thesis using l(1,2) k(2) b(1) by (auto simp: Let_def)
qed

section \<open>Examples\<close>

theorem cached_object_untouched_witness:
  "\<exists>b k changed l v. REST_DeepCopyObject demo_externals (Some 4) demo_store = Some (Some (RestObject b), k) \<and>
     update_in_place b [(''code'', ''200'')] ''now'' k = Some (changed, l) \<and>
     rest_ptr_view string_map_view demo_store (Some 4) = Some (Some v) \<and> rest_ptr_view string_map_view l (Some 4) = Some (Some v)"
proof -
  obtain v where v: "rest_ptr_view string_map_view demo_store (Some 4) = Some (Some v)"
    using demo_rest_reads by blast
  then show ?thesis using cached_object_untouched [OF demo.external_copies_axioms v] by blast
qed

theorem status_update_refines_witness:
  "\<exists>m k. update_in_place 4 [(''app'', ''db'')] ''now'' demo_store = Some (True, k) \<and>
     map_at k m [(''app'', ''db''), (''lastUpdated'', ''now'')]"
proof -
  obtain s where s: "rest_at demo_store 4 s" "of_RestStatus s = Some 0"
    by (simp add: demo_store_def fetch_def typed_def)
  have "string_map_view demo_store (of_RestStatus s) = Some (rest_Status (demo_rest\<lparr>rest_Status := Some [(''app'', ''web'')]\<rparr>))"
    using s(2) by (simp add: view_defs demo_store_def map_wf_def)
  from status_update_refines [OF s(1) this, of "[(''app'', ''db'')]" "''now''"] show ?thesis
    by (simp add: addStatusUpdates_def the_map_def cloneMap_def map_eq_def) blast
qed

end
