(* ===== verification/Ownership.thy ===== *)
theory Ownership
  imports Controllers Sources
begin

text \<open>
  From the reconciler of templates down to the single calls: whatever a reconciliation applies is
  the patched source itself or is owned by a patched source, and the sources are the objects that
  the server listed for the template, or the files of its git repository.
\<close>

section \<open>The sources\<close>

text \<open>
  The namespaces that the template selects, and the objects that the server can list there for the
  kind, the field selector and the label selector of the template.
\<close>

definition source_namespaces :: "('c, 'l, 'z) k8s_env_scheme \<Rightarrow> template \<Rightarrow> string set" where
  "source_namespaces E t = {ns. \<exists>nss w w'. GetSourceNamespaces E t w = (Inr nss, w') \<and> ns \<in> set nss}"

definition listed :: "('c, 'l, 'z) k8s_env_scheme \<Rightarrow> template \<Rightarrow> unstructured set" where
  "listed E t = {u. \<exists>ns labels c us c'. ns \<in> source_namespaces E t \<and>
     labelSelectorToString E (LabelSelector (Source (Spec t))) = Inr labels \<and>
     srv_List E (sel_Kind (Source (Spec t))) ns (FieldSelector (Source (Spec t))) labels c = (Inr us, c') \<and> u \<in> set us}"

text \<open>The template with the name and the content of a file, as \<open>handleGitRepository\<close> hands it on.\<close>

definition git_files :: "('c, 'l, 'z) k8s_env_scheme \<Rightarrow> template \<Rightarrow> unstructured set" where
  "git_files E t = {u. \<exists>u0 filename content u1. ToUnstructured E t = Inr u0 \<and>
     put_field ''filename'' (GStr filename) u0 = Inr u1 \<and> put_field ''content'' (GStr content) u1 = Inr u}"

definition origin :: "('c, 'l, 'z) k8s_env_scheme \<Rightarrow> template \<Rightarrow> unstructured set" where
  "origin E t = (case GitRepository (Source (Spec t)) of None \<Rightarrow> listed E t | Some _ \<Rightarrow> git_files E t)"

text \<open>
  What the patches of the template can make of a source: the object that is applied, and the object
  that the server answers, which is the source from then on.
\<close>

definition patch_target :: "('c, 'l, 'z) k8s_env_scheme \<Rightarrow> template \<Rightarrow> unstructured \<Rightarrow> unstructured \<Rightarrow> bool" where
  "patch_target E t source u \<longleftrightarrow> (\<exists>p w1 t1 w1' w2 t2 w2'.
     apply_patches E p PatchTypeYaml (Patches (Spec t)) source w1 = (Inr t1, w1') \<and>
     apply_patches E p PatchTypeJSON (map Patch (JsonPatches (Spec t))) t1 w2 = (Inr t2, w2') \<and>
     u = stripAnnotations E (markApplied E t t2))"

definition patched :: "('c, 'l, 'z) k8s_env_scheme \<Rightarrow> template \<Rightarrow> unstructured \<Rightarrow> unstructured \<Rightarrow> bool" where
  "patched E t source0 source \<longleftrightarrow> (\<exists>p w w'. patchSource E p t source0 w = (Inr source, w'))"

lemma patched_none:
  "Patches (Spec t) = [] \<Longrightarrow> JsonPatches (Spec t) = [] \<Longrightarrow> patched E t source0 source \<longleftrightarrow> source = source0"
  by (auto simp: patched_def patchSource_def bindA_def ret_def)

text \<open>
  A call that applies nothing, or a patched source, marked as such, or an object in its own
  namespace whose owner is a patched source, all for the sources in \<open>S\<close>.
\<close>

definition template_call :: "('c, 'l, 'z) k8s_env_scheme \<Rightarrow> template \<Rightarrow> unstructured set \<Rightarrow> call \<Rightarrow> bool" where
  "template_call E t S k \<longleftrightarrow>
     (case k of
        ApplyUnstructured ns u \<Rightarrow> ns = GetNamespace (Meta E) u \<and>
          (\<exists>source0 \<in> S. patch_target E t source0 u \<and> alreadyApplied E t u \<or>
             (\<exists>source. patched E t source0 source \<and> owned E source u))
      | _ \<Rightarrow> True)"

lemma template_call_simps [simp]:
  "template_call E t S (GetTemplate n)" "template_call E t S ResetRestMapper" "template_call E t S (IncGauge g n)"
  "template_call E t S GetOpenAPI" "template_call E t S GetServerResources" "template_call E t S (ListNamespaces s)"
  "template_call E t S (ListResources k ns f l)" "template_call E t S (StartInformer k l f)" "template_call E t S ListCRDs"
  "template_call E t S (Event ty m)" "template_call E t S (GetGitRepository n ns)" "template_call E t S (HttpGet url)"
  by (simp_all add: template_call_def)

text \<open>What the rendered objects, the results of patches and of the server, and the sources satisfy.\<close>

definition objects_ok :: "('c, 'l, 'z) k8s_env_scheme \<Rightarrow> (unstructured \<Rightarrow> bool) \<Rightarrow> bool" where
  "objects_ok E ok \<longleftrightarrow> object_meta (Meta E) ok \<and>
     (\<forall>s us. GetUnstructuredObjects E s = Inr us \<longrightarrow> (\<forall>u \<in> set us. ok u)) \<and>
     (\<forall>u. ok u \<longrightarrow> ok (StripIdentifiers E u)) \<and>
     (\<forall>b u. UnmarshalResource E b = Inr u \<longrightarrow> ok u) \<and>
     (\<forall>ns u c v c'. ok u \<longrightarrow> srv_Apply E ns u c = (Inr v, c') \<longrightarrow> ok v)"

lemma objects_okD:
  assumes "objects_ok E ok"
  shows "object_meta (Meta E) ok" "GetUnstructuredObjects E s = Inr us \<Longrightarrow> u \<in> set us \<Longrightarrow> ok u"
    "ok v \<Longrightarrow> ok (StripIdentifiers E v)" "UnmarshalResource E b = Inr u \<Longrightarrow> ok u"
    "srv_Apply E ns v c = (Inr u, c') \<Longrightarrow> ok v \<Longrightarrow> ok u"
  using assms unfolding objects_ok_def by blast+

section \<open>Patching a source\<close>

lemma markApplied_ok: "object_meta (Meta E) ok \<Longrightarrow> ok u \<Longrightarrow> ok (stripAnnotations E (markApplied E t u))"
  by (simp add: markApplied_def strip_keeps object_meta.meta_simps)

lemma patchSource_cases:
  assumes "patchSource E p t source w = (Inr r, w')"
  obtains "r = source"
  | t1 w1 where "apply_patches E p PatchTypeYaml (Patches (Spec t)) source w = (Inr t1, w1)"
      "apply_patches E p PatchTypeJSON (map Patch (JsonPatches (Spec t))) t1 w1 = (Inr r, w')"
  | t1 w1 t2 w2 u c c' where "apply_patches E p PatchTypeYaml (Patches (Spec t)) source w = (Inr t1, w1)"
      "apply_patches E p PatchTypeJSON (map Patch (JsonPatches (Spec t))) t1 w1 = (Inr t2, w2)"
      "u = stripAnnotations E (markApplied E t t2)" "srv_Apply E (GetNamespace (Meta E) u) u c = (Inr r, c')"
  using assms
  by (auto simp: patchSource_def Let_def bindA_eq_Inr ret_eq_Inr on_error_eq_Inr applyUnstructured_def external_eq_Inr split: if_splits)

lemma patchSource_ok:
  assumes "objects_ok E ok" "ok source" "patchSource E p t source w = (Inr r, w')"
  shows "ok r"
  using assms(3)
proof (cases rule: patchSource_cases)
  case (2 t1 w1)
  then show ?thesis using apply_patches_ok [of E ok] objects_okD(4) [OF assms(1)] assms(2) by blast
next
  case (3 t1 w1 t2 w2 u c c')
  then have "ok t2" using apply_patches_ok [of E ok] objects_okD(4) [OF assms(1)] assms(2) by blast
  then have "ok u" using 3(3) markApplied_ok objects_okD(1) [OF assms(1)] by blast
  then show ?thesis using 3(4) objects_okD(5) [OF assms(1)] by blast
qed (use assms(2) in simp)

lemma patchSource_calls:
  assumes "objects_ok E ok" "ok source" "source \<in> S" "uses_cache E (Applier_SchemaManager p)"
  shows "keeps (grows L (template_call E t S)) (patchSource E p t source)"
proof -
  let ?I = "grows L (template_call E t S)"
  have patches: "keeps ?I (apply_patches E p ty ps u)" for ty ps u
    by (rule grows.kept_apply_patches [OF assms(4)]) simp_all
  have target: "keeps ?I (applyUnstructured E (GetNamespace (Meta E) u) u)"
    if "apply_patches E p PatchTypeYaml (Patches (Spec t)) source w1 = (Inr t1, w1')"
      "apply_patches E p PatchTypeJSON (map Patch (JsonPatches (Spec t))) t1 w2 = (Inr t2, w2')"
      "u = stripAnnotations E (markApplied E t t2)" for u t1 t2 w1 w1' w2 w2'
  proof -
    have "ok t2" using that apply_patches_ok [of E ok] objects_okD(4) [OF assms(1)] assms(2) by blast
    then have "alreadyApplied E t u"
      using that(3) alreadyApplied_mark [OF objects_okD(1) [OF assms(1)]] by simp
    moreover have "patch_target E t source u" using that unfolding patch_target_def by blast
    ultimately show ?thesis
      using assms(3) by (intro grows.kept_applyUnstructured) (auto simp: template_call_def)
  qed
  show ?thesis
    unfolding patchSource_def Let_def
    by (intro keeps_if keeps_ret keeps_bindA_result [OF patches] grows.kept_on_error target) (auto simp: on_error_eq_Inr)
qed

section \<open>Handling the sources\<close>

lemma grows_trans: "grows L P w \<Longrightarrow> grows (calls w) Q v \<Longrightarrow> (\<And>k. Q k \<Longrightarrow> P k) \<Longrightarrow> grows L P v"
  by (auto simp: grows_def list_all_iff)

lemma keeps_grows_mono: "(\<And>L. keeps (grows L Q) m) \<Longrightarrow> (\<And>k. Q k \<Longrightarrow> P k) \<Longrightarrow> keeps (grows L P) m"
  unfolding keeps_iff by (blast intro: grows_trans grows_refl)

lemma HandleSource_calls:
  assumes "objects_ok E ok" "uses_manager E tm" "source \<in> S" "ok source"
  shows "keeps (grows L (template_call E t S)) (HandleSource E tm t source)"
proof -
  let ?rest = "\<lambda>target. bindA (renderAll E (SchemaMgr tm) t target) (\<lambda>objs.
      bindA (apply_phase E t target objs) (\<lambda>(ready, result). bindA (setCondition E t target ready) (\<lambda>_. ret result)))"
  have "keeps (grows L (template_call E t S)) (?rest target)"
    if "patchSource E (PatchApplier_of tm) t source w = (Inr target, w')" for target w w'
  proof (rule keeps_grows_mono)
    show "keeps (grows L (source_call E target)) (?rest target)" for L
      using after_patches_owned [OF objects_okD(1) [OF assms(1)] assms(2)] objects_okD(2,3) [OF assms(1)]
        patchSource_ok [OF assms(1,4) that] by blast
    have "patched E t source target" using that unfolding patched_def by blast
    then show "source_call E target k \<Longrightarrow> template_call E t S k" for k
      using assms(3) by (auto simp: source_call_def template_call_def split: call.splits)
  qed
  then show ?thesis
    unfolding HandleSource_phases
    by (intro keeps_bindA_result [OF patchSource_calls [OF assms(1,4,3) uses_managerD(2) [OF assms(2)]]])
qed

lemma handle_sources_calls:
  assumes "objects_ok E ok" "uses_manager E tm"
  shows "set sources \<subseteq> S \<Longrightarrow> \<forall>u \<in> S. ok u \<Longrightarrow> keeps (grows L (template_call E t S)) (handle_sources E tm t sources result)"
  by (induction sources arbitrary: result) (auto intro!: keeps_bindA HandleSource_calls [OF assms])

lemma list_sources_listed:
  "list_sources E (Source (Spec t)) nss acc w = (Inr sources, w') \<Longrightarrow> set nss \<subseteq> source_namespaces E t \<Longrightarrow>
    set acc \<subseteq> listed E t \<Longrightarrow> set sources \<subseteq> listed E t"
proof (induction nss arbitrary: acc w)
  case (Cons ns nss)
  then obtain labels w2 items w3 where labels: "labelSelectorToString E (LabelSelector (Source (Spec t))) = Inr labels"
    and items: "external (ListResources (sel_Kind (Source (Spec t))) ns (FieldSelector (Source (Spec t))) labels)
       (srv_List E (sel_Kind (Source (Spec t))) ns (FieldSelector (Source (Spec t))) labels) w2 = (Inr items, w3)"
    and tail: "list_sources E (Source (Spec t)) nss (acc @ items) w3 = (Inr sources, w')"
    by (auto simp: act_eq_Inr)
  have "ns \<in> source_namespaces E t" using Cons.prems(2) by simp
  then have "set items \<subseteq> listed E t" using labels items unfolding external_eq_Inr listed_def by blast
  then show ?case using Cons.IH [OF tail] Cons.prems(2,3) by simp
qed (simp add: ret_eq_Inr)

lemma selectResources_listed:
  assumes "selectResources E tm t w = (Inr sources, w')"
  shows "set sources \<subseteq> listed E t"
proof -
  obtain nss w1 w2 where nss: "GetSourceNamespaces E t w = (Inr nss, w1)"
    and list: "list_sources E (Source (Spec t)) nss [] w1 = (Inr sources, w2)"
    using assms by (auto simp: selectResources_def Let_def act_eq_Inr split: if_splits)
  then have "set nss \<subseteq> source_namespaces E t" unfolding source_namespaces_def by blast
  then show ?thesis using list_sources_listed [OF list] by simp
qed

lemma handle_files_calls:
  assumes "objects_ok E ok" "uses_manager E tm" "git_files E t \<subseteq> S" "\<forall>u \<in> S. ok u"
  shows "keeps (grows L (template_call E t S)) (handle_files E tm t files)"
proof (induction files)
  case (Cons f files)
  obtain filename content where f: "f = (filename, content)" by (cases f)
  show ?case
    unfolding f handle_files.simps
    by (intro keeps_bindA_result [where m = "wrapA e m" for e m] keeps_bindA_result [where m = "liftR r" for r]
        keeps_bindA [OF HandleSource_calls [OF assms(1,2)] Cons.IH] valid_intros)
      (use assms(3,4) in \<open>auto simp: act_eq_Inr git_files_def\<close>)
qed simp

lemma Run_calls:
  assumes "objects_ok E ok" "uses_manager E tm" "\<forall>u \<in> origin E t. ok u"
  shows "keeps (grows L (template_call E t (origin E t))) (Run E tm t)"
proof (cases "GitRepository (Source (Spec t))")
  case None
  then have "origin E t = listed E t" by (simp add: origin_def)
  then have "keeps (grows L (template_call E t (origin E t)))
      (bindA (selectResources E tm t) (\<lambda>sources. handle_sources E tm t sources no_result))"
    by (intro keeps_bindA_result [OF grows.kept_selectResources] handle_sources_calls [OF assms(1,2)])
      (use assms(3) in \<open>auto dest: selectResources_listed\<close>)
  then show ?thesis using None by (simp add: Run_def)
next
  case (Some g)
  then have o: "origin E t = git_files E t" by (simp add: origin_def)
  have "keeps (grows L (template_call E t (origin E t))) (handleGitRepository E tm t g)"
    unfolding handleGitRepository_def
    by (intro valid_intros grows.kept_getGitRepository handle_files_calls [OF assms(1,2)]) (use assms(3) o in auto)
  then show ?thesis using Some by (simp add: Run_def)
qed

section \<open>Reconciling a template\<close>


text \<open>The demo template with a patch, as the server holds it.\<close>

definition patching_template :: template where
  "patching_template = labelled_template\<lparr>Spec := (Spec labelled_template)\<lparr>JsonPatches := [\<lparr>patch_Object = ('''', ''''), Patch = ''[]''\<rparr>]\<rparr>\<rparr>"

definition patching_env :: "(nat, schema gmap) rest_env" where
  "patching_env = labelled_env\<lparr>srv_GetTemplate := \<lambda>n c. (Inr patching_template, c)\<rparr>"

lemma patching_objects_ok: "objects_ok patching_env json_well_formed"
  by (auto simp: objects_ok_def patching_env_def labelled_env_def demo_rest_simps json.object_meta_axioms split: if_splits)

lemma patching_origin_ok: "\<forall>u \<in> origin patching_env patching_template. json_well_formed u"
  by (auto simp: origin_def listed_def git_files_def patching_env_def labelled_env_def demo_rest_simps patching_template_def
      labelled_template_def demo_template_def selector_for_def)


end
