(* ===== verification/Applied.thy ===== *)
theory Applied
  imports Operator Ownership
begin

text \<open>
  What the operator as a whole writes: the three reconcilers and the callbacks of the watches share
  one record of calls, and every object that appears there as applied comes from a step of the run,
  from the template that the server held for this step, and from a source of this template.
\<close>

section \<open>Steps with their requests\<close>

text \<open>The steps of \<open>operator_step\<close>, each with the request or the event that it handles.\<close>

datatype 'c step =
    CrdStep namespaced_name
  | TemplateStep namespaced_name
  | EventStep namespaced_name informer_event
  | RestStep namespaced_name
  | Elsewhere 'c

fun performs :: "('c, 'l, 'z) rest_env_scheme \<Rightarrow> watcher \<Rightarrow> 'c step \<Rightarrow> ('c, 'l) world \<Rightarrow> ('c, 'l) world \<Rightarrow> bool" where
  "performs E wt (CrdStep req) w v \<longleftrightarrow> v = snd (CRD_Reconcile E req w)"
| "performs E wt (TemplateStep req) w v \<longleftrightarrow> v = snd (Template_Reconcile E wt req w)"
| "performs E wt (EventStep req ev) w v \<longleftrightarrow> v = snd (handle_event E (reconcileObject E wt req) ev w)"
| "performs E wt (RestStep req) w v \<longleftrightarrow> (\<exists>r. Reconcile E req w = Some (r, v))"
| "performs E wt (Elsewhere c) w v \<longleftrightarrow> v = w\<lparr>cluster := c\<rparr>"

fun runs :: "('c, 'l, 'z) rest_env_scheme \<Rightarrow> watcher \<Rightarrow> 'c step list \<Rightarrow> ('c, 'l) world \<Rightarrow> ('c, 'l) world \<Rightarrow> bool" where
  "runs E wt [] w v \<longleftrightarrow> v = w"
| "runs E wt (s # ss) w v \<longleftrightarrow> (\<exists>u. performs E wt s w u \<and> runs E wt ss u v)"

lemma operator_step_iff: "operator_step E wt w v \<longleftrightarrow> (\<exists>s. performs E wt s w v)"
proof
  assume "operator_step E wt w v"
  then show "\<exists>s. performs E wt s w v"
  proof cases
    case (rest req r)
    then show ?thesis by (intro exI [of _ "RestStep req"]) auto
  next
    case (elsewhere c)
    then show ?thesis by (intro exI [of _ "Elsewhere c"]) simp
  qed (metis performs.simps)+
next
  assume "\<exists>s. performs E wt s w v"
  then obtain s where "performs E wt s w v" by blast
  then show "operator_step E wt w v" by (cases s) (auto intro: operator_step.intros)
qed

lemma runs_append: "runs E wt (ss @ ss') w v \<longleftrightarrow> (\<exists>u. runs E wt ss w u \<and> runs E wt ss' u v)"
  by (induction ss arbitrary: w) auto

lemma operator_steps_run: "operator_steps E wt w v \<Longrightarrow> \<exists>ss. runs E wt ss w v"
proof (induction rule: operator_steps.induct)
  case (stay w)
  show ?case by (rule exI [of _ "[]"]) simp
next
  case (move w v u)
  then obtain ss s where "runs E wt ss w v" "performs E wt s v u" by (auto simp: operator_step_iff)
  then have "runs E wt (ss @ [s]) w u" by (auto simp: runs_append)
  then show ?case by blast
qed

section \<open>Where applied objects come from\<close>

text \<open>The templates that the server can answer for a request.\<close>

definition served :: "('c, 'l, 'z) rest_env_scheme \<Rightarrow> namespaced_name \<Rightarrow> template \<Rightarrow> bool" where
  "served E req t \<longleftrightarrow> (\<exists>c c'. srv_GetTemplate E req c = (Inr t, c'))"

text \<open>The object that an event reports, as the handler decodes it; deletions report none.\<close>

fun event_value :: "informer_event \<Rightarrow> gval option" where
  "event_value (AddFunc obj) = Some obj"
| "event_value (UpdateFunc oldObj obj) = Some obj"
| "event_value (DeleteFunc obj) = None"

definition reported :: "('c, 'l, 'z) k8s_env_scheme \<Rightarrow> informer_event \<Rightarrow> unstructured set" where
  "reported E ev = {u. \<exists>obj js m. event_value ev = Some obj \<and> MarshalJSON E obj = Inr js \<and> UnmarshalMap E js = Inr m \<and>
     u = \<lparr>Object = m\<rparr>}"

text \<open>The template selects the namespace of the object, all of them with the empty name.\<close>

definition in_scope :: "('c, 'l, 'z) k8s_env_scheme \<Rightarrow> template \<Rightarrow> unstructured \<Rightarrow> bool" where
  "in_scope E t u \<longleftrightarrow> (\<exists>nss w w'. GetSourceNamespaces E t w = (Inr nss, w') \<and>
     (nss = [''''] \<or> GetNamespace (Meta E) u \<in> set nss))"

text \<open>
  The sources that a step handles for a template: when it reconciles the template, the objects that
  the server lists for it or the files of its git repository; when it handles an event of the
  template's watch, the object of this event, if it lies in a namespace that the template selects.
\<close>

fun step_sources :: "('c, 'l, 'z) rest_env_scheme \<Rightarrow> 'c step \<Rightarrow> template \<Rightarrow> unstructured set" where
  "step_sources E (TemplateStep req) t = {u. served E req t \<and> u \<in> origin E t}"
| "step_sources E (EventStep req ev) t = {u. served E req t \<and> u \<in> reported E ev \<and> in_scope E t u}"
| "step_sources E _ t = {}"

text \<open>A call of a step: it applies nothing, or what a template makes of one of its sources.\<close>

definition step_call :: "('c, 'l, 'z) rest_env_scheme \<Rightarrow> 'c step \<Rightarrow> call \<Rightarrow> bool" where
  "step_call E s k \<longleftrightarrow>
     (case k of ApplyUnstructured ns u \<Rightarrow> \<exists>t. template_call E t (step_sources E s t) k | _ \<Rightarrow> True)"

lemma step_call_simps [simp]:
  "step_call E s (GetTemplate n)" "step_call E s ResetRestMapper" "step_call E s (IncGauge g n)"
  "step_call E s GetOpenAPI" "step_call E s GetServerResources" "step_call E s (ListNamespaces x)"
  by (simp_all add: step_call_def)

lemma template_call_mono: "template_call E t S k \<Longrightarrow> S \<subseteq> S' \<Longrightarrow> template_call E t S' k"
  unfolding template_call_def by (cases k) (simp_all, blast)

lemma template_call_step:
  assumes "template_call E t S k" "S \<subseteq> step_sources E s t"
  shows "step_call E s k"
  using template_call_mono [OF assms] by (auto simp: step_call_def split: call.splits)

lemma step_reconciler_calls: "reconciler_calls (step_call E s)"
  by (simp add: reconciler_calls_def step_call_def)

text \<open>The sources of every template that is served satisfy what the proofs need of an object.\<close>

definition sources_ok :: "('c, 'l, 'z) rest_env_scheme \<Rightarrow> (unstructured \<Rightarrow> bool) \<Rightarrow> bool" where
  "sources_ok E ok \<longleftrightarrow> objects_ok E ok \<and> (\<forall>req t. served E req t \<longrightarrow> (\<forall>u \<in> origin E t. ok u)) \<and>
     (\<forall>ev. \<forall>u \<in> reported E ev. ok u)"

lemma sources_okD:
  "sources_ok E ok \<Longrightarrow> objects_ok E ok" "sources_ok E ok \<Longrightarrow> served E req t \<Longrightarrow> \<forall>u \<in> origin E t. ok u"
  "sources_ok E ok \<Longrightarrow> u \<in> reported E ev \<Longrightarrow> ok u"
  unfolding sources_ok_def by blast+

section \<open>The reconcilers\<close>

lemma keeps_get_template:
  assumes "keeps I (external (GetTemplate n) (srv_GetTemplate E req))"
    and "\<And>e. keeps I (f (Inl e))" "\<And>t. served E req t \<Longrightarrow> keeps I (f (Inr t))"
  shows "keeps I (bindA (attempt (external (GetTemplate n) (srv_GetTemplate E req))) f)"
proof (rule keeps_bindA_result [OF keeps_attempt [OF assms(1)]])
  fix x w w' assume x: "attempt (external (GetTemplate n) (srv_GetTemplate E req)) w = (Inr x, w')"
  show "keeps I (f x)"
  proof (cases x)
    case (Inr t)
    then have "served E req t"
      using x by (auto simp: served_def attempt_def external_def split: prod.splits sum.splits failure.splits)
    then show ?thesis using Inr assms(3) by simp
  qed (simp add: assms(2))
qed

lemma Template_Reconcile_step:
  assumes "sources_ok E ok"
  shows "keeps (grows L (step_call E (TemplateStep req))) (Template_Reconcile E wt req)"
proof -
  have run: "keeps (grows L (step_call E (TemplateStep req))) (Run E tm t)" if "served E req t" "uses_manager E tm" for L tm t
  proof (rule keeps_grows_mono)
    show "keeps (grows L (template_call E t (origin E t))) (Run E tm t)" for L
      using Run_calls [OF sources_okD(1) [OF assms] that(2) sources_okD(2) [OF assms that(1)]] .
    show "template_call E t (origin E t) k \<Longrightarrow> step_call E (TemplateStep req) k" for k
      using that(1) by (erule_tac template_call_step) auto
  qed
  show ?thesis
    unfolding Template_Reconcile_def Let_def
    by (intro keeps_get_template) (auto intro!: keeps_bindA trace.kept_reset_mapper keeps_bindA_result trace.kept_count_failure
        grows.kept_NewTemplateManager run trace.kept_inc trace.kept_external simp: count_failure_eq_Inr dest: NewTemplateManager_uses)
qed

lemma reconcileObject_step:
  assumes "sources_ok E ok" "obj \<in> reported E ev"
  shows "keeps (grows L (step_call E (EventStep req ev))) (reconcileObject E wt req obj)"
proof -
  have source: "keeps (grows L (step_call E (EventStep req ev))) (HandleSource E tm t obj)"
    if "served E req t" "uses_manager E tm" "in_scope E t obj" for L tm t
  proof (rule keeps_grows_mono)
    show "keeps (grows L (template_call E t {obj})) (HandleSource E tm t obj)" for L
      using HandleSource_calls [OF sources_okD(1) [OF assms(1)] that(2) _ sources_okD(3) [OF assms]] by blast
    show "template_call E t {obj} k \<Longrightarrow> step_call E (EventStep req ev) k" for k
      using that(1,3) assms(2) by (erule_tac template_call_step) auto
  qed
  have scope: "in_scope E t obj" if "GetSourceNamespaces E t w = (Inr nss, w')" "selected E nss obj" for t nss w w'
    using that unfolding in_scope_def selected_iff by blast
  show ?thesis
    unfolding reconcileObject_def handle_object_def Let_def
    by (intro keeps_get_template) (auto intro!: keeps_bindA_result trace.kept_reset_mapper trace.kept_count_failure
        grows.kept_GetSourceNamespaces grows.kept_NewTemplateManager source trace.kept_inc trace.kept_external
        simp: count_failure_eq_Inr dest: NewTemplateManager_uses scope)
qed

text \<open>The handler of the informer calls back with the object of the event only.\<close>

lemma handle_event_reported:
  assumes "\<And>obj. obj \<in> reported E ev \<Longrightarrow> keeps I (cb obj)"
  shows "keeps I (handle_event E cb ev)"
proof -
  have "keeps I (onUpdate E cb obj)" if "event_value ev = Some obj" for obj
    using assms that by (auto simp: onUpdate_def reported_def intro!: keeps_bindA keeps_attempt split: sum.splits)
  then show ?thesis by (cases ev) simp_all
qed

section \<open>The operator\<close>

interpretation applied: operator_stable "grows L (step_call F s)" "step_call F s"
  for L and F :: "('c, 'l, 'z) rest_env_scheme" and s :: "'c step"
  by unfold_locales (auto simp: counts_kept_iff grows_def)

lemma step_calls:
  assumes "performs E wt s w v" "sources_ok E ok" "steps_decrease E" "grows L (step_call E s) w"
  shows "grows L (step_call E s) v"
proof (cases s)
  case (CrdStep req)
  then have v: "v = snd (CRD_Reconcile E req w)" using assms(1) by simp
  show ?thesis
    unfolding v by (rule keepsD [OF applied.kept_CRD_Reconcile [OF step_reconciler_calls] assms(4)])
next
  case (TemplateStep req)
  then have v: "v = snd (Template_Reconcile E wt req w)" using assms(1) by simp
  show ?thesis
    unfolding v TemplateStep by (rule keepsD [OF Template_Reconcile_step [OF assms(2)] assms(4) [unfolded TemplateStep]])
next
  case (EventStep req ev)
  then have v: "v = snd (handle_event E (reconcileObject E wt req) ev w)" using assms(1) by simp
  show ?thesis
    unfolding v EventStep
    by (rule keepsD [OF handle_event_reported [OF reconcileObject_step [OF assms(2)]] assms(4) [unfolded EventStep]])
next
  case (RestStep req)
  then obtain r where "Reconcile E req w = Some (r, v)" using assms(1) by auto
  then show ?thesis
    using trace.kept_Reconcile [OF step_reconciler_calls assms(3) applied.I_counted] assms(4) unfolding keepsL_def by blast
next
  case (Elsewhere c)
  then show ?thesis using assms(1,4) by (simp add: grows_def)
qed

lemma runs_calls:
  assumes "sources_ok E ok" "steps_decrease E"
  shows "runs E wt ss w v \<Longrightarrow> grows (calls w) (\<lambda>k. \<exists>s \<in> set ss. step_call E s k) v"
proof (induction ss arbitrary: w)
  case (Cons s ss)
  then obtain u where u: "performs E wt s w u" "runs E wt ss u v" by auto
  have "grows (calls w) (step_call E s) u" by (rule step_calls [OF u(1) assms]) simp
  then obtain ks where ks: "calls u = calls w @ ks" "list_all (step_call E s) ks" by (auto simp: grows_def)
  obtain ks' where "calls v = calls u @ ks'" "list_all (\<lambda>k. \<exists>s \<in> set ss. step_call E s k) ks'"
    using Cons.IH [OF u(2)] by (auto simp: grows_def)
  then show ?case using ks by (auto simp: grows_def list_all_iff)
qed simp


section \<open>Examples\<close>

lemma patching_served: "served patching_env req t \<longleftrightarrow> t = patching_template"
  by (auto simp: served_def patching_env_def)

lemma patching_reported: "u \<in> reported patching_env ev \<Longrightarrow> u = \<lparr>Object = Some []\<rparr>"
  by (auto simp: reported_def patching_env_def labelled_env_def demo_rest_simps)

lemma patching_sources_ok: "sources_ok patching_env json_well_formed"
  unfolding sources_ok_def
proof (intro conjI)
  show "\<forall>ev. \<forall>u \<in> reported patching_env ev. json_well_formed u"
    using patching_reported by (fastforce simp: json_well_formed_def obj_get_def entries_def)
qed (use patching_objects_ok patching_origin_ok patching_served in auto)

lemma patching_steps: "steps_decrease patching_env"
  by (simp add: steps_decrease_def patching_env_def labelled_env_def demo_rest_simps)


end
