(* ===== verification/Observed.thy ===== *)
theory Observed
  imports RestController
begin

text \<open>
  What the status of a REST object says about its requests: a generation is marked as observed
  only after its request was answered, never by a conflicting write of a newer one, and a marked
  generation is not sent again.
\<close>

section \<open>The marks that the status writes carry\<close>

definition observed :: "rest \<Rightarrow> 64 word \<Rightarrow> bool" where
  "observed r g \<longleftrightarrow> status_field r ''observedGeneration'' = FormatInt g"

text \<open>Calls after the request of generation \<open>g\<close>: no other request, only writes of the status that mark \<open>g\<close>.\<close>

fun marks :: "64 word \<Rightarrow> call \<Rightarrow> bool" where
  "marks g (UpdateStatus r) \<longleftrightarrow> observed r g"
| "marks g (GetRest n) \<longleftrightarrow> True"
| "marks g (Sleep d) \<longleftrightarrow> True"
| "marks g (IncGauge x n) \<longleftrightarrow> True"
| "marks g k \<longleftrightarrow> False"

lemma observed_sameGeneration: "observed r g \<Longrightarrow> sameGeneration r \<longleftrightarrow> g = Generation r"
  unfolding observed_def by (rule sameGeneration_iff)

definition update_of :: "64 word \<Rightarrow> string gmap option \<Rightarrow> bool" where
  "update_of g su \<longleftrightarrow> (\<exists>m. su = Some m \<and> map_wf m \<and> map_of m ''observedGeneration'' = Some (FormatInt g))"

lemma addStatusUpdates_observed: "update_of g su \<Longrightarrow> observed (addStatusUpdates r su) g"
  by (auto simp: update_of_def observed_def status_field_added)

lemma setRestStatus_observed: "setRestStatus E r w = (Inr r', w') \<Longrightarrow> observed r' g = observed r g"
  by (auto simp: setRestStatus_def act_eq_Inr observed_def status_field_def update_conv' split: option.splits)

lemma setRestStatus_calls: "setRestStatus E r w = (x, w') \<Longrightarrow> calls w' = calls w"
  by (rule grows_nothing [where m = "setRestStatus E r"]) simp_all

lemma status_retry_observed:
  assumes "update_of g su" "observed r g" "status_retry E b r su old e w = (Inr (Some s'), w')"
  shows "observed (snd s') g"
  using assms(2,3) addStatusUpdates_observed [OF assms(1)] unfolding status_retry_def Let_def
  by (auto simp: act_eq_Inr bindA_eq_Inr [of "backoff_step E b"] setRestStatus_observed split: if_splits)

lemma status_body_observed:
  assumes "update_of g su" "observed (snd s) g" "status_body E su old s w = (Inr (Some s'), w')"
  shows "observed (snd s') g"
proof -
  obtain b r where s: "s = (b, r)" by (cases s)
  obtain u :: "gerror + rest" and w1 where "(case u of Inr _ \<Rightarrow> ret None | Inl e \<Rightarrow> status_retry E b r su old e) w1 = (Inr (Some s'), w')"
    using assms(3) unfolding status_body_def s prod.case bindA_eq_Inr by blast
  then obtain e where "status_retry E b r su old e w1 = (Inr (Some s'), w')" by (cases u) (auto simp: ret_eq_Inr)
  then show ?thesis using status_retry_observed [OF assms(1)] assms(2) unfolding s snd_conv by blast
qed

lemma status_body_marks:
  assumes "observed (snd s) g"
  shows "keeps (grows L (marks g)) (status_body E su old s)"
proof -
  obtain b r where s: "s = (b, r)" by (cases s)
  show ?thesis
    unfolding status_body_def s update_status_call_def prod.case
    by (intro valid_intros trace.kept_status_retry) (use assms s in auto)
qed

lemma status_loop_marks:
  assumes "steps_decrease E" "update_of g su" "observed r g"
  shows "\<exists>res v. status_loop E su old (b, r) w = Some (res, v) \<and> grows (calls w) (marks g) v"
proof (rule status.ends_keeping [where P = "\<lambda>s. observed (snd s) g"])
  show "0 < Steps (fst s) \<Longrightarrow> observed (snd s) g \<Longrightarrow> status_body E su old s w = (Inr (Some s'), w') \<Longrightarrow>
      Steps (fst s') < Steps (fst s) \<and> observed (snd s') g" for s w s' w'
    using status_body_steps [OF assms(1)] status_body_observed [OF assms(2)] by blast
qed (use assms(3) in \<open>simp_all add: keepsD [OF status_body_marks]\<close>)

lemma updateStatus_marks:
  assumes "steps_decrease E" "update_of g su"
  shows "\<exists>res v. updateStatus E r su old w = Some (res, v) \<and> grows (calls w) (marks g) v"
proof (cases "map_eq (the_map (rest_Status (addStatusUpdates r su))) old")
  case True
  then show ?thesis by (simp add: updateStatus_def)
next
  case False
  obtain m where "rest_Status (addStatusUpdates r su) = Some m" by (simp add: addStatusUpdates_def)
  then obtain r' v where set: "setRestStatus E (addStatusUpdates r su) w = (Inr r', v)" "calls v = calls w"
    by (rule setRestStatus_ok)
  then have "observed r' g"
    using addStatusUpdates_observed [OF assms(2)] setRestStatus_observed by blast
  then show ?thesis
    using status_loop_marks [OF assms, of r' old initial_backoff v] False set by (simp add: updateStatus_def Let_def)
qed

section \<open>Sending a generation\<close>

text \<open>A call that neither sends a request nor writes the object or its status.\<close>

definition silent :: "call \<Rightarrow> bool" where
  "silent k \<longleftrightarrow> \<not> is_write k \<and> \<not> is_request k"

lemma silent_simps [simp]:
  "silent (GetRest n)" "silent ResetRestMapper" "silent (IncGauge x n)" "\<not> silent (HttpDo q)" "\<not> silent (UpdateStatus r)"
  "\<not> silent (UpdateObject r)"
  by (simp_all add: silent_def)

lemma sameGeneration_with_status_iff [simp]: "sameGeneration (with_status r) = sameGeneration r"
  by (cases "rest_Status r") (auto simp: sameGeneration_def status_field_def the_map_def split: sum.splits)

lemma Update_new_generation:
  assumes "Update E r w = (Inr su, w')" "\<not> sameGeneration r"
  obtains "update_of (Generation r) su" "no_url E r (UpdateAction (rest_Spec r))" "calls w' = calls w"
  | q a c1 c2 where "update_of (Generation r) su" "action_request E r (UpdateAction (rest_Spec r)) q"
      "calls w' = calls w @ [HttpDo q]" "srv_HttpDo E q c1 = (Inr a, c2)" "200 \<le> StatusCode a" "StatusCode a \<le> 299"
  using assms(1)
proof (cases rule: Update_sends)
  case (2 resp w1 m)
  have su: "update_of (Generation r) su"
    using 2(4,5) by (simp add: update_of_def update_conv' map_wf_def distinct_update)
  from 2(2) show ?thesis
    by (rule doRequest_action) (use that su 2(3) in auto)
qed (use assms(2) in simp)

lemma incRESTSuccess_marks: "keeps (grows L (marks g)) (incRESTSuccess n)"
  by (rule trace.kept_incREST) simp

lemma success_marks:
  assumes "steps_decrease E" "update_of g su"
  shows "\<exists>res v. bindL (updateStatus E r su old) (\<lambda>_. total (incRESTSuccess n)) w = Some (res, v) \<and> grows (calls w) (marks g) v"
proof -
  obtain res v where u: "updateStatus E r su old w = Some (res, v)" "grows (calls w) (marks g) v"
    using updateStatus_marks [OF assms] by blast
  obtain y v' where "incRESTSuccess n v = (y, v')" by (cases "incRESTSuccess n v")
  then show ?thesis
    using u keepsD [OF incRESTSuccess_marks u(2), of n] by (cases res) (auto simp: bindL_def total_def)
qed

text \<open>
  What a reconciliation that has to send the generation of \<open>r\<close> can do after the fetch, by its result and its calls.
\<close>

inductive sent_or_failed :: "('c, 'l, 'z) rest_env_scheme \<Rightarrow> rest \<Rightarrow> unit result \<Rightarrow> call list \<Rightarrow> bool"
  for E r where
  failed: "list_all (\<lambda>k. \<not> is_write k) ks \<Longrightarrow> sent_or_failed E r (Inl e) ks"
| sent: "action_request E r (UpdateAction (rest_Spec r)) q \<Longrightarrow> srv_HttpDo E q c1 = (Inr a, c2) \<Longrightarrow> 200 \<le> StatusCode a \<Longrightarrow>
    StatusCode a \<le> 299 \<Longrightarrow> list_all (marks (Generation r)) post \<Longrightarrow> sent_or_failed E r res (HttpDo q # post)"
| unsent: "no_url E r (UpdateAction (rest_Spec r)) \<Longrightarrow> list_all (marks (Generation r)) post \<Longrightarrow> sent_or_failed E r res post"

lemma marks_sameGeneration:
  "list_all (marks g) ks \<Longrightarrow> UpdateStatus r \<in> set ks \<Longrightarrow> sameGeneration r \<longleftrightarrow> Generation r = g"
  using observed_sameGeneration by (fastforce simp: list_all_iff)

lemma marks_no_request: "list_all (marks g) ks \<Longrightarrow> list_all (\<lambda>k. \<not> is_request k) ks"
  by (auto simp: list_all_iff elim!: is_request.elims)

lemma sent_or_failed_observed: "sent_or_failed E r0 res ks \<Longrightarrow> UpdateStatus r \<in> set ks \<Longrightarrow> observed r (Generation r0)"
  by (induction rule: sent_or_failed.induct) (fastforce simp: list_all_iff)+

lemma reconcile_new_generation:
  assumes "steps_decrease E" "DeletionTimestamp r = None" "RESTDeleteFinalizer \<in> set (Finalizers r)" "\<not> sameGeneration r"
  shows "\<exists>res v ks. reconcile_rest E n old r w = Some (res, v) \<and> calls v = calls w @ ks \<and> sent_or_failed E r res ks"
proof -
  obtain x w2 where u: "Update E r w = (x, w2)" by (cases "Update E r w")
  have run: "reconcile_rest E n old r w = bindL (total (count_failure (incRESTFailed n) (Update E r)))
      (\<lambda>su. bindL (updateStatus E r su old) (\<lambda>_. total (incRESTSuccess n))) w"
    using assms(2,3) by (simp add: reconcile_rest_def)
  show ?thesis
  proof (cases x)
    case (Inl f)
    let ?m = "count_failure (incRESTFailed n) (Update E r)"
    have "keeps (grows (calls w) (\<lambda>k. \<not> is_write k)) ?m"
      by (intro trace.kept_count_failure trace.kept_Update trace.kept_incREST) simp_all
    then have "grows (calls w) (\<lambda>k. \<not> is_write k) (snd (?m w))" by (rule keepsD) simp
    moreover have "\<exists>e v. ?m w = (Inl e, v)"
      using u Inl by (cases f) (simp_all add: count_failure_def attempt_def bindA_def raise_def incRESTFailed_def record_call_def)
    ultimately show ?thesis
      using run by (auto simp: bindL_def total_def grows_def intro: sent_or_failed.failed)
  next
    case (Inr su)
    then have ok: "Update E r w = (Inr su, w2)" using u by simp
    then have update: "update_of (Generation r) su" by (rule Update_new_generation [OF _ assms(4)])
    obtain res v where "bindL (updateStatus E r su old) (\<lambda>_. total (incRESTSuccess n)) w2 = Some (res, v)"
      and marked: "grows (calls w2) (marks (Generation r)) v"
      using success_marks [OF assms(1) update] by blast
    moreover have "count_failure (incRESTFailed n) (Update E r) w = (Inr su, w2)"
      using ok by (simp add: count_failure_def attempt_def bindA_def ret_def)
    ultimately have run': "reconcile_rest E n old r w = Some (res, v)" using run by (simp add: bindL_def total_def)
    obtain post where post: "calls v = calls w2 @ post" "list_all (marks (Generation r)) post"
      using marked by (auto simp: grows_def)
    from ok assms(4) show ?thesis
    proof (cases rule: Update_new_generation)
      case 1
      then show ?thesis using run' post sent_or_failed.unsent [OF 1(2) post(2)] by auto
    next
      case (2 q a c1 c2)
      then show ?thesis using run' post sent_or_failed.sent [OF 2(2,4-6) post(2)] by auto
    qed
  qed
qed

lemma Reconcile_found_new:
  assumes "steps_decrease E" "srv_GetRest E req (cluster w) = (Inr r, c)" "DeletionTimestamp r = None"
    "RESTDeleteFinalizer \<in> set (Finalizers r)" "\<not> sameGeneration r"
  obtains ks res v ks1 where "ks = [] \<or> ks = [ResetRestMapper]" "Reconcile E req w = Some (res, v)"
    "calls v = calls w @ GetRest (nn_string req) # ks @ ks1" "sent_or_failed E (with_status r) res ks1"
  using assms(2)
proof (rule Reconcile_found)
  fix w1 ks
  assume w1: "calls w1 = calls w @ GetRest (nn_string req) # ks" "ks = [] \<or> ks = [ResetRestMapper]"
    "Reconcile E req w = reconcile_rest E (nn_string req) (cloneMap (the_map (rest_Status r))) (with_status r) w1"
  show ?thesis
    using reconcile_new_generation [OF assms(1), of "with_status r" "nn_string req" "cloneMap (the_map (rest_Status r))" w1]
      assms(3-5) w1 that [OF w1(2)] by auto
qed

text \<open>
  C15. Reconciling an object that is not being deleted and carries the finalizer, with a generation
  that was not sent before: either it fails and writes nothing, or the request of its update action
  is sent exactly once and answered 2xx before anything is written, and every write of the status
  from then on marks exactly the generation that was sent, also when a conflict makes the loop fetch
  a newer object. Only for an object without any URL, its own or that of the action, the generation
  is marked without a request.
\<close>
theorem Reconcile_new_generation:
  assumes "steps_decrease E" "srv_GetRest E req (cluster w) = (Inr r, c)" "DeletionTimestamp r = None"
    "RESTDeleteFinalizer \<in> set (Finalizers r)" "\<not> sameGeneration r"
  shows "\<exists>res v ks. Reconcile E req w = Some (res, v) \<and> calls v = calls w @ ks \<and>
    (isl res \<and> list_all (\<lambda>k. \<not> is_write k) ks \<or>
     (\<exists>pre q post a c1 c2. ks = pre @ HttpDo q # post \<and> list_all silent pre \<and> list_all (\<lambda>k. \<not> is_request k) post \<and>
        action_request E (with_status r) (UpdateAction (rest_Spec r)) q \<and>
        srv_HttpDo E q c1 = (Inr a, c2) \<and> 200 \<le> StatusCode a \<and> StatusCode a \<le> 299 \<and>
        (\<forall>r'. UpdateStatus r' \<in> set ks \<longrightarrow> (sameGeneration r' \<longleftrightarrow> Generation r' = Generation r))) \<or>
     (no_url E (with_status r) (UpdateAction (rest_Spec r)) \<and> list_all (\<lambda>k. \<not> is_request k) ks \<and>
        (\<forall>r'. UpdateStatus r' \<in> set ks \<longrightarrow> (sameGeneration r' \<longleftrightarrow> Generation r' = Generation r))))"
proof -
  obtain ks res v ks1 where ks: "ks = [] \<or> ks = [ResetRestMapper]"
    and run: "Reconcile E req w = Some (res, v)" "calls v = calls w @ GetRest (nn_string req) # ks @ ks1"
    and cases: "sent_or_failed E (with_status r) res ks1"
    by (rule Reconcile_found_new [OF assms])
  let ?pre = "GetRest (nn_string req) # ks"
  have pre: "list_all silent ?pre" "list_all (\<lambda>k. \<not> is_write k) ?pre" "list_all (\<lambda>k. \<not> is_request k) ?pre"
    "\<And>r'. UpdateStatus r' \<notin> set ?pre"
    using ks by auto
  have marked: "\<forall>r'. UpdateStatus r' \<in> set (?pre @ ks') \<longrightarrow> (sameGeneration r' \<longleftrightarrow> Generation r' = Generation r)"
    if "list_all (marks (Generation r)) post" "ks' = post \<or> (\<exists>q. ks' = HttpDo q # post)" for ks' post
    using marks_sameGeneration [OF that(1)] that(2) pre(4) by auto
  show ?thesis
    using cases
  proof cases
    case (failed e)
    then show ?thesis using run pre(2) by auto
  next
    case (sent q c1 a c2 post)
    then have post: "list_all (marks (Generation r)) post" by simp
    have c: "calls v = calls w @ ?pre @ HttpDo q # post" using run sent(1) by simp
    have m: "\<forall>r'. UpdateStatus r' \<in> set (?pre @ HttpDo q # post) \<longrightarrow> (sameGeneration r' \<longleftrightarrow> Generation r' = Generation r)"
      using marked [OF post] by blast
    show ?thesis
      by (intro exI [of _ res] exI [of _ v] exI [of _ "?pre @ HttpDo q # post"] conjI, rule run(1), rule c, rule disjI2, rule disjI1,
          intro exI [of _ ?pre] exI [of _ q] exI [of _ post] exI [of _ a] exI [of _ c1] exI [of _ c2] conjI)
        (use pre(1) sent(2-5) marks_no_request [OF post] m in simp_all)
  next
    case unsent
    then have post: "list_all (marks (Generation r)) ks1" by simp
    have "calls v = calls w @ ?pre @ ks1" "list_all (\<lambda>k. \<not> is_request k) (?pre @ ks1)"
      using run(2) pre(3) marks_no_request [OF post] by simp_all
    moreover have "\<forall>r'. UpdateStatus r' \<in> set (?pre @ ks1) \<longrightarrow> (sameGeneration r' \<longleftrightarrow> Generation r' = Generation r)"
      using marked [OF post] by blast
    ultimately show ?thesis
      by (intro exI [of _ res] exI [of _ v] exI [of _ "?pre @ ks1"] conjI disjI2) (use run(1) unsent(1) in simp_all)
  qed
qed

text \<open>
  C16. A generation is sent once: when the reconciliation of an object with a URL has sent the request
  of a new generation and written the status, and the server still holds this generation with the
  finalizer and the status that was written and no deletion, every further reconciliation ends with
  success without a request and without a write.
\<close>
theorem Reconcile_sent_once:
  assumes "steps_decrease E" "srv_GetRest E req (cluster w) = (Inr r, c)" "DeletionTimestamp r = None"
    "RESTDeleteFinalizer \<in> set (Finalizers r)" "\<not> sameGeneration r" "rest_URL (rest_Spec r) \<noteq> ''''"
    and "Reconcile E req w = Some (res, v)" "calls v = calls w @ ks" "UpdateStatus r' \<in> set ks"
    and "srv_GetRest E req (cluster u) = (Inr r2, c2)" "rest_Status r2 = rest_Status r'" "Generation r2 = Generation r"
      "DeletionTimestamp r2 = None" "RESTDeleteFinalizer \<in> set (Finalizers r2)" "map_wf (the_map (rest_Status r2))"
  shows "\<exists>u' ks'. Reconcile E req u = Some (Inr (), u') \<and> calls u' = calls u @ ks' \<and> list_all silent ks'"
proof -
  obtain ks0 res1 v1 ks1 where ks0: "ks0 = [] \<or> ks0 = [ResetRestMapper]"
    and run: "Reconcile E req w = Some (res1, v1)" "calls v1 = calls w @ GetRest (nn_string req) # ks0 @ ks1"
    and cases: "sent_or_failed E (with_status r) res1 ks1"
    by (rule Reconcile_found_new [OF assms(1-5)])
  have "ks = GetRest (nn_string req) # ks0 @ ks1" using run assms(7,8) by simp
  then have "UpdateStatus r' \<in> set ks1" using assms(9) ks0 by auto
  then have "observed r' (Generation r)" using sent_or_failed_observed [OF cases] by simp
  then have "observed r2 (Generation r2)" using assms(11,12) by (simp add: observed_def status_field_def)
  then have "sameGeneration r2" by (simp add: observed_sameGeneration)
  with assms(10,13,14) obtain u' ks2 where "Reconcile E req u = Some (Inr (), u')" "ks2 = [] \<or> ks2 = [ResetRestMapper]"
    "calls u' = calls u @ GetRest (nn_string req) # ks2 @ [IncGauge RestCount (nn_string req), IncGauge RestSuccess (nn_string req)]"
    using Reconcile_idle [of E req u r2 c2] assms(15) by blast
  then show ?thesis by (intro exI conjI) auto
qed

section \<open>Examples\<close>

text \<open>A server that holds the demo object, and in its later states the same object with a status.\<close>

definition written :: rest where
  "written = demo_rest\<lparr>rest_Status :=
     Some [(''id'', ''1''), (''observedGeneration'', ''3''), (''lastUpdated'', ''today'')]\<rparr>"

definition storing_env :: "(nat, schema gmap) rest_env" where
  "storing_env = (demo_rest_env True demo_rest)\<lparr>srv_GetRest := \<lambda>n c. (Inr (if c = 0 then demo_rest else written), c)\<rparr>"

lemmas storing_simps = storing_env_def demo_rest_simps

lemma storing_templates:
  "templateField storing_env r field w = (Inr field, w)" "templateStatus storing_env r resp field w = (Inr field, w)"
  by (simp_all add: templateField_def templateStatus_def parse_field_def execute_field_def storing_simps config_map_def
      obj_get_def entries_def put_data_def query_def wrapA_def bindA_def liftR_def ret_def)

lemma storing_Update:
  "\<exists>v. Update storing_env (with_status demo_rest) w = (Inr (Some [(''id'', ''1''), (''observedGeneration'', ''3'')]), v)"
proof -
  let ?act = "UpdateAction (rest_Spec demo_rest)"
  obtain q where "new_request storing_env (with_status demo_rest) (Method ?act) ''http://api'' (Body ?act) w = (Inr q, w)"
    by (simp add: new_request_def authorization_def demo_rest_def getRestAuthorization_def storing_simps query_def wrapA_def
        bindA_def ret_def)
  moreover have "\<exists>v. send_request storing_env q w = (Inr ''ok'', v)"
    by (simp add: send_request_def storing_simps external_def wrapA_def bindA_def liftR_def ret_def)
  moreover have act: "act_URL ?act = ''''" "rest_URL (rest_Spec demo_rest) = ''http://api''" "act_Status ?act = [(''id'', ''1'')]"
    "\<not> sameGeneration demo_rest" "Generation demo_rest = 3"
    by (simp_all add: demo_rest_def sameGeneration_def)
  ultimately have "\<exists>v. doRequest storing_env (with_status demo_rest) (act_URL ?act) (Method ?act) (Body ?act) w = (Inr ''ok'', v)"
    by (auto simp: doRequest_def storing_templates wrapA_def bindA_def)
  moreover have "FormatInt 3 = ''3''" by code_simp
  ultimately show ?thesis
    using act by (auto simp: Update_def Let_def storing_templates wrapA_def bindA_def ret_def)
qed

lemma storing_reconcile:
  "\<exists>v. reconcile_rest storing_env n [] (with_status demo_rest) w = Some (Inr (), v) \<and> UpdateStatus written \<in> set (calls v)"
proof -
  let ?su = "Some [(''id'', ''1''), (''observedGeneration'', ''3'')]"
  obtain v where u: "Update storing_env (with_status demo_rest) w = (Inr ?su, v)" using storing_Update by blast
  have set: "setRestStatus storing_env (addStatusUpdates (with_status demo_rest) ?su) v = (Inr written, v)"
    by (simp add: setRestStatus_def addStatusUpdates_def meta_now_def storing_simps query_def bindA_def ret_def the_map_def
        written_def with_status_def demo_rest_def)
  have "status_body storing_env ?su [] (initial_backoff, written) v = (Inr None, v\<lparr>calls := calls v @ [UpdateStatus written]\<rparr>)"
    by (simp add: status_body_def update_status_call_def storing_simps external_def attempt_def bindA_def ret_def)
  then have "status_loop storing_env ?su [] (initial_backoff, written) v = Some (Inr (), v\<lparr>calls := calls v @ [UpdateStatus written]\<rparr>)"
    by (intro status.ended) (simp add: initial_backoff_def)
  moreover have "\<not> map_eq (the_map (rest_Status (addStatusUpdates (with_status demo_rest) ?su))) []"
    by (simp add: addStatusUpdates_def the_map_def demo_rest_def map_eq_def)
  moreover have "DeletionTimestamp demo_rest = None" "RESTDeleteFinalizer \<in> set (Finalizers demo_rest)"
    by (simp_all add: demo_rest_def RESTDeleteFinalizer_def)
  ultimately show ?thesis
    using u set by (simp add: reconcile_rest_def updateStatus_def Let_def count_failure_def attempt_def bindL_def total_def bindA_def
        ret_def incRESTSuccess_def record_call_def)
qed

lemma storing_get:
  "srv_GetRest storing_env req 0 = (Inr demo_rest, 0)" "srv_GetRest storing_env req 1 = (Inr written, 1)"
  by (simp_all add: storing_env_def)

lemma storing_steps: "steps_decrease storing_env"
  by (simp add: steps_decrease_def storing_simps)

lemma demo_new:
  "DeletionTimestamp demo_rest = None" "RESTDeleteFinalizer \<in> set (Finalizers demo_rest)" "\<not> sameGeneration demo_rest"
  "rest_URL (rest_Spec demo_rest) \<noteq> ''''"
  by (simp_all add: demo_rest_def RESTDeleteFinalizer_def sameGeneration_def)

lemma storing_run:
  assumes "cluster w = 0" "calls w = []"
  shows "\<exists>v. Reconcile storing_env demo_request w = Some (Inr (), v) \<and> calls v = calls w @ calls v \<and> UpdateStatus written \<in> set (calls v)"
proof -
  have get: "srv_GetRest storing_env demo_request (cluster w) = (Inr demo_rest, 0)" using assms storing_get by simp
  obtain w1 ks where w1: "calls w1 = calls w @ GetRest (nn_string demo_request) # ks" "ks = [] \<or> ks = [ResetRestMapper]"
    "Reconcile storing_env demo_request w =
      reconcile_rest storing_env (nn_string demo_request) (cloneMap (the_map (rest_Status demo_rest))) (with_status demo_rest) w1"
    by (rule Reconcile_found [OF get])
  have "cloneMap (the_map (rest_Status demo_rest)) = []" by (simp add: cloneMap_def demo_rest_def the_map_def)
  then show ?thesis
    using w1(3) storing_reconcile [of "nn_string demo_request" w1] assms(2) by auto
qed

definition empty_world :: "(nat, schema gmap) world" where
  "empty_world = world_at 0 (NewSchemaCache storing_env 10)"

lemma empty_world_simps [simp]: "cluster empty_world = 0" "calls empty_world = []"
  by (simp_all add: empty_world_def world_at_def)

theorem Reconcile_new_generation_witness:
  "\<exists>v pre q post. Reconcile storing_env demo_request empty_world = Some (Inr (), v) \<and>
    calls v = pre @ HttpDo q # post \<and> list_all silent pre \<and> list_all (\<lambda>k. \<not> is_request k) post \<and> UpdateStatus written \<in> set post \<and>
    action_request storing_env (with_status demo_rest) (UpdateAction (rest_Spec demo_rest)) q"
proof -
  obtain v where v: "Reconcile storing_env demo_request empty_world = Some (Inr (), v)" "UpdateStatus written \<in> set (calls v)"
    using storing_run [of empty_world] by auto
  have get: "srv_GetRest storing_env demo_request (cluster empty_world) = (Inr demo_rest, 0)" using storing_get by simp
  have "\<not> no_url storing_env (with_status demo_rest) (UpdateAction (rest_Spec demo_rest))"
    using demo_new(4) by (simp add: no_url_def)
  with Reconcile_new_generation [OF storing_steps get demo_new(1-3)]
  obtain pre q post where c: "calls v = pre @ HttpDo q # post" "list_all silent pre" "list_all (\<lambda>k. \<not> is_request k) post"
    "action_request storing_env (with_status demo_rest) (UpdateAction (rest_Spec demo_rest)) q"
    using v(1) by auto
  then have "UpdateStatus written \<in> set post" using v(2) by (auto simp: list_all_iff)
  then show ?thesis using v(1) c by blast
qed

theorem Reconcile_sent_once_witness:
  "\<exists>v u ks'. Reconcile storing_env demo_request empty_world = Some (Inr (), v) \<and> UpdateStatus written \<in> set (calls v) \<and>
    Reconcile storing_env demo_request (v\<lparr>cluster := 1\<rparr>) = Some (Inr (), u) \<and> calls u = calls v @ ks' \<and> list_all silent ks'"
proof -
  obtain v where v: "Reconcile storing_env demo_request empty_world = Some (Inr (), v)"
    "calls v = calls empty_world @ calls v" "UpdateStatus written \<in> set (calls v)"
    using storing_run [of empty_world] by auto
  have get: "srv_GetRest storing_env demo_request (cluster empty_world) = (Inr demo_rest, 0)"
    "srv_GetRest storing_env demo_request (cluster (v\<lparr>cluster := 1\<rparr>)) = (Inr written, 1)"
    using storing_get by simp_all
  have "\<exists>u ks'. Reconcile storing_env demo_request (v\<lparr>cluster := 1\<rparr>) = Some (Inr (), u) \<and>
      calls u = calls (v\<lparr>cluster := 1\<rparr>) @ ks' \<and> list_all silent ks'"
    by (rule Reconcile_sent_once [OF storing_steps get(1) demo_new v get(2)])
      (simp_all add: written_def demo_rest_def RESTDeleteFinalizer_def the_map_def map_wf_def)
  then show ?thesis using v by auto
qed

end
