(* ===== verification/Flags.thy ===== *)
theory Flags
  imports Startup "HOL-Library.Log_Nat"
begin

text \<open>
  The command line of \<open>main.go\<close>: \<open>main\<close> binds four flags to its settings, \<open>flag.Parse\<close> reads the
  arguments into them, and package \<open>time\<close> parses the durations. Strings are lists of bytes.
\<close>

section \<open>Floating point\<close>

text \<open>
  A positive rational rounded to the nearest \<open>float64\<close>, ties to even: 53 significant bits. The
  values here lie between \<open>10\<^sup>-\<^sup>1\<^sup>9\<close> and \<open>10\<^sup>2\<^sup>0\<close>, far from the ends of the range of the exponent.
\<close>

definition round_even :: "rat \<Rightarrow> int" where
  "round_even x =
     (let f = \<lfloor>x\<rfloor>; r = x - of_int f in if r < 1 / 2 then f else if 1 / 2 < r then f + 1 else if even f then f else f + 1)"

definition exponent :: "rat \<Rightarrow> int" where
  "exponent x =
     (if 1 \<le> x then int (floorlog 2 (nat \<lfloor>x\<rfloor>)) - 1 else - int (floorlog 2 (nat (\<lceil>1 / x\<rceil> - 1))))"

definition float64 :: "rat \<Rightarrow> rat" where
  "float64 x =
     (if x = 0 then 0
      else let e = exponent x - 52; p = 2 ^ nat \<bar>e\<bar> in
        if 0 \<le> e then of_int (round_even (x / p)) * p else of_int (round_even (x * p)) / p)"

section \<open>Durations\<close>

text \<open>The names of the units, microseconds also with both Greek letters, in nanoseconds.\<close>

definition unitMap :: "string \<Rightarrow> nat option" where
  "unitMap = map_of
     [(''ns'', 1), (''us'', 1000), ([CHR 0xC2, CHR 0xB5, CHR ''s''], 1000), ([CHR 0xCE, CHR 0xBC, CHR ''s''], 1000),
      (''ms'', 1000000), (''s'', 1000000000), (''m'', 60 * 1000000000), (''h'', 60 * 60 * 1000000000)]"

fun leadingInt :: "nat \<Rightarrow> string \<Rightarrow> (nat \<times> string) option" where
  "leadingInt x [] = Some (x, [])"
| "leadingInt x (c # s) =
     (case digit_val c of
        None \<Rightarrow> Some (x, c # s)
      | Some d \<Rightarrow>
          if 2 ^ 63 div 10 < x then None
          else if 2 ^ 63 < x * 10 + d then None
          else leadingInt (x * 10 + d) s)"

text \<open>The digits after the point; those that no longer fit are skipped.\<close>

fun leadingFraction :: "bool \<Rightarrow> nat \<Rightarrow> nat \<Rightarrow> string \<Rightarrow> nat \<times> nat \<times> string" where
  "leadingFraction overflow x scale [] = (x, scale, [])"
| "leadingFraction overflow x scale (c # s) =
     (case digit_val c of
        None \<Rightarrow> (x, scale, c # s)
      | Some d \<Rightarrow>
          if overflow \<or> (2 ^ 63 - 1) div 10 < x \<or> 2 ^ 63 < x * 10 + d then leadingFraction True x scale s
          else leadingFraction False (x * 10 + d) (scale * 10) s)"

definition fraction_ns :: "nat \<Rightarrow> nat \<Rightarrow> nat \<Rightarrow> nat" where
  "fraction_ns f unit scale = nat \<lfloor>float64 (float64 (of_nat f) * float64 (of_nat unit / of_nat scale))\<rfloor>"

definition is_unit_char :: "char \<Rightarrow> bool" where
  "is_unit_char c \<longleftrightarrow> c \<noteq> CHR ''.'' \<and> digit_val c = None"

text \<open>One number with its unit, and the rest of the string; None is a parse error.\<close>

definition next_component :: "string \<Rightarrow> (nat \<times> string) option" where
  "next_component s =
     (if s = [] \<or> is_unit_char (hd s) then None
      else (case leadingInt 0 s of
        None \<Rightarrow> None
      | Some (v, s1) \<Rightarrow>
          (let pre = length s1 \<noteq> length s;
               (f, scale, post, s2) =
                 (if s1 \<noteq> [] \<and> hd s1 = CHR ''.'' then
                    (case leadingFraction False 0 1 (tl s1) of (f, scale, s') \<Rightarrow> (f, scale, length s' \<noteq> length (tl s1), s'))
                  else (0, 1, False, s1))
           in if \<not> pre \<and> \<not> post then None
              else let u = takeWhile is_unit_char s2; rest = dropWhile is_unit_char s2 in
                if u = [] then None
                else (case unitMap u of
                  None \<Rightarrow> None
                | Some unit \<Rightarrow>
                    if 2 ^ 63 div unit < v then None
                    else if 0 < f then
                      (let v' = (v * unit + fraction_ns f unit scale) mod 2 ^ 64 in
                       if 2 ^ 63 < v' then None else Some (v', rest))
                    else Some (v * unit, rest)))))"

lemma leadingInt_length: "leadingInt x s = Some (v, s') \<Longrightarrow> length s' \<le> length s"
  by (induction x s rule: leadingInt.induct) (auto split: option.splits if_splits)

lemma leadingFraction_length: "leadingFraction b x scale s = (f, scale', s') \<Longrightarrow> length s' \<le> length s"
  by (induction b x scale s rule: leadingFraction.induct) (auto split: option.splits if_splits)

lemma rest_shorter: "takeWhile P s \<noteq> [] \<Longrightarrow> length (dropWhile P s) < length s"
  by (cases s) (auto simp: le_imp_less_Suc length_dropWhile_le split: if_splits)

lemma next_component_length:
  assumes "next_component s = Some (v, rest)"
  shows "length rest < length s"
proof -
  obtain x s1 where i: "leadingInt 0 s = Some (x, s1)"
    using assms by (auto simp: next_component_def split: if_splits option.splits)
  obtain f scale s' where fr: "leadingFraction False 0 1 (tl s1) = (f, scale, s')" by (metis prod_cases3)
  have "length (tl s1) \<le> length s1" by simp
  then have le: "length s1 \<le> length s" "length s' \<le> length s"
    using leadingInt_length [OF i] leadingFraction_length [OF fr] by linarith+
  have "takeWhile is_unit_char s1 \<noteq> [] \<and> rest = dropWhile is_unit_char s1 \<or>
      takeWhile is_unit_char s' \<noteq> [] \<and> rest = dropWhile is_unit_char s'"
    using assms i fr by (auto simp: next_component_def Let_def split: if_splits option.splits)
  then show ?thesis using rest_shorter le by (metis less_le_trans)
qed

text \<open>The sum of the components, in the \<open>uint64\<close> of the source.\<close>

function (sequential) sum_components :: "nat \<Rightarrow> string \<Rightarrow> nat option" where
  "sum_components d [] = Some d"
| "sum_components d s =
     (case next_component s of
        None \<Rightarrow> None
      | Some (v, rest) \<Rightarrow>
          (let d' = (d + v) mod 2 ^ 64 in if 2 ^ 63 < d' then None else sum_components d' rest))"
  by pat_completeness auto
termination
  by (relation "measure (\<lambda>(d, s). length s)") (auto dest: next_component_length)

definition ParseDuration :: "string \<Rightarrow> i64 option" where
  "ParseDuration s =
     (case split_sign s of (neg, u) \<Rightarrow>
        if u = ''0'' then Some 0
        else if u = [] then None
        else (case sum_components 0 u of
          None \<Rightarrow> None
        | Some d \<Rightarrow>
            if neg then Some (- of_nat d)
            else if 2 ^ 63 - 1 < d then None
            else Some (of_nat d)))"

section \<open>Flags\<close>

text \<open>
  The state that the flags write: the settings of \<open>main\<close>, and \<open>'o\<close> for the flags that other packages
  define on the same command line (the options of zap that \<open>opts.BindFlags\<close> binds, and \<open>kubeconfig\<close>
  of controller-runtime). These are a parameter: for a name whether it is a boolean flag, and what
  setting it does.
\<close>

record 'o command_line =
  settings :: startup_flags
  other_opts :: 'o

type_synonym 'o flag = "bool \<times> (string \<Rightarrow> 'o \<Rightarrow> 'o option)"

text \<open>The errors of \<open>flag.Parse\<close>; after any of them the process exits.\<close>

datatype flag_error =
    ErrHelp
  | BadSyntax string
  | NotDefined string
  | NeedsArgument string
  | InvalidValue string string

definition set_settings :: "(startup_flags \<Rightarrow> startup_flags) option \<Rightarrow> 'o command_line \<Rightarrow> 'o command_line option" where
  "set_settings f c = map_option (\<lambda>f. c\<lparr>settings := f (settings c)\<rparr>) f"

definition main_flags :: "string \<Rightarrow> 'o command_line flag option" where
  "main_flags = map_of
     [(''sync-period'', False, \<lambda>v. set_settings (map_option (\<lambda>d fl. fl\<lparr>syncPeriod := d\<rparr>) (ParseDuration v))),
      (''expire'', False, \<lambda>v. set_settings (map_option (\<lambda>d fl. fl\<lparr>expire_flag := d\<rparr>) (ParseDuration v))),
      (''metrics-addr'', False, \<lambda>v. set_settings (Some (\<lambda>fl. fl\<lparr>metricsAddr := v\<rparr>))),
      (''enable-leader-election'', True, \<lambda>v. set_settings
         (case ParseBool v of Inl _ \<Rightarrow> None | Inr b \<Rightarrow> Some (\<lambda>fl. fl\<lparr>enableLeaderElection := b\<rparr>)))]"

definition formal_flag :: "(string \<Rightarrow> 'o flag option) \<Rightarrow> string \<Rightarrow> 'o command_line flag option" where
  "formal_flag others name =
     (case main_flags name of
        Some f \<Rightarrow> Some f
      | None \<Rightarrow> map_option (\<lambda>(isBool, write). (isBool, \<lambda>v c. map_option (\<lambda>q. c\<lparr>other_opts := q\<rparr>) (write v (other_opts c)))) (others name))"

text \<open>How one argument reads: no flag, the end of the flags, or a name perhaps with a value.\<close>

datatype argument = NonFlag | Terminator | Malformed | FlagArg string "string option"

definition split_name :: "string \<Rightarrow> string \<times> string option" where
  "split_name name =
     (case dropWhile (\<lambda>c. c \<noteq> CHR ''='') (tl name) of
        [] \<Rightarrow> (name, None)
      | _ # value \<Rightarrow> (hd name # takeWhile (\<lambda>c. c \<noteq> CHR ''='') (tl name), Some value))"

definition read_argument :: "string \<Rightarrow> argument" where
  "read_argument s =
     (if length s < 2 \<or> s ! 0 \<noteq> CHR ''-'' then NonFlag
      else if s = ''--'' then Terminator
      else let name = drop (if s ! 1 = CHR ''-'' then 2 else 1) s in
        if name = [] \<or> hd name = CHR ''-'' \<or> hd name = CHR ''='' then Malformed
        else (case split_name name of (n, v) \<Rightarrow> FlagArg n v))"

definition set_flag :: "string \<Rightarrow> (string \<Rightarrow> 'o \<Rightarrow> 'o option) \<Rightarrow> string \<Rightarrow> 'o \<Rightarrow> flag_error + 'o" where
  "set_flag name write value c = (case write value c of None \<Rightarrow> Inl (InvalidValue name value) | Some c' \<Rightarrow> Inr c')"

text \<open>\<open>flag.Parse\<close>: the state after the flags, and the arguments that are left.\<close>

fun parse_flags :: "(string \<Rightarrow> 'o flag option) \<Rightarrow> string list \<Rightarrow> 'o \<Rightarrow> flag_error + ('o \<times> string list)" where
  "parse_flags formal [] c = Inr (c, [])"
| "parse_flags formal (s # args) c =
     (case read_argument s of
        NonFlag \<Rightarrow> Inr (c, s # args)
      | Terminator \<Rightarrow> Inr (c, args)
      | Malformed \<Rightarrow> Inl (BadSyntax s)
      | FlagArg name value \<Rightarrow>
          (case formal name of
             None \<Rightarrow> Inl (if name = ''help'' \<or> name = ''h'' then ErrHelp else NotDefined name)
           | Some (True, write) \<Rightarrow>
               (case set_flag name write (case value of Some v \<Rightarrow> v | None \<Rightarrow> ''true'') c of
                  Inl e \<Rightarrow> Inl e
                | Inr c' \<Rightarrow> parse_flags formal args c')
           | Some (False, write) \<Rightarrow>
               (case value of
                  Some v \<Rightarrow>
                    (case set_flag name write v c of
                       Inl e \<Rightarrow> Inl e
                     | Inr c' \<Rightarrow> parse_flags formal args c')
                | None \<Rightarrow>
                    (case args of
                       [] \<Rightarrow> Inl (NeedsArgument name)
                     | v # args' \<Rightarrow>
                         (case set_flag name write v c of
                            Inl e \<Rightarrow> Inl e
                          | Inr c' \<Rightarrow> parse_flags formal args' c')))))"

text \<open>
  The start of \<open>main\<close>: the settings have their defaults until \<open>flag.Parse\<close> returns; the flags are set
  up with \<open>ExitOnError\<close>, so an error ends the process.
\<close>

definition parse_settings :: "(string \<Rightarrow> 'o flag option) \<Rightarrow> 'o \<Rightarrow> string list \<Rightarrow> flag_error + startup_flags" where
  "parse_settings others q args =
     map_sum id (\<lambda>(c, rest). settings c) (parse_flags (formal_flag others) args \<lparr>settings = default_flags, other_opts = q\<rparr>)"

definition main_with_arguments ::
  "('c, 'l, 'z) startup_env_scheme \<Rightarrow> (string \<Rightarrow> 'o flag option) \<Rightarrow> 'o \<Rightarrow> string list \<Rightarrow> flag_error + ('c, 'l, unit) wact" where
  "main_with_arguments E others q args = map_sum id (main_program E) (parse_settings others q args)"

section \<open>Every setting can be given on the command line\<close>

text \<open>Settings written as arguments.\<close>

definition flag_argument :: "string \<Rightarrow> string \<Rightarrow> string" where
  "flag_argument name v = CHR ''-'' # name @ CHR ''='' # v"

definition command_args :: "startup_flags \<Rightarrow> string list" where
  "command_args fl =
     [flag_argument ''sync-period'' (FormatInt (syncPeriod fl) @ ''ns''),
      flag_argument ''expire'' (FormatInt (expire_flag fl) @ ''ns''),
      flag_argument ''metrics-addr'' (metricsAddr fl),
      flag_argument ''enable-leader-election'' (if enableLeaderElection fl then ''true'' else ''false'')]"

lemma leadingInt_digits:
  "parse_digits (2 ^ 63) n ds = Inr m \<Longrightarrow> rest = [] \<or> digit_val (hd rest) = None \<Longrightarrow> leadingInt n (ds @ rest) = Some (m, rest)"
proof (induction ds arbitrary: n)
  case Nil
  then show ?case by (cases rest) auto
next
  case (Cons c ds)
  then obtain d where d: "digit_val c = Some d" "10 * n + d \<le> 2 ^ 63" "parse_digits (2 ^ 63) (10 * n + d) ds = Inr m"
    by (auto simp: Let_def split: option.splits if_splits)
  then have "n \<le> 2 ^ 63 div 10" by linarith
  then show ?case using d Cons.IH [OF d(3) Cons.prems(2)] by (simp add: mult.commute)
qed

lemma next_component_ns:
  assumes "n \<le> 2 ^ 63"
  shows "next_component (fmt_nat n @ ''ns'') = Some (n, [])"
proof -
  have ns: "digit_val CHR ''n'' = None" "digit_val CHR ''s'' = None" by (simp_all add: digit_val_def)
  have "parse_digits (2 ^ 63) 0 (fmt_nat n) = Inr n" using assms by (simp add: parse_digits_fmt_nat)
  then have i: "leadingInt 0 (fmt_nat n @ ''ns'') = Some (n, ''ns'')" by (rule leadingInt_digits) (simp add: ns)
  obtain c cs where f: "fmt_nat n = c # cs" by (cases "fmt_nat n") simp_all
  then have "\<not> is_unit_char (hd (fmt_nat n @ ''ns''))"
    using fmt_nat_digits [of c n] by (simp add: is_unit_char_def)
  moreover have "takeWhile is_unit_char ''ns'' = ''ns''" "dropWhile is_unit_char ''ns'' = []" by (simp_all add: is_unit_char_def ns)
  ultimately show ?thesis using assms i f by (simp add: next_component_def unitMap_def)
qed

lemma sum_components_ns:
  assumes "n \<le> 2 ^ 63"
  shows "sum_components 0 (fmt_nat n @ ''ns'') = Some n"
proof -
  obtain c cs where f: "fmt_nat n @ ''ns'' = c # cs" by (cases "fmt_nat n @ ''ns''") simp_all
  have "n mod 2 ^ 64 = n" using assms by (intro mod_less) simp
  then show ?thesis using next_component_ns [OF assms] assms unfolding f by simp
qed

lemma split_sign_fmt_nat_append: "split_sign (fmt_nat n @ s) = (False, fmt_nat n @ s)"
  using split_sign_fmt_nat [of n] by (cases "fmt_nat n") (auto simp: split_sign_def split: if_splits)

lemma ParseDuration_ns: "ParseDuration (FormatInt v @ ''ns'') = Some v"
proof -
  have not_0: "fmt_nat n @ ''ns'' \<noteq> ''0''" for n by (metis append_eq_Cons_conv append_is_Nil_conv list.inject list.simps(3))
  have range: "- (2 ^ 63) \<le> sint v" "sint v < 2 ^ 63" using sint_range_size [of v] by (simp_all add: word_size)
  show ?thesis
  proof (cases "sint v < 0")
    case True
    then have "nat (- sint v) \<le> 2 ^ 63" using range by (simp add: nat_le_iff)
    moreover have "- of_nat (nat (- sint v)) = v" using True by simp
    ultimately show ?thesis
      using True not_0 by (simp add: ParseDuration_def FormatInt_def split_sign_def sum_components_ns)
  next
    case False
    then have "nat (sint v) < 2 ^ 63" using range by (simp add: nat_less_iff)
    then have "nat (sint v) \<le> 2 ^ 63 - 1" by simp
    moreover have "of_nat (nat (sint v)) = v" using False by simp
    ultimately show ?thesis
      using False not_0 by (simp add: ParseDuration_def FormatInt_def split_sign_fmt_nat_append sum_components_ns)
  qed
qed

section \<open>Arguments\<close>

lemma split_at_first:
  "x \<notin> set cs \<Longrightarrow> dropWhile (\<lambda>c. c \<noteq> x) (cs @ x # v) = x # v"
  "x \<notin> set cs \<Longrightarrow> takeWhile (\<lambda>c. c \<noteq> x) (cs @ x # v) = cs"
  "x \<notin> set cs \<Longrightarrow> dropWhile (\<lambda>c. c \<noteq> x) cs = []"
  by (induction cs) auto

lemma read_argument_value:
  assumes "CHR ''='' \<notin> set name" "name \<noteq> []" "hd name \<noteq> CHR ''-''"
  shows "read_argument (flag_argument name v) = FlagArg name (Some v)"
proof -
  obtain c cs where n: "name = c # cs" using assms(2) by (cases name) simp_all
  have "CHR ''='' \<notin> set cs" "c \<noteq> CHR ''=''" "c \<noteq> CHR ''-''" using assms n by auto
  then show ?thesis
    by (simp add: n flag_argument_def read_argument_def split_name_def Let_def split_at_first)
qed

lemma parse_flag_value:
  assumes "formal name = Some (b, write)" "CHR ''='' \<notin> set name" "name \<noteq> []" "hd name \<noteq> CHR ''-''" "write v c = Some c'"
  shows "parse_flags formal (flag_argument name v # args) c = parse_flags formal args c'"
  using assms(1,5) by (cases b) (simp_all add: read_argument_value [OF assms(2-4)] set_flag_def)

lemma formal_main:
  "formal_flag others ''sync-period'' =
    Some (False, \<lambda>v. set_settings (map_option (\<lambda>d fl. fl\<lparr>syncPeriod := d\<rparr>) (ParseDuration v)))"
  "formal_flag others ''expire'' =
    Some (False, \<lambda>v. set_settings (map_option (\<lambda>d fl. fl\<lparr>expire_flag := d\<rparr>) (ParseDuration v)))"
  "formal_flag others ''metrics-addr'' = Some (False, \<lambda>v. set_settings (Some (\<lambda>fl. fl\<lparr>metricsAddr := v\<rparr>)))"
  "formal_flag others ''enable-leader-election'' = Some (True, \<lambda>v. set_settings
    (case ParseBool v of Inl _ \<Rightarrow> None | Inr b \<Rightarrow> Some (\<lambda>fl. fl\<lparr>enableLeaderElection := b\<rparr>)))"
  by (simp_all add: formal_flag_def main_flags_def)

lemma command_args_parse:
  "parse_flags (formal_flag others) (command_args fl @ args) c = parse_flags (formal_flag others) args (c\<lparr>settings := fl\<rparr>)"
proof -
  have bool: "ParseBool (if b then ''true'' else ''false'') = Inr b" for b by (simp add: ParseBool_def)
  have all: "r\<lparr>syncPeriod := syncPeriod fl, expire_flag := expire_flag fl, metricsAddr := metricsAddr fl,
      enableLeaderElection := enableLeaderElection fl\<rparr> = fl" for r :: startup_flags
    by (cases r; cases fl) simp
  note step = parse_flag_value [where formal = "formal_flag others"]
  show ?thesis
    unfolding command_args_def append_Cons append_Nil
    by (subst step [OF formal_main(1)] step [OF formal_main(2)] step [OF formal_main(3)] step [OF formal_main(4)],
        (simp add: set_settings_def ParseDuration_ns bool; fail)+)+ (simp add: all)
qed

text \<open>
  C35. Every setting of the operator can be given on the command line: the arguments that settings
  are written as, with the durations in nanoseconds and negative ones included, set all four values
  and override what was set before, parsing goes on with the arguments after them, and \<open>main\<close> started
  with these arguments alone runs with exactly these settings.
\<close>
theorem command_line_roundtrip:
  "parse_flags (formal_flag others) (command_args fl @ args) c = parse_flags (formal_flag others) args (c\<lparr>settings := fl\<rparr>) \<and>
   main_with_arguments E others q (command_args fl) = Inr (main_program E fl)"
  using command_args_parse [of others fl args c] command_args_parse [of others fl "[]"]
  by (simp add: main_with_arguments_def parse_settings_def)

section \<open>Examples\<close>

lemmas duration_simps = ParseDuration_def split_sign_def next_component_def is_unit_char_def digit_val_def unitMap_def Let_def

lemma duration_examples:
  "ParseDuration ''90s'' = Some 90000000000" "ParseDuration ''-2h45m'' = Some (- 9900000000000)"
  "ParseDuration ''10'' = None" "ParseDuration ''3000000h'' = None"
  by (simp_all add: duration_simps)

lemma fraction_example: "ParseDuration ''.5s'' = Some 500000000"
  by (simp add: duration_simps fraction_ns_def float64_def exponent_def round_even_def compute_floorlog)

text \<open>Parsing stops at the first argument that is no flag; an error names the flag and the value.\<close>

lemma settings_examples:
  "parse_settings (\<lambda>_. None) () [''-expire'', ''90s'', ''--enable-leader-election'', ''rest'', ''-expire=1h''] =
    Inr (default_flags\<lparr>expire_flag := 90000000000, enableLeaderElection := True\<rparr>)"
  "parse_settings (\<lambda>_. None) () [''-expire=10''] = Inl (InvalidValue ''expire'' ''10'')"
  "parse_settings (\<lambda>_. None) () [''-help''] = Inl ErrHelp"
  "parse_settings (\<lambda>_. None) () [''-metrics-addr''] = Inl (NeedsArgument ''metrics-addr'')"
  by (simp_all add: parse_settings_def read_argument_def split_name_def formal_flag_def main_flags_def set_flag_def
      set_settings_def ParseBool_def duration_examples)

end
