(* ===== verification/Spec2Isabelle.thy ===== *)
theory Spec2Isabelle
  imports Registration StatusMap Applied Observed Flags
begin

text \<open>
  A verification development for the template operator, a Kubernetes operator in Go. This root
  theory only imports the others and documents them.

  The program. A Template object selects source objects; for each of them the operator renders
  further objects and applies them to the cluster. A REST object describes HTTP requests that the
  operator sends when the object is changed or deleted. The parts, in the order data flows:

  \<^item> \<open>main.go\<close> reads the command line, builds one schema cache, one watcher and three reconcilers that share them, and
    starts the manager of controller-runtime, which runs the reconcilers.
  \<^item> \<open>controllers/template_controller.go\<close> fetches a Template, creates a template manager and runs
    it; its callback does the same for one object that a watch reports.
    \<open>controllers/crd_controller.go\<close> expires the schema cache when a CRD has a newer resource version
    than any seen. \<open>controllers/rest_controller.go\<close> adds and removes the finalizer of a REST object,
    lets the REST manager send the requests and writes the status.
  \<^item> \<open>k8s/template_manager.go\<close> selects the sources, patches them, renders the templates of the
    resources, applies the results with their owner, copies sources to other namespaces and sets
    the condition. It calls \<open>k8s/patches.go\<close> (kustomize patches), \<open>k8s/watcher.go\<close> (one informer for
    each kind and template) and \<open>k8s/schema_manager.go\<close> (duck typing: converting the text that
    templates produce to the types that the API schema gives).
  \<^item> \<open>k8s/schema_cache.go\<close> caches the OpenAPI document, the API resources, the CRDs and their decoded
    schemas for the schema manager. \<open>k8s/rest_manager.go\<close> templates and sends the HTTP requests.
\<close>

text \<open>
  How the model is laid out. All state is one record \<open>world\<close> (World): the cluster and everything
  else outside as an abstract state \<open>'c\<close>, the fields of \<open>SchemaCache\<close>, the map of the watcher, the
  field \<open>ResourceVersion\<close> of the CRD reconciler, and the record of the calls that leave the process,
  which no operation reads. A Go function that returns \<open>(T, error)\<close> is a computation on that world
  whose result is a value, an error or a panic (Prelude: \<open>bindA\<close>, \<open>wrapA\<close>, \<open>attempt\<close>). Code that is
  not in the repository (kommons, client-go, controller-runtime, text/template, YAML, JSON, gjson,
  glob, tar, kustomize, golang-lru) is a field of an environment record: \<open>cache_env\<close> (SchemaCache),
  \<open>k8s_env\<close> (Environment), \<open>rest_env\<close> (RestManager) and \<open>startup_env\<close> (Startup), each extending the one
  before, \<open>externals\<close> (DeepCopy) and \<open>scheme_env\<close> (Registration). What a property needs of it is a
  named hypothesis, and each property with hypotheses has a witness on a concrete environment
  (\<open>demo_env\<close>, \<open>demo_rest_env\<close>, \<open>storing_env\<close>, \<open>labelled_env\<close>, \<open>demo_externals\<close>).

  \<^item> Prelude, Strconv, GoValue, Base64: errors and computations, the functions of the standard library
    that the code calls (strings, strconv, encoding/base64), Go values behind \<open>interface{}\<close>. An
    integer is a 64-bit word, read by \<open>sint\<close> or \<open>unat\<close>; a Go map is an association list.
  \<^item> Schema, Transform, DuckType, SchemaManager: \<open>k8s/schema_manager.go\<close>. The search for the type of a
    key (\<open>findTypeForKey\<close>, by a measure), the conversions \<open>transform...ToType\<close>, the recursion
    \<open>duckType\<close>, and the manager that finds the schema of a kind.
  \<^item> Types: \<open>api/v1\<close>, and unstructured objects with the laws of their accessors (locale
    \<open>object_meta\<close>, interpreted on a JSON representation). World: the state and the calls.
  \<^item> SchemaCache: \<open>k8s/schema_cache.go\<close>; every method is one step, as it holds the mutex. The LRU
    cache is used through a locale of store laws.
  \<^item> Patches, Watch, Render, TemplateManager: \<open>k8s/patches.go\<close>, \<open>k8s/watcher.go\<close> and
    \<open>k8s/template_manager.go\<close>, the latter in two theories: rendering, then applying, copying, sources and
    git repositories.
  \<^item> RestManager, RestController: \<open>k8s/rest_manager.go\<close> and \<open>controllers/rest_controller.go\<close>.
    Controllers: \<open>controllers/client.go\<close>, \<open>crd_controller.go\<close>, \<open>template_controller.go\<close>. Startup:
    \<open>main.go\<close> and the \<open>SetupWithManager\<close> functions. Flags: the flags of \<open>main.go\<close>, with the packages
    flag and time that parse them. Registration: \<open>api/v1/groupversion_info.go\<close> and the
    \<open>init\<close> functions, which register the types with the scheme and the gauges with the registry; each
    counter that a controller increments is a registered gauge with one label.
  \<^item> Memory, DeepCopy: an explicit store of cells with addresses, and over it
    \<open>api/v1/zz_generated.deepcopy.go\<close>, whose functions only matter for what they share. StatusMap: the
    statements of \<open>controllers/rest_controller.go\<close> that change the status map in place, on that store.
  \<^item> Calls, Effects, Sources, Retry, Ownership, Observed, Operator, Applied, Interleaving: the proofs
    that span components.
\<close>

text \<open>
  What the lemmas show.

  \<^item> Duck typing: the search by dotted keys is a search by path segments, so dots in keys do no harm;
    every scalar is converted by the type at its own path; numbers conform to their field; keys and
    lengths are kept. For the conversions: exact ranges, agreement of the text path and the integer
    path, and where they differ.
  \<^item> Schema cache: when each method asks the server; what expiry forces and what it does not reach;
    the manager's schemas are genuine for any cache that meets the store laws (a refinement).
  \<^item> Template manager: what it applies is a patched source or names a patched source as its owner, from
    one source over a whole reconciliation with patches and git repositories (Ownership) to every
    sequence of steps of the operator (Applied), where the step is named that an applied object comes
    from: an event yields its object only in a namespace that the template selects. The files that
    kustomize runs on, conditions, dependencies, one-off templates, the exact copies, batches of
    rendered objects, the files of a git archive.
  \<^item> REST: a successful request was sent once and answered 2xx; a new generation is sent once, by its
    update action, is marked as observed only then, also when the status is written after conflicts,
    and makes the reconciler idle (Observed); the finalizer goes only after the remove action. Without
    any URL nothing is sent, and both go on as if it had been. The retry loops end.
  \<^item> Deep copies: the locale \<open>copying\<close> (Memory) is the contract of a deep copy; it is closed under
    pairs, structs, references, slices and maps, and every generated function is shown to meet it, so
    that a copy reads as its original and shares no cell with it. Hence the in-place updates of
    StatusMap agree with RestController, where a struct is a value, and never reach the object in
    the cache of the client.
  \<^item> Operator: \<open>logging\<close> (World), \<open>calling\<close> and \<open>stable\<close> (Calls) and \<open>operator_invariant\<close> (Operator) are
    locales for a predicate that survives the calls and the methods of the cache; inside them every
    operation of the program is shown to keep it. Their interpretations are the record of calls, the
    invariant of the schema cache, the CRD version, the marks of the watcher, the balance of the gauges
    and reachability by atomic steps. The properties of \<open>operator_steps\<close> follow for all sequences of
    reconciliations and changes of the cluster, those of \<open>interleaved\<close> for all interleavings of the
    sections that a mutex guards. The step relation \<open>atomic_step\<close> of the latter over-approximates the
    goroutines; every sequence of reconciliations is one of its sequences.
\<close>

text \<open>
  Bounds and loops. Loops over lists are structural recursions; \<open>findTypeForKey\<close> is a function by the
  length of the key, which every recursive call shortens. The two retry loops of the REST controller
  are partial functions into option, None standing for a loop that never ends; the locale \<open>retries\<close>
  (Retry) states their shape and \<open>Reconcile_terminates\<close> shows that they end, within the ten steps of
  the backoff, when \<open>wait.Backoff.Step\<close> uses up a step as it documents. No fuel is used.

  Simplifications. A computation of the model runs alone; Interleaving relates it to goroutines for
  the state that they share, not for the order of their calls to the cluster. A Go map is ranged over
  in the order of its association list, which stands for one of the orders that Go may choose. The content of
  Kubernetes events other than type and message and log output are not part of the model; an
  increment of a gauge is a recorded call, and its value the number of these. When a function returns
  an error, callers ignore its other result, and so does the model. Strings are lists of bytes. In
  DeepCopy a slice owns its backing array. A reading of the clock is the number of nanoseconds since
  the zero time, a duration an \<open>int64\<close>, and their sum is not bounded. The fraction of a duration on the
  command line goes through \<open>float64\<close> arithmetic, modelled as rounding of rationals (Flags).

  Not modelled. The format of the log output that \<open>setupLogger\<close> of \<open>main.go\<close> sets up. The goroutine of an
  informer is a recorded call together with its event handlers, whose events are steps of their own.
  Leader election, work queues and the listening for metrics belong to controller-runtime. The tests.
\<close>

end
